theory Spec2Isabelle
  imports Main
begin

section \<open>Exceptions, enums and progress counters\<close>

text \<open>
  Python exceptions are values. \<open>KeyboardInterrupt\<close> stands for the exceptions that
  derive from \<open>BaseException\<close> but not from \<open>Exception\<close>: the handlers of
  \<open>train\<close> and \<open>train_epoch\<close> are written \<open>except Exception\<close> and do not see them.
  The interpolated values of the messages are arguments of the constructors.
\<close>

datatype exn =
    RuntimeError string
  | ValueError string int
  | AssertionError
  | StopIteration
  | UserException nat
  | KeyboardInterrupt

fun is_Exception :: "exn \<Rightarrow> bool" where
  "is_Exception KeyboardInterrupt = False"
| "is_Exception _ = True"

datatype EntryPoint = EntryPoint_FIT | EntryPoint_TRAIN | EntryPoint_EVALUATE | EntryPoint_PREDICT

datatype ActivePhase = ActivePhase_TRAIN | ActivePhase_EVALUATE | ActivePhase_PREDICT

text \<open>
  Modelled from the spec: \<open>torchtnt/runner/progress.py\<close> (class \<open>Progress\<close>) is not among
  the sources; the counters and their two operations follow sections 3 and 4.1.
\<close>

record Progress =
  num_epochs_completed :: int
  num_steps_completed :: int
  num_steps_completed_in_epoch :: int

definition Progress_init :: Progress where
  "Progress_init =
     \<lparr>num_epochs_completed = 0, num_steps_completed = 0, num_steps_completed_in_epoch = 0\<rparr>"

definition increment_step :: "Progress \<Rightarrow> Progress" where
  "increment_step p =
     p\<lparr>num_steps_completed := num_steps_completed p + 1,
       num_steps_completed_in_epoch := num_steps_completed_in_epoch p + 1\<rparr>"

definition increment_epoch :: "Progress \<Rightarrow> Progress" where
  "increment_epoch p =
     p\<lparr>num_epochs_completed := num_epochs_completed p + 1,
       num_steps_completed_in_epoch := 0\<rparr>"

section \<open>PhaseState and State (state.py)\<close>

type_synonym batch = nat
type_synonym step_out = nat
type_synonym module = nat

definition check_loop_condition :: "string \<Rightarrow> int option \<Rightarrow> exn + unit" where
  "check_loop_condition name val =
     (case val of
        None \<Rightarrow> Inr ()
      | Some v \<Rightarrow> if v < 0 then Inl (ValueError name v) else Inr ())"

record PhaseState =
  dataloader :: "batch list"
  progress :: Progress
  max_epochs :: "int option"
  max_steps :: "int option"
  max_steps_per_epoch :: "int option"
  evaluate_every_n_steps :: "int option"
  evaluate_every_n_epochs :: "int option"
  step_output :: "step_out option"

text \<open>
  \<open>PhaseState.__init__\<close>: the five checks in the order of the source, the first failing
  one raises; \<open>progress or Progress()\<close> for the optional progress argument.
\<close>

definition PhaseState_init ::
  "batch list \<Rightarrow> Progress option \<Rightarrow> int option \<Rightarrow> int option \<Rightarrow> int option \<Rightarrow>
   int option \<Rightarrow> int option \<Rightarrow> exn + PhaseState" where
  "PhaseState_init dl prog m_epochs m_steps m_steps_per_epoch every_n_steps every_n_epochs =
     (case check_loop_condition ''max_epochs'' m_epochs of Inl e \<Rightarrow> Inl e | Inr _ \<Rightarrow>
      case check_loop_condition ''max_steps'' m_steps of Inl e \<Rightarrow> Inl e | Inr _ \<Rightarrow>
      case check_loop_condition ''max_steps_per_epoch'' m_steps_per_epoch of Inl e \<Rightarrow> Inl e | Inr _ \<Rightarrow>
      case check_loop_condition ''evaluate_every_n_steps'' every_n_steps of Inl e \<Rightarrow> Inl e | Inr _ \<Rightarrow>
      case check_loop_condition ''evaluate_every_n_epochs'' every_n_epochs of Inl e \<Rightarrow> Inl e | Inr _ \<Rightarrow>
      Inr \<lparr>dataloader = dl,
           progress = (case prog of None \<Rightarrow> Progress_init | Some p \<Rightarrow> p),
           max_epochs = m_epochs,
           max_steps = m_steps,
           max_steps_per_epoch = m_steps_per_epoch,
           evaluate_every_n_steps = every_n_steps,
           evaluate_every_n_epochs = every_n_epochs,
           step_output = None\<rparr>)"

text \<open>The timer of \<open>State\<close> only accumulates durations and is left out.\<close>

record State =
  entry_point :: EntryPoint
  train_state :: "PhaseState option"
  eval_state :: "PhaseState option"
  predict_state :: "PhaseState option"
  should_stop :: bool
  active_phase :: ActivePhase

definition State_init ::
  "EntryPoint \<Rightarrow> PhaseState option \<Rightarrow> PhaseState option \<Rightarrow> PhaseState option \<Rightarrow> State" where
  "State_init ep ts es ps =
     \<lparr>entry_point = ep, train_state = ts, eval_state = es, predict_state = ps,
      should_stop = False, active_phase = ActivePhase_TRAIN\<rparr>"

definition stop :: "'a State_scheme \<Rightarrow> 'a State_scheme" where
  "stop s = s\<lparr>should_stop := True\<rparr>"

text \<open>\<open>init_train_state\<close> of train.py.\<close>

definition init_train_state ::
  "batch list \<Rightarrow> int option \<Rightarrow> int option \<Rightarrow> int option \<Rightarrow> exn + State" where
  "init_train_state dl m_epochs m_steps m_steps_per_epoch =
     (case PhaseState_init dl None m_epochs m_steps m_steps_per_epoch None None of
        Inl e \<Rightarrow> Inl e
      | Inr ts \<Rightarrow> Inr (State_init EntryPoint_TRAIN (Some ts) None None))"

section \<open>The world of a run: the State and the modes of the modules\<close>

text \<open>
  A hook, a step function and the evaluation loop run user code on the \<open>State\<close> object and
  on the unit's modules. The world they see and may change is the \<open>State\<close> together with the
  training flag of every module. A hook either returns or raises, and in both cases leaves
  a world behind, so its result is \<open>(exn \<times> world) + world\<close> with \<open>Inl\<close> for the raise.
\<close>

record world = State +
  training :: "module \<Rightarrow> bool"

type_synonym hook = "world \<Rightarrow> (exn \<times> world) + world"

text \<open>
  \<open>train_step\<close> receives either one batch or the data iterator itself
  (\<open>_step_requires_iterator\<close> inspects its signature); with the iterator it consumes the
  batches it wants and hands back what is left of the iterator.
\<close>

datatype step_fn =
    Batch_step "world \<Rightarrow> batch \<Rightarrow> (exn \<times> world) + (step_out \<times> world)"
  | Iterator_step "world \<Rightarrow> batch list \<Rightarrow> ((exn \<times> world) + (step_out \<times> world)) \<times> batch list"

datatype hook_name =
    on_train_start
  | on_train_end
  | on_train_epoch_start
  | on_train_epoch_end
  | on_train_step_start
  | on_train_step_end
  | on_exception exn

record train_unit =
  tracked_modules :: "module set"
  train_step :: step_fn
  hooks :: "hook_name \<Rightarrow> hook"

type_synonym callback = "hook_name \<Rightarrow> hook option"

text \<open>
  The driver's observable actions, in order. The trace is kept beside the world, out of
  reach of the hooks. An event is recorded when the call is made, before its outcome.
\<close>

datatype event =
    Unit_hook hook_name
  | Callback_hook nat hook_name
  | Train_step
  | Evaluate
  | Warning_no_steps

type_synonym run = "event list \<times> world"

type_synonym outcome = "(exn \<times> run) + run"

section \<open>Helpers of utils.py\<close>

text \<open>
  Modelled from the spec: \<open>torchtnt/runner/utils.py\<close> is not among the sources.
  \<open>_is_done\<close> and \<open>_is_epoch_done\<close> follow section 4.2, \<open>_set_module_training_mode\<close> and
  \<open>_reset_module_training_mode\<close> section 4.5, \<open>_run_callback_fn\<close> section 4.6 and
  \<open>_step_requires_iterator\<close> step 3 of section 4.3.
\<close>

definition is_done :: "Progress \<Rightarrow> int option \<Rightarrow> int option \<Rightarrow> bool" where
  "is_done p m_epochs m_steps =
     ((case m_steps of None \<Rightarrow> False | Some n \<Rightarrow> num_steps_completed p \<ge> n) \<or>
      (case m_epochs of None \<Rightarrow> False | Some n \<Rightarrow> num_epochs_completed p \<ge> n))"

definition is_epoch_done :: "Progress \<Rightarrow> int option \<Rightarrow> int option \<Rightarrow> bool" where
  "is_epoch_done p m_steps_per_epoch m_steps =
     ((case m_steps_per_epoch of None \<Rightarrow> False
       | Some n \<Rightarrow> num_steps_completed_in_epoch p \<ge> n) \<or>
      (case m_steps of None \<Rightarrow> False | Some n \<Rightarrow> num_steps_completed p \<ge> n))"

definition set_module_training_mode ::
  "module set \<Rightarrow> bool \<Rightarrow> world \<Rightarrow> (module \<rightharpoonup> bool) \<times> world" where
  "set_module_training_mode modules mode w =
     ((\<lambda>m. if m \<in> modules then Some (training w m) else None),
      w\<lparr>training := (\<lambda>m. if m \<in> modules then mode else training w m)\<rparr>)"

definition reset_module_training_mode ::
  "module set \<Rightarrow> (module \<rightharpoonup> bool) \<Rightarrow> world \<Rightarrow> world" where
  "reset_module_training_mode modules prior_modes w =
     w\<lparr>training :=
         (\<lambda>m. if m \<in> modules
              then (case prior_modes m of Some b \<Rightarrow> b | None \<Rightarrow> training w m)
              else training w m)\<rparr>"

definition step_requires_iterator :: "step_fn \<Rightarrow> bool" where
  "step_requires_iterator f = (case f of Batch_step _ \<Rightarrow> False | Iterator_step _ \<Rightarrow> True)"

definition call_hook :: "event \<Rightarrow> hook \<Rightarrow> run \<Rightarrow> outcome" where
  "call_hook ev h r =
     (case h (snd r) of
        Inl (e, w') \<Rightarrow> Inl (e, (fst r @ [ev], w'))
      | Inr w' \<Rightarrow> Inr (fst r @ [ev], w'))"

text \<open>
  The callbacks in list order, \<open>i\<close> the position of the first one; a callback that does not
  expose the hook is skipped, and a raise ends the dispatch at once.
\<close>

fun run_callback_fn_from :: "nat \<Rightarrow> callback list \<Rightarrow> hook_name \<Rightarrow> run \<Rightarrow> outcome" where
  "run_callback_fn_from i [] name r = Inr r"
| "run_callback_fn_from i (cb # cbs) name r =
     (case cb name of
        None \<Rightarrow> run_callback_fn_from (Suc i) cbs name r
      | Some h \<Rightarrow>
          (case call_hook (Callback_hook i name) h r of
             Inl x \<Rightarrow> Inl x
           | Inr r' \<Rightarrow> run_callback_fn_from (Suc i) cbs name r'))"

definition run_callback_fn :: "callback list \<Rightarrow> hook_name \<Rightarrow> run \<Rightarrow> outcome" where
  "run_callback_fn cbs name r = run_callback_fn_from 0 cbs name r"

text \<open>A unit hook followed by the same hook of the callbacks, as the driver always pairs them.\<close>

definition run_unit_hook :: "train_unit \<Rightarrow> hook_name \<Rightarrow> run \<Rightarrow> outcome" where
  "run_unit_hook u name r = call_hook (Unit_hook name) (hooks u name) r"

section \<open>The train loops (train.py)\<close>

text \<open>
  \<open>train_state\<close> names the one PhaseState object of the run; its fields are read and written
  through the world, where the hooks see them.
\<close>

definition train_progress :: "world \<Rightarrow> Progress" where
  "train_progress w = progress (the (train_state w))"

definition update_train_state :: "(PhaseState \<Rightarrow> PhaseState) \<Rightarrow> world \<Rightarrow> world" where
  "update_train_state f w = w\<lparr>train_state := map_option f (train_state w)\<rparr>"

definition update_train_progress :: "(Progress \<Rightarrow> Progress) \<Rightarrow> world \<Rightarrow> world" where
  "update_train_progress f w = update_train_state (\<lambda>ts. ts\<lparr>progress := f (progress ts)\<rparr>) w"

text \<open>
  \<open>_evaluate_impl\<close> lives in evaluate.py, which is not among the sources: the evaluation
  loop is a parameter \<open>evl\<close> of the train loops, user code like a hook.
\<close>

definition evaluate_impl :: "hook \<Rightarrow> run \<Rightarrow> outcome" where
  "evaluate_impl evl r = call_hook Evaluate evl r"

text \<open>Lines 191 to 197: a cadence that is \<open>None\<close> or \<open>0\<close> is falsy and stays \<open>None\<close>.\<close>

definition truthy :: "int option \<Rightarrow> int option" where
  "truthy v = (case v of None \<Rightarrow> None | Some k \<Rightarrow> if k \<noteq> 0 then Some k else None)"

definition resolve_evaluate_every_n_steps :: "world \<Rightarrow> int option" where
  "resolve_evaluate_every_n_steps w =
     (case eval_state w of None \<Rightarrow> None | Some es \<Rightarrow> truthy (evaluate_every_n_steps es))"

definition resolve_evaluate_every_n_epochs :: "world \<Rightarrow> int option" where
  "resolve_evaluate_every_n_epochs w =
     (case eval_state w of None \<Rightarrow> None | Some es \<Rightarrow> truthy (evaluate_every_n_epochs es))"

text \<open>
  Lines 234 to 251, what follows a \<open>train_step\<close> that returned \<open>out\<close>: the step output is
  stored, the step counted, the callbacks told, the output cleared, and the evaluation
  loop run when the count in the epoch is a multiple of the cadence.
\<close>

definition finish_train_step ::
  "callback list \<Rightarrow> hook \<Rightarrow> int option \<Rightarrow> step_out \<Rightarrow> run \<Rightarrow> outcome" where
  "finish_train_step cbs evl every_n_steps out r =
     (let w1 = update_train_state (\<lambda>ts. ts\<lparr>step_output := Some out\<rparr>) (snd r);
          w2 = update_train_progress increment_step w1
      in case run_callback_fn cbs on_train_step_end (fst r, w2) of
           Inl x \<Rightarrow> Inl x
         | Inr r3 \<Rightarrow>
             (let r4 = (fst r3, update_train_state (\<lambda>ts. ts\<lparr>step_output := None\<rparr>) (snd r3))
              in case every_n_steps of
                   None \<Rightarrow> Inr r4
                 | Some k \<Rightarrow>
                     if num_steps_completed_in_epoch (train_progress (snd r4)) mod k = 0
                     then evaluate_impl evl r4
                     else Inr r4))"

text \<open>
  Lines 225 to 251, the body of the \<open>try\<close> of one iteration, with the data iterator as the
  list of the batches still to come. The result carries the iterator after the iteration.
\<close>

definition train_step_body ::
  "train_unit \<Rightarrow> callback list \<Rightarrow> hook \<Rightarrow> int option \<Rightarrow> batch list \<Rightarrow> run \<Rightarrow>
   outcome \<times> batch list" where
  "train_step_body u cbs evl every_n_steps data_iter r =
     (case train_step u of
        Batch_step f \<Rightarrow>
          (case data_iter of
             [] \<Rightarrow> (Inl (StopIteration, r), [])
           | b # rest \<Rightarrow>
               (case run_callback_fn cbs on_train_step_start r of
                  Inl x \<Rightarrow> (Inl x, rest)
                | Inr r1 \<Rightarrow>
                    (case f (snd r1) b of
                       Inl (e, w2) \<Rightarrow> (Inl (e, (fst r1 @ [Train_step], w2)), rest)
                     | Inr (out, w2) \<Rightarrow>
                         (finish_train_step cbs evl every_n_steps out
                            (fst r1 @ [Train_step], w2), rest))))
      | Iterator_step f \<Rightarrow>
          (case run_callback_fn cbs on_train_step_start r of
             Inl x \<Rightarrow> (Inl x, data_iter)
           | Inr r1 \<Rightarrow>
               (case f (snd r1) data_iter of
                  (Inl (e, w2), rest) \<Rightarrow> (Inl (e, (fst r1 @ [Train_step], w2)), rest)
                | (Inr (out, w2), rest) \<Rightarrow>
                    (finish_train_step cbs evl every_n_steps out
                       (fst r1 @ [Train_step], w2), rest))))"

text \<open>
  Lines 219 to 254, the step loop. It may run forever (an iterator step that never raises,
  no limit set), so it takes fuel and \<open>None\<close> says the fuel ran out. \<open>StopIteration\<close> from
  anywhere in the body breaks out of the loop; any other exception leaves it.
\<close>

fun train_step_loop ::
  "nat \<Rightarrow> train_unit \<Rightarrow> callback list \<Rightarrow> hook \<Rightarrow> int option \<Rightarrow> batch list \<Rightarrow> run \<Rightarrow>
   outcome option" where
  "train_step_loop 0 u cbs evl every_n_steps data_iter r = None"
| "train_step_loop (Suc fuel) u cbs evl every_n_steps data_iter r =
     (if should_stop (snd r) \<or>
         is_epoch_done (train_progress (snd r))
           (max_steps_per_epoch (the (train_state (snd r))))
           (max_steps (the (train_state (snd r))))
      then Some (Inr r)
      else
        (case train_step_body u cbs evl every_n_steps data_iter r of
           (Inl (e, r'), rest) \<Rightarrow> if e = StopIteration then Some (Inr r') else Some (Inl (e, r'))
         | (Inr r', rest) \<Rightarrow> train_step_loop fuel u cbs evl every_n_steps rest r'))"

text \<open>Lines 256 to 286, what follows the step loop.\<close>

definition finish_train_epoch ::
  "train_unit \<Rightarrow> callback list \<Rightarrow> hook \<Rightarrow> int option \<Rightarrow> (module \<rightharpoonup> bool) \<Rightarrow> int \<Rightarrow> run \<Rightarrow>
   outcome" where
  "finish_train_epoch u cbs evl every_n_epochs prior_module_train_states prev_steps_in_epoch r =
     (let any_steps_completed =
            (\<bar>num_steps_completed_in_epoch (train_progress (snd r)) - prev_steps_in_epoch\<bar> > 0);
          tr1 = (if \<not> any_steps_completed then fst r @ [Warning_no_steps] else fst r);
          w1 = update_train_progress increment_epoch (snd r)
      in case run_unit_hook u on_train_epoch_end (tr1, w1) of
           Inl x \<Rightarrow> Inl x
         | Inr r2 \<Rightarrow>
             (case run_callback_fn cbs on_train_epoch_end r2 of
                Inl x \<Rightarrow> Inl x
              | Inr r3 \<Rightarrow>
                  (case (case every_n_epochs of
                           None \<Rightarrow> Inr r3
                         | Some k \<Rightarrow>
                             if num_epochs_completed (train_progress (snd r3)) mod k = 0
                             then evaluate_impl evl r3
                             else Inr r3) of
                     Inl x \<Rightarrow> Inl x
                   | Inr r4 \<Rightarrow>
                       Inr (fst r4,
                            reset_module_training_mode (tracked_modules u)
                              prior_module_train_states (snd r4)))))"

text \<open>
  Lines 199 to 207: the epoch-start hooks, only when no step of the epoch is completed yet.
\<close>

definition start_train_epoch :: "train_unit \<Rightarrow> callback list \<Rightarrow> run \<Rightarrow> outcome" where
  "start_train_epoch u cbs r =
     (if num_steps_completed_in_epoch (train_progress (snd r)) = 0
      then (case run_unit_hook u on_train_epoch_start r of
              Inl x \<Rightarrow> Inl x
            | Inr r2 \<Rightarrow> run_callback_fn cbs on_train_epoch_start r2)
      else Inr r)"

text \<open>
  \<open>_train_epoch_impl\<close>. The sampler epoch of a distributed sampler
  (\<open>_maybe_set_distributed_sampler_epoch\<close>) belongs to the dataloader and is left out;
  \<open>iter(train_state.dataloader)\<close> starts at the first batch.
\<close>

definition train_epoch_impl ::
  "nat \<Rightarrow> train_unit \<Rightarrow> callback list \<Rightarrow> hook \<Rightarrow> run \<Rightarrow> outcome option" where
  "train_epoch_impl fuel u cbs evl r =
     (let w0 = (snd r)\<lparr>active_phase := ActivePhase_TRAIN\<rparr>;
          (prior_module_train_states, w1) = set_module_training_mode (tracked_modules u) True w0
      in case train_state w1 of
           None \<Rightarrow> Some (Inl (AssertionError, (fst r, w1)))
         | Some ts \<Rightarrow>
             (let every_n_steps = resolve_evaluate_every_n_steps w1;
                  every_n_epochs = resolve_evaluate_every_n_epochs w1
              in case start_train_epoch u cbs (fst r, w1) of
                   Inl x \<Rightarrow> Some (Inl x)
                 | Inr r3 \<Rightarrow>
                     (let data_iter = dataloader (the (train_state (snd r3)));
                          prev_steps_in_epoch = num_steps_completed_in_epoch (train_progress (snd r3))
                      in case train_step_loop fuel u cbs evl every_n_steps data_iter r3 of
                           None \<Rightarrow> None
                         | Some (Inl x) \<Rightarrow> Some (Inl x)
                         | Some (Inr r4) \<Rightarrow>
                             Some (finish_train_epoch u cbs evl every_n_epochs
                                     prior_module_train_states prev_steps_in_epoch r4))))"

text \<open>
  Lines 114 to 118, the epoch loop of \<open>_train_impl\<close>; \<open>k\<close> bounds the number of epochs and
  \<open>fuel\<close> the steps of each.
\<close>

fun train_epochs_loop ::
  "nat \<Rightarrow> nat \<Rightarrow> train_unit \<Rightarrow> callback list \<Rightarrow> hook \<Rightarrow> run \<Rightarrow> outcome option" where
  "train_epochs_loop 0 fuel u cbs evl r = None"
| "train_epochs_loop (Suc k) fuel u cbs evl r =
     (if should_stop (snd r) \<or>
         is_done (train_progress (snd r))
           (max_epochs (the (train_state (snd r))))
           (max_steps (the (train_state (snd r))))
      then Some (Inr r)
      else
        (case train_epoch_impl fuel u cbs evl r of
           None \<Rightarrow> None
         | Some (Inl x) \<Rightarrow> Some (Inl x)
         | Some (Inr r') \<Rightarrow> train_epochs_loop k fuel u cbs evl r'))"

text \<open>\<open>_train_impl\<close>.\<close>

definition train_impl ::
  "nat \<Rightarrow> train_unit \<Rightarrow> callback list \<Rightarrow> hook \<Rightarrow> run \<Rightarrow> outcome option" where
  "train_impl fuel u cbs evl r =
     (case train_state (snd r) of
        None \<Rightarrow> Some (Inl (RuntimeError ''Expected train_state to be initialized!'', r))
      | Some ts \<Rightarrow>
          (let w0 = (snd r)\<lparr>active_phase := ActivePhase_TRAIN\<rparr>;
               (prior_module_train_states, w1) =
                 set_module_training_mode (tracked_modules u) True w0
           in case run_unit_hook u on_train_start (fst r, w1) of
                Inl x \<Rightarrow> Some (Inl x)
              | Inr r2 \<Rightarrow>
                  (case run_callback_fn cbs on_train_start r2 of
                     Inl x \<Rightarrow> Some (Inl x)
                   | Inr r3 \<Rightarrow>
                       (case train_epochs_loop fuel fuel u cbs evl r3 of
                          None \<Rightarrow> None
                        | Some (Inl x) \<Rightarrow> Some (Inl x)
                        | Some (Inr r4) \<Rightarrow>
                            (case run_unit_hook u on_train_end r4 of
                               Inl x \<Rightarrow> Some (Inl x)
                             | Inr r5 \<Rightarrow>
                                 (case run_callback_fn cbs on_train_end r5 of
                                    Inl x \<Rightarrow> Some (Inl x)
                                  | Inr r6 \<Rightarrow>
                                      Some (Inr (fst r6,
                                        reset_module_training_mode (tracked_modules u)
                                          prior_module_train_states (snd r6)))))))))"

text \<open>
  The \<open>except Exception as e\<close> clause shared by \<open>train\<close> and \<open>train_epoch\<close>: the unit's
  \<open>on_exception\<close>, then the callbacks', then \<open>raise e\<close>. A raise of a handler is not caught.
\<close>

definition handle_exception :: "train_unit \<Rightarrow> callback list \<Rightarrow> exn \<Rightarrow> run \<Rightarrow> outcome" where
  "handle_exception u cbs e r =
     (if \<not> is_Exception e then Inl (e, r)
      else
        (case run_unit_hook u (on_exception e) r of
           Inl x \<Rightarrow> Inl x
         | Inr r1 \<Rightarrow>
             (case run_callback_fn cbs (on_exception e) r1 of
                Inl x \<Rightarrow> Inl x
              | Inr r2 \<Rightarrow> Inl (e, r2))))"

definition callbacks_or_empty :: "callback list option \<Rightarrow> callback list" where
  "callbacks_or_empty callbacks = (case callbacks of None \<Rightarrow> [] | Some cbs \<Rightarrow> cbs)"

text \<open>\<open>train\<close>, the entry point.\<close>

definition train ::
  "nat \<Rightarrow> train_unit \<Rightarrow> callback list option \<Rightarrow> hook \<Rightarrow> run \<Rightarrow> outcome option" where
  "train fuel u callbacks evl r =
     (let cbs = callbacks_or_empty callbacks;
          r0 = (fst r, (snd r)\<lparr>entry_point := EntryPoint_TRAIN\<rparr>)
      in case train_impl fuel u cbs evl r0 of
           None \<Rightarrow> None
         | Some (Inr r') \<Rightarrow> Some (Inr r')
         | Some (Inl (e, r')) \<Rightarrow> Some (handle_exception u cbs e r'))"

text \<open>\<open>train_epoch\<close>, the single-epoch entry point.\<close>

definition train_epoch_checked ::
  "nat \<Rightarrow> train_unit \<Rightarrow> callback list \<Rightarrow> hook \<Rightarrow> run \<Rightarrow> outcome option" where
  "train_epoch_checked fuel u cbs evl r =
     (case train_state (snd r) of
        None \<Rightarrow> Some (Inl (RuntimeError ''Expected train_state to be initialized!'', r))
      | Some ts \<Rightarrow>
          if \<not> (max_epochs ts = Some 1)
          then Some (Inl (RuntimeError ''Expected state.train_state.max_epochs to be 1'', r))
          else train_epoch_impl fuel u cbs evl
                 (fst r, (snd r)\<lparr>entry_point := EntryPoint_TRAIN\<rparr>))"

definition train_epoch ::
  "nat \<Rightarrow> train_unit \<Rightarrow> callback list option \<Rightarrow> hook \<Rightarrow> run \<Rightarrow> outcome option" where
  "train_epoch fuel u callbacks evl r =
     (let cbs = callbacks_or_empty callbacks
      in case train_epoch_checked fuel u cbs evl r of
           None \<Rightarrow> None
         | Some (Inr r') \<Rightarrow> Some (Inr r')
         | Some (Inl (e, r')) \<Rightarrow> Some (handle_exception u cbs e r'))"

section \<open>Describing runs\<close>

text \<open>The run an outcome leaves behind, whether it is a return or a raise.\<close>

definition outcome_run :: "outcome \<Rightarrow> run" where
  "outcome_run res = (case res of Inl (e, r) \<Rightarrow> r | Inr r \<Rightarrow> r)"

text \<open>
  The events of one dispatch of \<open>name\<close> in which every callback returns: one event for
  each callback that exposes the hook, in list order.
\<close>

fun callback_events_from :: "nat \<Rightarrow> callback list \<Rightarrow> hook_name \<Rightarrow> event list" where
  "callback_events_from i [] name = []"
| "callback_events_from i (cb # cbs) name =
     (case cb name of None \<Rightarrow> [] | Some h \<Rightarrow> [Callback_hook i name]) @
     callback_events_from (Suc i) cbs name"

definition callback_events :: "callback list \<Rightarrow> hook_name \<Rightarrow> event list" where
  "callback_events cbs name = callback_events_from 0 cbs name"

text \<open>
  \<open>logs P r res\<close>: the outcome \<open>res\<close> of a computation started in \<open>r\<close> has the trace of
  \<open>r\<close> followed by events that all satisfy \<open>P\<close>.
\<close>

definition logs :: "(event \<Rightarrow> bool) \<Rightarrow> run \<Rightarrow> outcome \<Rightarrow> bool" where
  "logs P r res = (\<exists>evs. fst (outcome_run res) = fst r @ evs \<and> list_all P evs)"

text \<open>The events the step loop can record; \<open>Evaluate\<close> only with a cadence.\<close>

fun step_loop_event :: "bool \<Rightarrow> event \<Rightarrow> bool" where
  "step_loop_event with_eval (Callback_hook i name) =
     (name = on_train_step_start \<or> name = on_train_step_end)"
| "step_loop_event with_eval Train_step = True"
| "step_loop_event with_eval Evaluate = with_eval"
| "step_loop_event with_eval (Unit_hook name) = False"
| "step_loop_event with_eval Warning_no_steps = False"

text \<open>
  The events one call of the epoch routine can record; \<open>first\<close> says that no step of the
  epoch was completed at entry, \<open>with_eval\<close> that a cadence is configured.
\<close>

fun train_epoch_event :: "bool \<Rightarrow> bool \<Rightarrow> event \<Rightarrow> bool" where
  "train_epoch_event first with_eval (Unit_hook name) =
     (name = on_train_epoch_end \<or> (first \<and> name = on_train_epoch_start))"
| "train_epoch_event first with_eval (Callback_hook i name) =
     (name = on_train_step_start \<or> name = on_train_step_end \<or> name = on_train_epoch_end \<or>
      (first \<and> name = on_train_epoch_start))"
| "train_epoch_event first with_eval Train_step = True"
| "train_epoch_event first with_eval Evaluate = with_eval"
| "train_epoch_event first with_eval Warning_no_steps = True"

text \<open>The exception of an outcome, if it is a raise.\<close>

definition raised :: "outcome \<Rightarrow> exn option" where
  "raised res = (case res of Inl (e, r) \<Rightarrow> Some e | Inr r \<Rightarrow> None)"

section \<open>Example units and states\<close>

definition noop_hook :: hook where
  "noop_hook w = Inr w"

text \<open>A unit with one tracked module whose step returns its batch.\<close>

definition example_unit :: train_unit where
  "example_unit =
     \<lparr>tracked_modules = {0}, train_step = Batch_step (\<lambda>w b. Inr (b, w)),
      hooks = (\<lambda>name. noop_hook)\<rparr>"

text \<open>The same unit with a step that raises.\<close>

definition failing_unit :: train_unit where
  "failing_unit = example_unit\<lparr>train_step := Batch_step (\<lambda>w b. Inl (UserException 0, w))\<rparr>"

definition example_phase :: "batch list \<Rightarrow> PhaseState" where
  "example_phase dl =
     \<lparr>dataloader = dl, progress = Progress_init, max_epochs = None, max_steps = None,
      max_steps_per_epoch = None, evaluate_every_n_steps = None,
      evaluate_every_n_epochs = None, step_output = None\<rparr>"

text \<open>A fresh state with every module in evaluation mode.\<close>

definition example_world :: "PhaseState option \<Rightarrow> PhaseState option \<Rightarrow> world" where
  "example_world ts es =
     \<lparr>entry_point = EntryPoint_TRAIN, train_state = ts, eval_state = es, predict_state = None,
      should_stop = False, active_phase = ActivePhase_TRAIN, training = (\<lambda>m. False)\<rparr>"

section \<open>Assumptions on user code\<close>

text \<open>
  Hooks, callbacks, the step function and the evaluation loop are user code. A relation
  \<open>R\<close> between the world before and after a call states what a piece of user code leaves
  alone; it is respected when it holds after a return and after a raise alike.
\<close>

definition hook_respects :: "(world \<Rightarrow> world \<Rightarrow> bool) \<Rightarrow> hook \<Rightarrow> bool" where
  "hook_respects R h = (\<forall>w. case h w of Inl (e, w') \<Rightarrow> R w w' | Inr w' \<Rightarrow> R w w')"

definition step_respects :: "(world \<Rightarrow> world \<Rightarrow> bool) \<Rightarrow> step_fn \<Rightarrow> bool" where
  "step_respects R sf =
     (case sf of
        Batch_step f \<Rightarrow>
          (\<forall>w b. case f w b of Inl (e, w') \<Rightarrow> R w w' | Inr (out, w') \<Rightarrow> R w w')
      | Iterator_step f \<Rightarrow>
          (\<forall>w it. case fst (f w it) of Inl (e, w') \<Rightarrow> R w w' | Inr (out, w') \<Rightarrow> R w w'))"

definition user_code_respects ::
  "(world \<Rightarrow> world \<Rightarrow> bool) \<Rightarrow> train_unit \<Rightarrow> callback list \<Rightarrow> hook \<Rightarrow> bool" where
  "user_code_respects R u cbs evl =
     ((\<forall>name. hook_respects R (hooks u name)) \<and>
      (\<forall>cb \<in> set cbs. \<forall>name h. cb name = Some h \<longrightarrow> hook_respects R h) \<and>
      hook_respects R evl \<and>
      step_respects R (train_step u))"

text \<open>User code that always returns.\<close>

definition hook_returns :: "hook \<Rightarrow> bool" where
  "hook_returns h = (\<forall>w. case h w of Inl x \<Rightarrow> False | Inr w' \<Rightarrow> True)"

definition step_returns :: "step_fn \<Rightarrow> bool" where
  "step_returns sf =
     (case sf of
        Batch_step f \<Rightarrow> (\<forall>w b. case f w b of Inl x \<Rightarrow> False | Inr y \<Rightarrow> True)
      | Iterator_step f \<Rightarrow> (\<forall>w it. case fst (f w it) of Inl x \<Rightarrow> False | Inr y \<Rightarrow> True))"

definition user_code_returns :: "train_unit \<Rightarrow> callback list \<Rightarrow> hook \<Rightarrow> bool" where
  "user_code_returns u cbs evl =
     ((\<forall>name. hook_returns (hooks u name)) \<and>
      (\<forall>cb \<in> set cbs. \<forall>name h. cb name = Some h \<longrightarrow> hook_returns h) \<and>
      hook_returns evl \<and>
      step_returns (train_step u))"

text \<open>
  The relations used below. \<open>latch\<close>: the stop flag is not cleared (user code has
  \<open>stop()\<close> and nothing that resets). \<open>keeps_train_state\<close>: the train PhaseState stays in
  place. \<open>keeps_epochs\<close>: moreover its epoch counter is not touched. \<open>quiet\<close>: the train
  PhaseState and the stop flag are left exactly as they were.
\<close>

definition latch :: "world \<Rightarrow> world \<Rightarrow> bool" where
  "latch w w' = (should_stop w \<longrightarrow> should_stop w')"

definition keeps_train_state :: "world \<Rightarrow> world \<Rightarrow> bool" where
  "keeps_train_state w w' = (train_state w \<noteq> None \<longrightarrow> train_state w' \<noteq> None)"


definition quiet :: "world \<Rightarrow> world \<Rightarrow> bool" where
  "quiet w w' = (train_state w' = train_state w \<and> should_stop w' = should_stop w)"

text \<open>
  A relation is kept by the step loop when it is a preorder that the loop's own writes
  (the step output, the step counters) respect.
\<close>

definition step_loop_keeps :: "(world \<Rightarrow> world \<Rightarrow> bool) \<Rightarrow> bool" where
  "step_loop_keeps R =
     ((\<forall>w. R w w) \<and>
      (\<forall>a b c. R a b \<longrightarrow> R b c \<longrightarrow> R a c) \<and>
      (\<forall>w x. R w (update_train_state (\<lambda>ts. ts\<lparr>step_output := x\<rparr>) w)) \<and>
      (\<forall>w. R w (update_train_progress increment_step w)))"


text \<open>A callback that exposes every hook and does nothing, and one with no hook at all.\<close>

definition example_callback :: callback where
  "example_callback name = Some noop_hook"

definition silent_callback :: callback where
  "silent_callback name = None"

text \<open>A phase reloaded from a checkpoint taken after two steps of its first epoch.\<close>

definition resumed_phase :: "batch list \<Rightarrow> PhaseState" where
  "resumed_phase dl =
     (example_phase dl)\<lparr>progress :=
        \<lparr>num_epochs_completed = 0, num_steps_completed = 2, num_steps_completed_in_epoch = 2\<rparr>\<rparr>"

text \<open>An eval phase configured with both cadences set to \<open>n\<close>.\<close>

definition eval_phase_every :: "int \<Rightarrow> PhaseState" where
  "eval_phase_every n =
     (example_phase [])\<lparr>evaluate_every_n_steps := Some n, evaluate_every_n_epochs := Some n\<rparr>"

text \<open>
  Units whose step raises \<open>StopIteration\<close> and \<open>KeyboardInterrupt\<close>, and a failing unit
  whose \<open>on_exception\<close> raises in turn.
\<close>

definition stop_iteration_unit :: train_unit where
  "stop_iteration_unit = example_unit\<lparr>train_step := Batch_step (\<lambda>w b. Inl (StopIteration, w))\<rparr>"

definition interrupted_unit :: train_unit where
  "interrupted_unit = example_unit\<lparr>train_step := Batch_step (\<lambda>w b. Inl (KeyboardInterrupt, w))\<rparr>"

definition bad_handler_unit :: train_unit where
  "bad_handler_unit =
     failing_unit\<lparr>hooks :=
       (\<lambda>name. case name of
                  on_exception e \<Rightarrow> (\<lambda>w. Inl (RuntimeError ''handler failed'', w))
                | _ \<Rightarrow> noop_hook)\<rparr>"

text \<open>A unit whose step asks the run to stop.\<close>

definition stopping_unit :: train_unit where
  "stopping_unit = example_unit\<lparr>train_step := Batch_step (\<lambda>w b. Inr (b, stop w))\<rparr>"

text \<open>
  A relation is kept by the driver when the step loop keeps it and the other writes of
  the driver (the epoch counter, the module modes, the phase and entry-point tags)
  respect it.
\<close>

definition driver_keeps :: "(world \<Rightarrow> world \<Rightarrow> bool) \<Rightarrow> bool" where
  "driver_keeps R =
     (step_loop_keeps R \<and>
      (\<forall>w. R w (update_train_progress increment_epoch w)) \<and>
      (\<forall>w f. R w (w\<lparr>training := f\<rparr>)) \<and>
      (\<forall>w a. R w (w\<lparr>active_phase := a\<rparr>)) \<and>
      (\<forall>w e. R w (w\<lparr>entry_point := e\<rparr>)))"

text \<open>\<open>keeps_steps\<close>: the train PhaseState stays in place with its count of steps.\<close>

definition keeps_steps :: "world \<Rightarrow> world \<Rightarrow> bool" where
  "keeps_steps w w' =
     (train_state w \<noteq> None \<longrightarrow>
      train_state w' \<noteq> None \<and>
      num_steps_completed (train_progress w') = num_steps_completed (train_progress w))"

text \<open>A callback that asks the run to stop at the end of every step.\<close>

definition stopping_callback :: callback where
  "stopping_callback name =
     (if name = on_train_step_end then Some (\<lambda>w. Inr (stop w)) else None)"

text \<open>
  What a quiet epoch records. \<open>due k c\<close>: a cadence \<open>k\<close> is configured and divides the
  count \<open>c\<close>. \<open>step_events cbs k c n\<close>: the events of \<open>n\<close> steps in a row that start from
  a count of \<open>c\<close> steps in the epoch, each with its callbacks and, when due, its
  evaluation.
\<close>

definition due :: "int option \<Rightarrow> int \<Rightarrow> bool" where
  "due k c = (case k of None \<Rightarrow> False | Some n \<Rightarrow> c mod n = 0)"

fun step_events :: "callback list \<Rightarrow> int option \<Rightarrow> int \<Rightarrow> nat \<Rightarrow> event list" where
  "step_events cbs k c 0 = []"
| "step_events cbs k c (Suc n) =
     callback_events cbs on_train_step_start @ Train_step #
     callback_events cbs on_train_step_end @
     (if due k (c + 1) then [Evaluate] else []) @
     step_events cbs k (c + 1) n"

text \<open>The steps and evaluation passes among the events of a trace.\<close>

fun step_or_evaluate :: "event \<Rightarrow> bool" where
  "step_or_evaluate Train_step = True"
| "step_or_evaluate Evaluate = True"
| "step_or_evaluate (Unit_hook name) = False"
| "step_or_evaluate (Callback_hook j name) = False"
| "step_or_evaluate Warning_no_steps = False"

text \<open>
  What the claim on the cadence expects of \<open>n\<close> steps from a count of \<open>c\<close>: every step,
  and an evaluation pass right after each step whose resulting count \<open>k\<close> divides.
\<close>

definition steps_and_evaluations :: "int \<Rightarrow> int \<Rightarrow> nat \<Rightarrow> event list" where
  "steps_and_evaluations k c n =
     concat (map (\<lambda>i. if (c + int i) mod k = 0 then [Train_step, Evaluate] else [Train_step])
               [1..<Suc n])"

text \<open>A unit whose step takes the data iterator and consumes two batches per call.\<close>

definition two_batch_unit :: train_unit where
  "two_batch_unit =
     example_unit\<lparr>train_step :=
       Iterator_step (\<lambda>w it. case it of
                                b1 # b2 # rest \<Rightarrow> (Inr (b1 + b2, w), rest)
                              | _ \<Rightarrow> (Inl (StopIteration, w), []))\<rparr>"

text \<open>An eval phase configured with the two cadences given.\<close>

definition eval_phase_with :: "int option \<Rightarrow> int option \<Rightarrow> PhaseState" where
  "eval_phase_with every_n_steps every_n_epochs =
     (example_phase [])\<lparr>evaluate_every_n_steps := every_n_steps,
                        evaluate_every_n_epochs := every_n_epochs\<rparr>"

text \<open>\<open>never_sets\<close>: the stop flag is not set (user code that does not call \<open>stop()\<close>).\<close>

definition never_sets :: "world \<Rightarrow> world \<Rightarrow> bool" where
  "never_sets w w' = (should_stop w' \<longrightarrow> should_stop w)"

text \<open>
  A unit whose step takes the data iterator, consumes one batch and asks the run to stop.
\<close>

definition stopping_iterator_unit :: train_unit where
  "stopping_iterator_unit =
     example_unit\<lparr>train_step :=
       Iterator_step (\<lambda>w it. case it of
                                b # rest \<Rightarrow> (Inr (b, stop w), rest)
                              | [] \<Rightarrow> (Inl (StopIteration, w), []))\<rparr>"

text \<open>
  A unit whose hook \<open>name\<close> raises \<open>e\<close>, and a callback that exposes the hook \<open>name\<close> only,
  which raises \<open>e\<close>.
\<close>

definition raising_hook_unit :: "hook_name \<Rightarrow> exn \<Rightarrow> train_unit" where
  "raising_hook_unit name e =
     example_unit\<lparr>hooks := (\<lambda>n. if n = name then (\<lambda>w. Inl (e, w)) else noop_hook)\<rparr>"

definition raising_callback :: "hook_name \<Rightarrow> exn \<Rightarrow> callback" where
  "raising_callback name e n = (if n = name then Some (\<lambda>w. Inl (e, w)) else None)"

section \<open>Traces: what each part of the driver records\<close>

lemma outcome_run_simps [simp]:
  "outcome_run (Inl (e, r)) = r" "outcome_run (Inr r) = r"
  by (simp_all add: outcome_run_def)

lemma logs_refl [simp]: "logs P r (Inr r)"
  by (simp add: logs_def)

lemma logs_same_trace: "fst r = fst r0 \<Longrightarrow> logs P r res = logs P r0 res"
  by (simp add: logs_def)

lemma logs_trans: "logs P r (Inr r1) \<Longrightarrow> logs P r1 res \<Longrightarrow> logs P r res"
  by (auto simp: logs_def)

lemma logs_mono: "logs P r res \<Longrightarrow> (\<And>ev. P ev \<Longrightarrow> Q ev) \<Longrightarrow> logs Q r res"
  unfolding logs_def by (metis (mono_tags, lifting) list_all_iff)

lemma logs_after: "logs P (fst r @ evs, w) res \<Longrightarrow> list_all P evs \<Longrightarrow> logs P r res"
  by (auto simp: logs_def)

lemma logs_world: "logs P (fst r, w) res \<Longrightarrow> logs P r res"
  by (simp add: logs_def)

lemma logs_update: "logs P r (Inr r1) \<Longrightarrow> logs P r (Inr (fst r1, w))"
  by (simp add: logs_def)

lemma logs_raise_update: "logs P r (Inr r1) \<Longrightarrow> list_all P evs \<Longrightarrow> logs P r (Inl (e, (fst r1 @ evs, w)))"
  by (auto simp: logs_def)

lemma call_hook_logs: "P ev \<Longrightarrow> logs P r (call_hook ev h r)"
  by (auto simp: logs_def call_hook_def split: sum.splits prod.splits)

lemma call_hook_Inr: "call_hook ev h r = Inr r' \<Longrightarrow> fst r' = fst r @ [ev]"
  by (auto simp: call_hook_def split: sum.splits prod.splits)

lemma call_hook_Inl: "call_hook ev h r = Inl (e, r') \<Longrightarrow> fst r' = fst r @ [ev]"
  by (auto simp: call_hook_def split: sum.splits prod.splits)

lemma run_callback_fn_from_logs:
  "(\<And>j. P (Callback_hook j name)) \<Longrightarrow> logs P r (run_callback_fn_from i cbs name r)"
proof (induction cbs arbitrary: i r)
  case Nil
  then show ?case by simp
next
  case (Cons cb cbs)
  show ?case
  proof (cases "cb name")
    case None
    with Cons show ?thesis by simp
  next
    case (Some h)
    have a: "logs P r (call_hook (Callback_hook i name) h r)"
      using Cons.prems by (rule call_hook_logs)
    show ?thesis
    proof (cases "call_hook (Callback_hook i name) h r")
      case (Inl x)
      with a Some show ?thesis by simp
    next
      case (Inr r1)
      with a Cons.IH[where i="Suc i" and r=r1] Cons.prems Some show ?thesis
        by (auto intro: logs_trans)
    qed
  qed
qed

lemma run_callback_fn_logs:
  "(\<And>j. P (Callback_hook j name)) \<Longrightarrow> logs P r (run_callback_fn cbs name r)"
  unfolding run_callback_fn_def by (rule run_callback_fn_from_logs)

lemma run_unit_hook_logs: "P (Unit_hook name) \<Longrightarrow> logs P r (run_unit_hook u name r)"
  unfolding run_unit_hook_def by (rule call_hook_logs)

lemma evaluate_impl_logs: "P Evaluate \<Longrightarrow> logs P r (evaluate_impl evl r)"
  unfolding evaluate_impl_def by (rule call_hook_logs)

lemma run_callback_fn_from_Inr:
  "run_callback_fn_from i cbs name r = Inr r' \<Longrightarrow>
   fst r' = fst r @ callback_events_from i cbs name"
proof (induction cbs arbitrary: i r)
  case Nil
  then show ?case by simp
next
  case (Cons cb cbs)
  show ?case
  proof (cases "cb name")
    case None
    with Cons show ?thesis by simp
  next
    case (Some h)
    with Cons.prems obtain r1 where h1: "call_hook (Callback_hook i name) h r = Inr r1"
      and h2: "run_callback_fn_from (Suc i) cbs name r1 = Inr r'"
      by (auto split: sum.splits)
    from Cons.IH[OF h2] call_hook_Inr[OF h1] Some show ?thesis by simp
  qed
qed

lemma run_callback_fn_Inr:
  "run_callback_fn cbs name r = Inr r' \<Longrightarrow> fst r' = fst r @ callback_events cbs name"
  unfolding run_callback_fn_def callback_events_def by (rule run_callback_fn_from_Inr)

lemma finish_train_step_logs:
  assumes "\<And>j. P (Callback_hook j on_train_step_end)" and "k \<noteq> None \<Longrightarrow> P Evaluate"
  shows "logs P r (finish_train_step cbs evl k out r)"
proof -
  let ?w2 = "update_train_progress increment_step
               (update_train_state (\<lambda>ts. ts\<lparr>step_output := Some out\<rparr>) (snd r))"
  have a: "logs P r (run_callback_fn cbs on_train_step_end (fst r, ?w2))"
    using run_callback_fn_logs[of P on_train_step_end "(fst r, ?w2)" cbs] assms(1)
    by (simp add: logs_def)
  show ?thesis
  proof (cases "run_callback_fn cbs on_train_step_end (fst r, ?w2)")
    case (Inl x)
    with a show ?thesis by (simp add: finish_train_step_def Let_def)
  next
    case (Inr r3)
    let ?r4 = "(fst r3, update_train_state (\<lambda>ts. ts\<lparr>step_output := None\<rparr>) (snd r3))"
    from a Inr have b: "logs P r (Inr ?r4)" by (simp add: logs_def)
    have c: "k \<noteq> None \<Longrightarrow> logs P r (evaluate_impl evl ?r4)"
      using logs_trans[OF b evaluate_impl_logs[of P ?r4 evl]] assms(2) by simp
    from Inr b c show ?thesis
      by (simp add: finish_train_step_def Let_def split: option.splits)
  qed
qed


lemma train_step_body_logs:
  assumes "\<And>ev. step_loop_event (k \<noteq> None) ev \<Longrightarrow> P ev"
  shows "logs P r (fst (train_step_body u cbs evl k data_iter r))"
proof -
  have cb: "\<And>j name. name = on_train_step_start \<or> name = on_train_step_end \<Longrightarrow> P (Callback_hook j name)"
    using assms by simp
  have ts: "P Train_step" using assms by simp
  have ev: "k \<noteq> None \<Longrightarrow> P Evaluate" using assms by simp
  have a: "logs P r (run_callback_fn cbs on_train_step_start r)"
    by (rule run_callback_fn_logs) (simp add: cb)
  have fin: "\<And>r1 out w2. logs P r (Inr r1) \<Longrightarrow>
      logs P r (finish_train_step cbs evl k out (fst r1 @ [Train_step], w2))"
  proof -
    fix r1 out w2 assume b: "logs P r (Inr r1)"
    have "logs P r (Inr (fst r1 @ [Train_step], w2))"
      using b ts by (auto simp: logs_def)
    moreover have "logs P (fst r1 @ [Train_step], w2)
        (finish_train_step cbs evl k out (fst r1 @ [Train_step], w2))"
      by (rule finish_train_step_logs) (simp_all add: cb ev)
    ultimately show "logs P r (finish_train_step cbs evl k out (fst r1 @ [Train_step], w2))"
      by (rule logs_trans)
  qed
  have rs: "\<And>r1 e w2. logs P r (Inr r1) \<Longrightarrow> logs P r (Inl (e, (fst r1 @ [Train_step], w2)))"
    using ts by (auto simp: logs_def)
  show ?thesis
  proof (cases "train_step u")
    case (Batch_step f)
    show ?thesis
    proof (cases data_iter)
      case Nil
      with Batch_step show ?thesis by (simp add: train_step_body_def logs_def)
    next
      case (Cons b rest)
      show ?thesis
      proof (cases "run_callback_fn cbs on_train_step_start r")
        case (Inl x)
        with a Batch_step Cons show ?thesis by (simp add: train_step_body_def)
      next
        case (Inr r1)
        with a have b: "logs P r (Inr r1)" by simp
        from Batch_step Cons Inr fin[OF b] rs[OF b] show ?thesis
          by (auto simp: train_step_body_def split: sum.splits prod.splits)
      qed
    qed
  next
    case (Iterator_step f)
    show ?thesis
    proof (cases "run_callback_fn cbs on_train_step_start r")
      case (Inl x)
      with a Iterator_step show ?thesis by (simp add: train_step_body_def)
    next
      case (Inr r1)
      with a have b: "logs P r (Inr r1)" by simp
      from Iterator_step Inr fin[OF b] rs[OF b] show ?thesis
        by (auto simp: train_step_body_def split: sum.splits prod.splits)
    qed
  qed
qed

lemma train_step_loop_logs:
  assumes "\<And>ev. step_loop_event (k \<noteq> None) ev \<Longrightarrow> P ev"
    and "train_step_loop fuel u cbs evl k data_iter r = Some res"
  shows "logs P r res"
  using assms(2)
proof (induction fuel arbitrary: data_iter r)
  case 0
  then show ?case by simp
next
  case (Suc fuel)
  let ?stop = "should_stop (snd r) \<or>
         is_epoch_done (train_progress (snd r))
           (max_steps_per_epoch (the (train_state (snd r))))
           (max_steps (the (train_state (snd r))))"
  show ?case
  proof (cases ?stop)
    case True
    with Suc.prems show ?thesis by auto
  next
    case False
    obtain res1 rest where body: "train_step_body u cbs evl k data_iter r = (res1, rest)"
      by (cases "train_step_body u cbs evl k data_iter r")
    have a: "logs P r res1"
      using train_step_body_logs[of k P r u cbs evl data_iter, OF assms(1)] body by simp
    show ?thesis
    proof (cases res1)
      case (Inl x)
      obtain e r' where x: "x = (e, r')" by (cases x)
      from Suc.prems False body Inl x have "res = (if e = StopIteration then Inr r' else Inl (e, r'))"
        by (auto split: if_splits)
      with a Inl x show ?thesis by (auto simp: logs_def)
    next
      case (Inr r')
      from Suc.prems False body Inr have "train_step_loop fuel u cbs evl k rest r' = Some res"
        by auto
      from Suc.IH[OF this] a Inr show ?thesis by (auto intro: logs_trans)
    qed
  qed
qed

lemma finish_train_epoch_logs:
  assumes "\<And>ev. train_epoch_event False (k \<noteq> None) ev \<Longrightarrow> P ev"
  shows "logs P r (finish_train_epoch u cbs evl k prior prev r)"
proof -
  have cb: "\<And>j. P (Callback_hook j on_train_epoch_end)" using assms by simp
  have uh: "P (Unit_hook on_train_epoch_end)" using assms by simp
  have wn: "P Warning_no_steps" using assms by simp
  have ev: "k \<noteq> None \<Longrightarrow> P Evaluate" using assms by simp
  let ?tr1 = "if \<not> (\<bar>num_steps_completed_in_epoch (train_progress (snd r)) - prev\<bar> > 0)
              then fst r @ [Warning_no_steps] else fst r"
  let ?r1 = "(?tr1, update_train_progress increment_epoch (snd r))"
  have a: "logs P r (Inr ?r1)" using wn by (auto simp: logs_def)
  have b: "logs P r (run_unit_hook u on_train_epoch_end ?r1)"
    using logs_trans[OF a run_unit_hook_logs[of P on_train_epoch_end ?r1 u]] uh by simp
  show ?thesis
  proof (cases "run_unit_hook u on_train_epoch_end ?r1")
    case (Inl x)
    with b show ?thesis by (simp add: finish_train_epoch_def Let_def)
  next
    case r2: (Inr r2)
    have c: "logs P r (run_callback_fn cbs on_train_epoch_end r2)"
      using logs_trans[OF _ run_callback_fn_logs[of P on_train_epoch_end r2 cbs]] b r2 cb by simp
    show ?thesis
    proof (cases "run_callback_fn cbs on_train_epoch_end r2")
      case (Inl x)
      with c r2 show ?thesis by (simp add: finish_train_epoch_def Let_def)
    next
      case r3: (Inr r3)
      let ?m = "case k of None \<Rightarrow> Inr r3
                | Some n \<Rightarrow> if num_epochs_completed (train_progress (snd r3)) mod n = 0
                            then evaluate_impl evl r3 else Inr r3"
      have d: "logs P r ?m"
        using logs_trans[OF _ evaluate_impl_logs[of P r3 evl]] c r3 ev
        by (auto split: option.splits)
      show ?thesis
      proof (cases ?m)
        case (Inl x)
        with d r2 r3 show ?thesis by (simp add: finish_train_epoch_def Let_def)
      next
        case (Inr r4)
        with d r2 r3 show ?thesis by (simp add: finish_train_epoch_def Let_def logs_def)
      qed
    qed
  qed
qed


lemma step_loop_event_epoch:
  "step_loop_event a ev \<Longrightarrow> (a \<longrightarrow> b) \<Longrightarrow> train_epoch_event first b ev"
  by (cases ev) auto

lemma train_epoch_event_mono:
  "train_epoch_event False a ev \<Longrightarrow> (a \<longrightarrow> b) \<Longrightarrow> train_epoch_event first b ev"
  by (cases ev) auto

lemma train_epoch_impl_logs:
  assumes run: "train_epoch_impl fuel u cbs evl r = Some res"
    and P: "\<And>ev. train_epoch_event
              (train_state (snd r) \<noteq> None \<and> num_steps_completed_in_epoch (train_progress (snd r)) = 0)
              (resolve_evaluate_every_n_steps (snd r) \<noteq> None \<or>
               resolve_evaluate_every_n_epochs (snd r) \<noteq> None) ev \<Longrightarrow> P ev"
  shows "logs P r res"
proof -
  let ?w0 = "(snd r)\<lparr>active_phase := ActivePhase_TRAIN\<rparr>"
  obtain prior w1 where sm: "set_module_training_mode (tracked_modules u) True ?w0 = (prior, w1)"
    by (cases "set_module_training_mode (tracked_modules u) True ?w0")
  have w1: "train_state w1 = train_state (snd r)" "eval_state w1 = eval_state (snd r)"
    using sm by (auto simp: set_module_training_mode_def)
  let ?ks = "resolve_evaluate_every_n_steps (snd r)"
  let ?ke = "resolve_evaluate_every_n_epochs (snd r)"
  have ks: "resolve_evaluate_every_n_steps w1 = ?ks" and ke: "resolve_evaluate_every_n_epochs w1 = ?ke"
    using w1 by (simp_all add: resolve_evaluate_every_n_steps_def resolve_evaluate_every_n_epochs_def)
  show ?thesis
  proof (cases "train_state (snd r)")
    case None
    with run sm w1 show ?thesis by (auto simp: train_epoch_impl_def logs_def)
  next
    case (Some ts)
    let ?first = "num_steps_completed_in_epoch (progress ts) = 0"
    have first: "(train_state (snd r) \<noteq> None \<and> num_steps_completed_in_epoch (train_progress (snd r)) = 0) = ?first"
      using Some by (simp add: train_progress_def)
    let ?start = "start_train_epoch u cbs (fst r, w1)"
    have first1: "(num_steps_completed_in_epoch (train_progress w1) = 0) = ?first"
      using Some w1 by (simp add: train_progress_def)
    have a: "logs P r ?start"
    proof (cases ?first)
      case False
      then show ?thesis using first1 by (simp add: logs_def start_train_epoch_def)
    next
      case True
      have uh: "P (Unit_hook on_train_epoch_start)" and cb: "\<And>j. P (Callback_hook j on_train_epoch_start)"
        using P first True by simp_all
      have b: "logs P r (run_unit_hook u on_train_epoch_start (fst r, w1))"
        using run_unit_hook_logs[of P on_train_epoch_start "(fst r, w1)" u] uh by (simp add: logs_def)
      show ?thesis
      proof (cases "run_unit_hook u on_train_epoch_start (fst r, w1)")
        case (Inl x)
        with b True first1 show ?thesis by (simp add: start_train_epoch_def)
      next
        case (Inr r2)
        with b True first1 logs_trans[OF _ run_callback_fn_logs[of P on_train_epoch_start r2 cbs]] cb
        show ?thesis by (simp add: start_train_epoch_def)
      qed
    qed
    show ?thesis
    proof (cases ?start)
      case (Inl x)
      with run sm w1 Some ks ke have "res = Inl x"
        by (simp add: train_epoch_impl_def Let_def)
      with a Inl show ?thesis by simp
    next
      case r3: (Inr r3)
      let ?it = "dataloader (the (train_state (snd r3)))"
      let ?prev = "num_steps_completed_in_epoch (train_progress (snd r3))"
      from run sm w1 Some ks ke r3 have run':
        "(case train_step_loop fuel u cbs evl ?ks ?it r3 of
            None \<Rightarrow> None
          | Some (Inl x) \<Rightarrow> Some (Inl x)
          | Some (Inr r4) \<Rightarrow> Some (finish_train_epoch u cbs evl ?ke prior ?prev r4)) = Some res"
        by (simp add: train_epoch_impl_def Let_def)
      then obtain res1 where l: "train_step_loop fuel u cbs evl ?ks ?it r3 = Some res1"
        by (cases "train_step_loop fuel u cbs evl ?ks ?it r3") auto
      have b: "logs P r3 res1"
        by (rule train_step_loop_logs[OF _ l]) (rule P, rule step_loop_event_epoch, auto)
      have c: "logs P r res1" using a r3 b by (auto intro: logs_trans)
      show ?thesis
      proof (cases res1)
        case (Inl x)
        with run' l have "res = Inl x" by simp
        with c Inl show ?thesis by simp
      next
        case (Inr r4)
        with run' l have res: "res = finish_train_epoch u cbs evl ?ke prior ?prev r4" by simp
        have "logs P r4 (finish_train_epoch u cbs evl ?ke prior ?prev r4)"
          by (rule finish_train_epoch_logs) (rule P, rule train_epoch_event_mono, auto)
        with c Inr res show ?thesis by (auto intro: logs_trans)
      qed
    qed
  qed
qed

section \<open>Evaluating concrete runs\<close>

lemmas run_defs = train_def train_epoch_def train_epoch_checked_def train_impl_def handle_exception_def
  callbacks_or_empty_def train_epoch_impl_def
     start_train_epoch_def set_module_training_mode_def reset_module_training_mode_def resolve_evaluate_every_n_steps_def
     resolve_evaluate_every_n_epochs_def run_unit_hook_def call_hook_def run_callback_fn_def
     train_progress_def Progress_init_def is_epoch_done_def is_done_def train_step_body_def
     finish_train_step_def update_train_state_def update_train_progress_def increment_step_def
     increment_epoch_def finish_train_epoch_def outcome_run_def raised_def evaluate_impl_def truthy_def Let_def

lemmas example_defs = example_unit_def failing_unit_def noop_hook_def example_world_def example_phase_def
  example_callback_def silent_callback_def resumed_phase_def eval_phase_every_def
  stop_iteration_unit_def interrupted_unit_def bad_handler_unit_def stopping_unit_def stop_def stopping_callback_def two_batch_unit_def eval_phase_with_def stopping_iterator_unit_def
  raising_hook_unit_def raising_callback_def

lemma raised_Some_run: "map_option raised x = Some e \<Longrightarrow> x = Some (the x)"
  by (cases x) auto

lemma raised_None_run: "map_option raised x = Some None \<Longrightarrow> x = Some (Inr (outcome_run (the x)))"
  by (cases x) (auto simp: raised_def split: sum.splits prod.splits)

lemma train_impl_restores:
  assumes "train_impl fuel u cbs evl r = Some (Inr r')" and "m \<in> tracked_modules u"
  shows "training (snd r') m = training (snd r) m"
  using assms
  by (auto simp: train_impl_def set_module_training_mode_def reset_module_training_mode_def Let_def
      split: option.splits sum.splits prod.splits)

lemma finish_train_epoch_restores:
  assumes "finish_train_epoch u cbs evl k prior prev r = Inr r'" and "m \<in> tracked_modules u"
    and "prior m = Some b"
  shows "training (snd r') m = b"
  using assms
  by (auto simp: finish_train_epoch_def reset_module_training_mode_def Let_def
      split: option.splits sum.splits prod.splits if_splits)

lemma train_epoch_impl_restores:
  assumes "train_epoch_impl fuel u cbs evl r = Some (Inr r')" and "m \<in> tracked_modules u"
  shows "training (snd r') m = training (snd r) m"
  using assms
  by (auto simp: train_epoch_impl_def set_module_training_mode_def Let_def
      split: option.splits sum.splits prod.splits if_splits
      dest!: finish_train_epoch_restores[where m=m])

lemma handle_exception_raises: "handle_exception u cbs e r \<noteq> Inr r'"
  by (simp add: handle_exception_def split: sum.splits)

section \<open>C1: module modes around a train run\<close>

text \<open>
  C1, as amended. A run entered through \<open>train\<close> (or \<open>train_epoch\<close>) that returns
  normally leaves every tracked module in the training mode it had at entry, whatever the
  hooks did to the modes in between.
\<close>

theorem train_restores_modes_on_return:
  assumes "train fuel u callbacks evl r = Some (Inr r') \<or>
           train_epoch fuel u callbacks evl r = Some (Inr r')"
    and "m \<in> tracked_modules u"
  shows "training (snd r') m = training (snd r) m"
proof -
  let ?cbs = "callbacks_or_empty callbacks"
  let ?r0 = "(fst r, (snd r)\<lparr>entry_point := EntryPoint_TRAIN\<rparr>)"
  from assms(1) show ?thesis
  proof
    assume "train fuel u callbacks evl r = Some (Inr r')"
    then have "train_impl fuel u ?cbs evl ?r0 = Some (Inr r')"
      by (auto simp: train_def Let_def handle_exception_raises split: option.splits sum.splits prod.splits)
    from train_impl_restores[OF this assms(2)] show ?thesis by simp
  next
    assume "train_epoch fuel u callbacks evl r = Some (Inr r')"
    then have "train_epoch_checked fuel u ?cbs evl r = Some (Inr r')"
      by (auto simp: train_epoch_def Let_def handle_exception_raises split: option.splits sum.splits prod.splits)
    then have "train_epoch_impl fuel u ?cbs evl ?r0 = Some (Inr r')"
      by (auto simp: train_epoch_checked_def split: option.splits if_splits)
    from train_epoch_impl_restores[OF this assms(2)] show ?thesis by simp
  qed
qed

theorem train_restores_modes_on_return_witness:
  "map_option raised
     (train 3 example_unit None noop_hook
        ([], example_world (Some ((example_phase [1, 2])\<lparr>max_epochs := Some 1\<rparr>)) None)) = Some None \<and>
   0 \<in> tracked_modules example_unit \<and>
   training (snd (outcome_run (the
     (train 3 example_unit None noop_hook
        ([], example_world (Some ((example_phase [1, 2])\<lparr>max_epochs := Some 1\<rparr>)) None))))) 0 =
   training (example_world (Some ((example_phase [1, 2])\<lparr>max_epochs := Some 1\<rparr>)) None) 0"
proof -
  let ?w = "example_world (Some ((example_phase [1, 2])\<lparr>max_epochs := Some 1\<rparr>)) None"
  let ?x = "train 3 example_unit None noop_hook ([], ?w)"
  have a: "map_option raised ?x = Some None" by code_simp
  have b: "0 \<in> tracked_modules example_unit" by (simp add: example_unit_def)
  from a have "?x = Some (Inr (outcome_run (the ?x)))" by (rule raised_None_run)
  then have "?x = Some (Inr (outcome_run (the ?x))) \<or>
     train_epoch 3 example_unit None noop_hook ([], ?w) = Some (Inr (outcome_run (the ?x)))" by (rule disjI1)
  from train_restores_modes_on_return[OF this b] a b show ?thesis by simp
qed

text \<open>
  C1 as stated fails on exit by an exception: neither \<open>train\<close> nor \<open>_train_impl\<close> resets the
  modes on that path. A step that raises leaves module 0, in evaluation mode before the
  call, in training mode after it.
\<close>

theorem train_leaves_modes_after_exception:
  "map_option raised
     (train 3 failing_unit None noop_hook ([], example_world (Some (example_phase [1, 2])) None)) =
     Some (Some (UserException 0)) \<and>
   0 \<in> tracked_modules failing_unit \<and>
   training (example_world (Some (example_phase [1, 2])) None) 0 = False \<and>
   training (snd (outcome_run (the
     (train 3 failing_unit None noop_hook ([], example_world (Some (example_phase [1, 2])) None))))) 0 = True"
  by (simp add: run_defs example_defs numeral_eq_Suc)

section \<open>Relations kept by the step loop\<close>

lemma step_loop_keeps_refl: "step_loop_keeps R \<Longrightarrow> R w w"
  by (simp add: step_loop_keeps_def)

lemma step_loop_keeps_trans: "step_loop_keeps R \<Longrightarrow> R a b \<Longrightarrow> R b c \<Longrightarrow> R a c"
  unfolding step_loop_keeps_def by blast

lemma step_loop_keeps_output:
  "step_loop_keeps R \<Longrightarrow> R w (update_train_state (\<lambda>ts. ts\<lparr>step_output := x\<rparr>) w)"
  unfolding step_loop_keeps_def by blast

lemma step_loop_keeps_increment:
  "step_loop_keeps R \<Longrightarrow> R w (update_train_progress increment_step w)"
  unfolding step_loop_keeps_def by blast

lemma call_hook_respects:
  "hook_respects R h \<Longrightarrow> R (snd r) (snd (outcome_run (call_hook ev h r)))"
  unfolding hook_respects_def call_hook_def
  by (erule allE[where x="snd r"]) (auto split: sum.splits prod.splits)

lemma run_callback_fn_from_respects:
  assumes "step_loop_keeps R"
    and "\<forall>cb \<in> set cbs. \<forall>name h. cb name = Some h \<longrightarrow> hook_respects R h"
  shows "R (snd r) (snd (outcome_run (run_callback_fn_from i cbs name r)))"
  using assms(2)
proof (induction cbs arbitrary: i r)
  case Nil
  then show ?case by (simp add: step_loop_keeps_refl[OF assms(1)])
next
  case (Cons cb cbs)
  show ?case
  proof (cases "cb name")
    case None
    with Cons show ?thesis by simp
  next
    case (Some h)
    with Cons.prems have "hook_respects R h" by simp
    from call_hook_respects[OF this]
    have a: "R (snd r) (snd (outcome_run (call_hook (Callback_hook i name) h r)))" .
    show ?thesis
    proof (cases "call_hook (Callback_hook i name) h r")
      case (Inl x)
      with a Some show ?thesis by simp
    next
      case (Inr r1)
      have "R (snd r1) (snd (outcome_run (run_callback_fn_from (Suc i) cbs name r1)))"
        using Cons.IH[where i="Suc i" and r=r1] Cons.prems by simp
      with a Inr Some show ?thesis
        by (auto intro: step_loop_keeps_trans[OF assms(1)])
    qed
  qed
qed

lemma run_callback_fn_respects:
  assumes "step_loop_keeps R" and "user_code_respects R u cbs evl"
  shows "R (snd r) (snd (outcome_run (run_callback_fn cbs name r)))"
  unfolding run_callback_fn_def
  using run_callback_fn_from_respects[OF assms(1)] assms(2)
  by (simp add: user_code_respects_def)

lemma run_unit_hook_respects:
  assumes "user_code_respects R u cbs evl"
  shows "R (snd r) (snd (outcome_run (run_unit_hook u name r)))"
proof -
  have "hook_respects R (hooks u name)" using assms by (simp add: user_code_respects_def)
  then show ?thesis unfolding run_unit_hook_def by (rule call_hook_respects)
qed

lemma evaluate_impl_respects:
  assumes "user_code_respects R u cbs evl"
  shows "R (snd r) (snd (outcome_run (evaluate_impl evl r)))"
proof -
  have "hook_respects R evl" using assms by (simp add: user_code_respects_def)
  then show ?thesis unfolding evaluate_impl_def by (rule call_hook_respects)
qed

lemma finish_train_step_respects:
  assumes k: "step_loop_keeps R" and uc: "user_code_respects R u cbs evl"
  shows "R (snd r) (snd (outcome_run (finish_train_step cbs evl n out r)))"
proof -
  note tr = step_loop_keeps_trans[OF k]
  let ?w1 = "update_train_state (\<lambda>ts. ts\<lparr>step_output := Some out\<rparr>) (snd r)"
  let ?w2 = "update_train_progress increment_step ?w1"
  have a: "R (snd r) ?w2"
    by (rule tr[OF step_loop_keeps_output[OF k] step_loop_keeps_increment[OF k]])
  have b: "R ?w2 (snd (outcome_run (run_callback_fn cbs on_train_step_end (fst r, ?w2))))"
    using run_callback_fn_respects[OF k uc, of "(fst r, ?w2)"] by simp
  show ?thesis
  proof (cases "run_callback_fn cbs on_train_step_end (fst r, ?w2)")
    case (Inl x)
    with a b show ?thesis by (auto simp: finish_train_step_def Let_def intro: tr)
  next
    case (Inr r3)
    let ?r4 = "(fst r3, update_train_state (\<lambda>ts. ts\<lparr>step_output := None\<rparr>) (snd r3))"
    have b': "R (snd r) (snd r3)"
      using tr[OF a b] Inr by simp
    have c: "R (snd r) (snd ?r4)"
      using tr[OF b' step_loop_keeps_output[OF k, of "snd r3" None]] by simp
    have d: "R (snd r) (snd (outcome_run (evaluate_impl evl ?r4)))"
      by (rule tr[OF c evaluate_impl_respects[OF uc, of ?r4]])
    from Inr c d show ?thesis
      by (simp add: finish_train_step_def Let_def split: option.splits)
  qed
qed

lemma step_respects_batch:
  assumes "step_respects R (Batch_step f)"
  shows "f w b = Inl (e, w') \<Longrightarrow> R w w'" and "f w b = Inr (out, w') \<Longrightarrow> R w w'"
proof -
  from assms have a: "case f w b of Inl (e, w') \<Rightarrow> R w w' | Inr (out, w') \<Rightarrow> R w w'"
    by (simp add: step_respects_def)
  from a show "f w b = Inl (e, w') \<Longrightarrow> R w w'" by simp
  from a show "f w b = Inr (out, w') \<Longrightarrow> R w w'" by simp
qed

lemma step_respects_iterator:
  assumes "step_respects R (Iterator_step g)"
  shows "g w it = (Inl (e, w'), rest) \<Longrightarrow> R w w'" and "g w it = (Inr (out, w'), rest) \<Longrightarrow> R w w'"
proof -
  from assms have a: "case fst (g w it) of Inl (e, w') \<Rightarrow> R w w' | Inr (out, w') \<Rightarrow> R w w'"
    by (simp add: step_respects_def)
  from a show "g w it = (Inl (e, w'), rest) \<Longrightarrow> R w w'" by simp
  from a show "g w it = (Inr (out, w'), rest) \<Longrightarrow> R w w'" by simp
qed

lemma train_step_body_respects:
  assumes k: "step_loop_keeps R" and uc: "user_code_respects R u cbs evl"
  shows "R (snd r) (snd (outcome_run (fst (train_step_body u cbs evl n data_iter r))))"
proof -
  note tr = step_loop_keeps_trans[OF k]
  have sr: "step_respects R (train_step u)" using uc by (simp add: user_code_respects_def)
  have a: "R (snd r) (snd (outcome_run (run_callback_fn cbs on_train_step_start r)))"
    by (rule run_callback_fn_respects[OF k uc])
  have fin: "\<And>r1 out w2 tr1. R (snd r) w2 \<Longrightarrow>
      R (snd r) (snd (outcome_run (finish_train_step cbs evl n out (tr1, w2))))"
  proof -
    fix out w2 tr1 assume "R (snd r) w2"
    moreover have "R w2 (snd (outcome_run (finish_train_step cbs evl n out (tr1, w2))))"
      using finish_train_step_respects[OF k uc, of "(tr1, w2)" n out] by simp
    ultimately show "R (snd r) (snd (outcome_run (finish_train_step cbs evl n out (tr1, w2))))"
      by (rule tr)
  qed
  show ?thesis
  proof (cases "train_step u")
    case (Batch_step f)
    show ?thesis
    proof (cases data_iter)
      case Nil
      with Batch_step show ?thesis
        by (simp add: train_step_body_def step_loop_keeps_refl[OF k])
    next
      case (Cons b rest)
      show ?thesis
      proof (cases "run_callback_fn cbs on_train_step_start r")
        case (Inl x)
        with a Batch_step Cons show ?thesis by (simp add: train_step_body_def)
      next
        case (Inr r1)
        with a have b: "R (snd r) (snd r1)" by simp
        show ?thesis
        proof (cases "f (snd r1) b")
          case (Inl x)
          obtain e w2 where x: "x = (e, w2)" by (cases x)
          from step_respects_batch(1)[OF sr[unfolded Batch_step]] Inl x have "R (snd r1) w2" by simp
          with b have "R (snd r) w2" by (rule tr)
          with Batch_step Cons Inr Inl x show ?thesis by (simp add: train_step_body_def)
        next
          case r2: (Inr y)
          obtain out w2 where y: "y = (out, w2)" by (cases y)
          from step_respects_batch(2)[OF sr[unfolded Batch_step]] r2 y have "R (snd r1) w2" by simp
          with b have "R (snd r) w2" by (rule tr)
          from fin[OF this] Batch_step Cons Inr r2 y show ?thesis by (simp add: train_step_body_def)
        qed
      qed
    qed
  next
    case (Iterator_step g)
    show ?thesis
    proof (cases "run_callback_fn cbs on_train_step_start r")
      case (Inl x)
      with a Iterator_step show ?thesis by (simp add: train_step_body_def)
    next
      case (Inr r1)
      with a have b: "R (snd r) (snd r1)" by simp
      obtain res rest where g: "g (snd r1) data_iter = (res, rest)" by (cases "g (snd r1) data_iter")
      show ?thesis
      proof (cases res)
        case (Inl x)
        obtain e w2 where x: "x = (e, w2)" by (cases x)
        from step_respects_iterator(1)[OF sr[unfolded Iterator_step]] g Inl x have "R (snd r1) w2" by simp
        with b have "R (snd r) w2" by (rule tr)
        with Iterator_step Inr g Inl x show ?thesis by (simp add: train_step_body_def)
      next
        case r2: (Inr y)
        obtain out w2 where y: "y = (out, w2)" by (cases y)
        from step_respects_iterator(2)[OF sr[unfolded Iterator_step]] g r2 y have "R (snd r1) w2" by simp
        with b have "R (snd r) w2" by (rule tr)
        from fin[OF this] Iterator_step Inr g r2 y show ?thesis by (simp add: train_step_body_def)
      qed
    qed
  qed
qed

lemma train_step_loop_respects:
  assumes k: "step_loop_keeps R" and uc: "user_code_respects R u cbs evl"
    and "train_step_loop fuel u cbs evl n data_iter r = Some res"
  shows "R (snd r) (snd (outcome_run res))"
  using assms(3)
proof (induction fuel arbitrary: data_iter r)
  case 0
  then show ?case by simp
next
  case (Suc fuel)
  note tr = step_loop_keeps_trans[OF k]
  let ?stop = "should_stop (snd r) \<or>
         is_epoch_done (train_progress (snd r))
           (max_steps_per_epoch (the (train_state (snd r))))
           (max_steps (the (train_state (snd r))))"
  show ?case
  proof (cases ?stop)
    case True
    with Suc.prems show ?thesis by (auto simp: step_loop_keeps_refl[OF k])
  next
    case False
    obtain res1 rest where body: "train_step_body u cbs evl n data_iter r = (res1, rest)"
      by (cases "train_step_body u cbs evl n data_iter r")
    have a: "R (snd r) (snd (outcome_run res1))"
      using train_step_body_respects[OF k uc, of r n data_iter] body by simp
    show ?thesis
    proof (cases res1)
      case (Inl x)
      obtain e r' where x: "x = (e, r')" by (cases x)
      from Suc.prems False body Inl x have "res = (if e = StopIteration then Inr r' else Inl (e, r'))"
        by (auto split: if_splits)
      with a Inl x show ?thesis by auto
    next
      case (Inr r')
      from Suc.prems False body Inr have "train_step_loop fuel u cbs evl n rest r' = Some res"
        by auto
      from Suc.IH[OF this] a Inr show ?thesis by (auto intro: tr)
    qed
  qed
qed

section \<open>C7: the epoch-start hooks\<close>

lemma logs_prefix: "logs P r res \<Longrightarrow> \<exists>evs. fst (outcome_run res) = fst r @ evs"
  by (auto simp: logs_def)

lemma logs_cons:
  "logs P (tr @ [ev], w) res \<Longrightarrow> \<exists>evs. fst (outcome_run res) = tr @ ev # evs \<and> list_all P evs"
  by (auto simp: logs_def)

lemma run_unit_hook_Inl: "run_unit_hook u name r = Inl (e, r') \<Longrightarrow> fst r' = fst r @ [Unit_hook name]"
  unfolding run_unit_hook_def by (rule call_hook_Inl)

lemma run_unit_hook_Inr: "run_unit_hook u name r = Inr r' \<Longrightarrow> fst r' = fst r @ [Unit_hook name]"
  unfolding run_unit_hook_def by (rule call_hook_Inr)


lemma start_train_epoch_first:
  assumes "num_steps_completed_in_epoch (train_progress (snd r)) = 0"
  shows "\<exists>evs. fst (outcome_run (start_train_epoch u cbs r)) = fst r @ Unit_hook on_train_epoch_start # evs"
    and "start_train_epoch u cbs r = Inr r3 \<Longrightarrow>
         fst r3 = fst r @ Unit_hook on_train_epoch_start # callback_events cbs on_train_epoch_start"
proof -
  let ?h = "run_unit_hook u on_train_epoch_start r"
  show "\<exists>evs. fst (outcome_run (start_train_epoch u cbs r)) = fst r @ Unit_hook on_train_epoch_start # evs"
  proof (cases ?h)
    case (Inl x)
    obtain e r' where x: "x = (e, r')" by (cases x)
    from Inl x have "?h = Inl (e, r')" by simp
    from run_unit_hook_Inl[OF this] Inl x assms show ?thesis by (simp add: start_train_epoch_def)
  next
    case (Inr r2)
    then have a: "fst r2 = fst r @ [Unit_hook on_train_epoch_start]"
      by (rule run_unit_hook_Inr)
    have "logs (\<lambda>ev. True) r2 (run_callback_fn cbs on_train_epoch_start r2)"
      by (rule run_callback_fn_logs) simp
    then obtain evs where "fst (outcome_run (run_callback_fn cbs on_train_epoch_start r2)) = fst r2 @ evs"
      by (auto simp: logs_def)
    with a Inr assms show ?thesis by (simp add: start_train_epoch_def)
  qed
  show "start_train_epoch u cbs r = Inr r3 \<Longrightarrow>
         fst r3 = fst r @ Unit_hook on_train_epoch_start # callback_events cbs on_train_epoch_start"
  proof -
    assume s: "start_train_epoch u cbs r = Inr r3"
    with assms obtain r2 where h: "?h = Inr r2" and c: "run_callback_fn cbs on_train_epoch_start r2 = Inr r3"
      by (auto simp: start_train_epoch_def split: sum.splits)
    from h have "fst r2 = fst r @ [Unit_hook on_train_epoch_start]"
      by (rule run_unit_hook_Inr)
    with run_callback_fn_Inr[OF c] show ?thesis by simp
  qed
qed







section \<open>Cadences that configure no evaluation\<close>

lemma truthy_zero: "v = Some 0 \<or> v = None \<Longrightarrow> truthy v = None"
  by (auto simp: truthy_def)

lemma not_Evaluate_step: "step_loop_event False ev \<Longrightarrow> ev \<noteq> Evaluate"
  by (cases ev) auto

lemma not_Evaluate_epoch: "train_epoch_event first False ev \<Longrightarrow> ev \<noteq> Evaluate"
  by (cases ev) auto

section \<open>C4: when the train loop starts an epoch\<close>

lemma logs_length: "logs P r res \<Longrightarrow> length (fst r) \<le> length (fst (outcome_run res))"
  by (auto simp: logs_def)

lemma call_hook_grows: "length (fst r) < length (fst (outcome_run (call_hook ev h r)))"
  by (auto simp: call_hook_def split: sum.splits prod.splits)

lemma run_callback_fn_from_Inl_grows:
  "run_callback_fn_from i cbs name r = Inl (e, r') \<Longrightarrow> length (fst r) < length (fst r')"
proof (induction cbs arbitrary: i r)
  case Nil
  then show ?case by simp
next
  case (Cons cb cbs)
  show ?case
  proof (cases "cb name")
    case None
    with Cons show ?thesis by simp
  next
    case (Some h)
    have g: "length (fst r) < length (fst (outcome_run (call_hook (Callback_hook i name) h r)))"
      by (rule call_hook_grows)
    show ?thesis
    proof (cases "call_hook (Callback_hook i name) h r")
      case (Inl x)
      with Cons.prems Some g show ?thesis by auto
    next
      case (Inr r1)
      with Cons.prems Some have "run_callback_fn_from (Suc i) cbs name r1 = Inl (e, r')" by simp
      from Cons.IH[OF this] g Inr show ?thesis by simp
    qed
  qed
qed

lemma run_callback_fn_Inl_grows:
  "run_callback_fn cbs name r = Inl (e, r') \<Longrightarrow> length (fst r) < length (fst r')"
  unfolding run_callback_fn_def by (rule run_callback_fn_from_Inl_grows)

lemma finish_train_step_length:
  "length (fst r) \<le> length (fst (outcome_run (finish_train_step cbs evl k out r)))"
  by (rule logs_length[of "\<lambda>ev. True"], rule finish_train_step_logs) simp_all

lemma train_step_body_Inl_grows:
  assumes "train_step_body u cbs evl k data_iter r = (Inl (e, r'), rest)" and "e \<noteq> StopIteration"
  shows "length (fst r) < length (fst r')"
proof -
  have cbl: "\<And>r1. run_callback_fn cbs on_train_step_start r = Inr r1 \<Longrightarrow> length (fst r) \<le> length (fst r1)"
    using logs_length[OF run_callback_fn_logs[of "\<lambda>ev. True" on_train_step_start r cbs]] by simp
  have fin: "\<And>r1 out w2. length (fst r) \<le> length (fst r1) \<Longrightarrow>
      finish_train_step cbs evl k out (fst r1 @ [Train_step], w2) = Inl (e, r') \<Longrightarrow>
      length (fst r) < length (fst r')"
  proof -
    fix r1 out w2
    assume a: "length (fst r) \<le> length (fst r1)"
      and b: "finish_train_step cbs evl k out (fst r1 @ [Train_step], w2) = Inl (e, r')"
    from finish_train_step_length[of "(fst r1 @ [Train_step], w2)" cbs evl k out] b
    have "length (fst r1) + 1 \<le> length (fst r')" by simp
    with a show "length (fst r) < length (fst r')" by simp
  qed
  show ?thesis
  proof (cases "train_step u")
    case (Batch_step f)
    show ?thesis
    proof (cases data_iter)
      case Nil
      with Batch_step assms show ?thesis by (simp add: train_step_body_def)
    next
      case (Cons b rest')
      show ?thesis
      proof (cases "run_callback_fn cbs on_train_step_start r")
        case (Inl x)
        with Batch_step Cons assms(1) have "run_callback_fn cbs on_train_step_start r = Inl (e, r')"
          by (simp add: train_step_body_def)
        then show ?thesis by (rule run_callback_fn_Inl_grows)
      next
        case (Inr r1)
        note l = cbl[OF Inr]
        from Batch_step Cons Inr assms(1) l fin[OF l] show ?thesis
          by (auto simp: train_step_body_def split: sum.splits prod.splits)
      qed
    qed
  next
    case (Iterator_step g)
    show ?thesis
    proof (cases "run_callback_fn cbs on_train_step_start r")
      case (Inl x)
      with Iterator_step assms(1) have "run_callback_fn cbs on_train_step_start r = Inl (e, r')"
        by (simp add: train_step_body_def)
      then show ?thesis by (rule run_callback_fn_Inl_grows)
    next
      case (Inr r1)
      note l = cbl[OF Inr]
      from Iterator_step Inr assms(1) l fin[OF l] show ?thesis
        by (auto simp: train_step_body_def split: sum.splits prod.splits)
    qed
  qed
qed

lemma train_step_loop_Inl_grows:
  "train_step_loop fuel u cbs evl k data_iter r = Some (Inl (e, r')) \<Longrightarrow>
   length (fst r) < length (fst r')"
proof (induction fuel arbitrary: data_iter r)
  case 0
  then show ?case by simp
next
  case (Suc fuel)
  let ?stop = "should_stop (snd r) \<or>
         is_epoch_done (train_progress (snd r))
           (max_steps_per_epoch (the (train_state (snd r))))
           (max_steps (the (train_state (snd r))))"
  show ?case
  proof (cases ?stop)
    case True
    with Suc.prems show ?thesis by auto
  next
    case False
    obtain res1 rest where body: "train_step_body u cbs evl k data_iter r = (res1, rest)"
      by (cases "train_step_body u cbs evl k data_iter r")
    show ?thesis
    proof (cases res1)
      case (Inl x)
      obtain e1 r1 where x: "x = (e1, r1)" by (cases x)
      from Suc.prems False body Inl x have ne: "e \<noteq> StopIteration" and eq: "e1 = e" "r1 = r'"
        by (auto split: if_splits)
      from body Inl x eq have "train_step_body u cbs evl k data_iter r = (Inl (e, r'), rest)"
        by simp
      then show ?thesis using ne by (rule train_step_body_Inl_grows)
    next
      case (Inr r1)
      from Suc.prems False body Inr have "train_step_loop fuel u cbs evl k rest r1 = Some (Inl (e, r'))"
        by auto
      from Suc.IH[OF this] have "length (fst r1) < length (fst r')" .
      moreover have "length (fst r) \<le> length (fst r1)"
        using logs_length[OF train_step_body_logs[of k "\<lambda>ev. True" r u cbs evl data_iter]] body Inr
        by simp
      ultimately show ?thesis by simp
    qed
  qed
qed

lemma finish_train_epoch_grows:
  "length (fst r) < length (fst (outcome_run (finish_train_epoch u cbs evl k prior prev r)))"
proof -
  let ?tr1 = "if \<not> (\<bar>num_steps_completed_in_epoch (train_progress (snd r)) - prev\<bar> > 0)
              then fst r @ [Warning_no_steps] else fst r"
  let ?r1 = "(?tr1, update_train_progress increment_epoch (snd r))"
  let ?h = "run_unit_hook u on_train_epoch_end ?r1"
  have a: "length (fst r) \<le> length (fst ?r1)" by simp
  have g: "length (fst ?r1) < length (fst (outcome_run ?h))"
    unfolding run_unit_hook_def by (rule call_hook_grows)
  show ?thesis
  proof (cases ?h)
    case (Inl x)
    with a g show ?thesis by (simp add: finish_train_epoch_def Let_def)
  next
    case r2: (Inr r2)
    with a g have l2: "length (fst r) < length (fst r2)" by simp
    have c: "length (fst r2) \<le> length (fst (outcome_run (run_callback_fn cbs on_train_epoch_end r2)))"
      by (rule logs_length[of "\<lambda>ev. True"], rule run_callback_fn_logs) simp
    show ?thesis
    proof (cases "run_callback_fn cbs on_train_epoch_end r2")
      case (Inl x)
      with r2 l2 c show ?thesis by (simp add: finish_train_epoch_def Let_def)
    next
      case r3: (Inr r3)
      with l2 c have l3: "length (fst r) < length (fst r3)" by simp
      let ?m = "case k of None \<Rightarrow> Inr r3
                | Some n \<Rightarrow> if num_epochs_completed (train_progress (snd r3)) mod n = 0
                            then evaluate_impl evl r3 else Inr r3"
      have "length (fst r3) \<le> length (fst (outcome_run (evaluate_impl evl r3)))"
        by (rule logs_length[of "\<lambda>ev. True"], rule evaluate_impl_logs) simp
      then have d: "length (fst r3) \<le> length (fst (outcome_run ?m))"
        by (auto split: option.splits)
      show ?thesis
      proof (cases ?m)
        case (Inl x)
        with r2 r3 l3 d show ?thesis by (simp add: finish_train_epoch_def Let_def)
      next
        case (Inr r4)
        with r2 r3 l3 d show ?thesis by (simp add: finish_train_epoch_def Let_def)
      qed
    qed
  qed
qed


lemma train_epoch_impl_grows:
  assumes run: "train_epoch_impl fuel u cbs evl r = Some res"
    and ts: "train_state (snd r) = Some ts"
  shows "length (fst r) < length (fst (outcome_run res))"
proof -
  define w1 where "w1 = snd (set_module_training_mode (tracked_modules u) True
                         ((snd r)\<lparr>active_phase := ActivePhase_TRAIN\<rparr>))"
  let ?w0 = "(snd r)\<lparr>active_phase := ActivePhase_TRAIN\<rparr>"
  obtain prior where sm: "set_module_training_mode (tracked_modules u) True ?w0 = (prior, w1)"
    using w1_def by (cases "set_module_training_mode (tracked_modules u) True ?w0") simp
  have w1': "train_state w1 = train_state (snd r)"
    using sm by (auto simp: set_module_training_mode_def)
  let ?start = "start_train_epoch u cbs (fst r, w1)"
  have sl: "logs (\<lambda>ev. True) (fst r, w1) ?start"
  proof -
    have "logs (\<lambda>ev. True) (fst r, w1) (run_unit_hook u on_train_epoch_start (fst r, w1))"
      by (rule run_unit_hook_logs) simp
    moreover have "\<And>r2. logs (\<lambda>ev. True) r2 (run_callback_fn cbs on_train_epoch_start r2)"
      by (rule run_callback_fn_logs) simp
    ultimately show ?thesis
      by (auto simp: start_train_epoch_def split: sum.splits intro: logs_trans)
  qed
  show ?thesis
  proof (cases ?start)
    case (Inl x)
    obtain e r' where x: "x = (e, r')" by (cases x)
    from Inl run sm w1' ts have res: "res = Inl x" by (auto simp: train_epoch_impl_def Let_def)
    have "num_steps_completed_in_epoch (train_progress (snd (fst r, w1))) = 0"
      using Inl by (auto simp: start_train_epoch_def split: if_splits)
    from start_train_epoch_first(1)[OF this, of u cbs] Inl res x show ?thesis by auto
  next
    case r3: (Inr r3)
    with sl have l3: "length (fst r) \<le> length (fst r3)" by (auto dest: logs_length)
    let ?ks = "resolve_evaluate_every_n_steps w1"
    let ?ke = "resolve_evaluate_every_n_epochs w1"
    let ?it = "dataloader (the (train_state (snd r3)))"
    let ?prev = "num_steps_completed_in_epoch (train_progress (snd r3))"
    from run sm w1' ts r3 have run':
      "(case train_step_loop fuel u cbs evl ?ks ?it r3 of
          None \<Rightarrow> None
        | Some (Inl x) \<Rightarrow> Some (Inl x)
        | Some (Inr r4) \<Rightarrow> Some (finish_train_epoch u cbs evl ?ke prior ?prev r4)) = Some res"
      by (simp add: train_epoch_impl_def Let_def)
    then obtain res1 where l: "train_step_loop fuel u cbs evl ?ks ?it r3 = Some res1"
      by (cases "train_step_loop fuel u cbs evl ?ks ?it r3") auto
    show ?thesis
    proof (cases res1)
      case (Inl x)
      obtain e r' where x: "x = (e, r')" by (cases x)
      from run' l Inl have "res = Inl x" by simp
      with train_step_loop_Inl_grows[of fuel u cbs evl ?ks ?it r3 e r'] l Inl x l3
      show ?thesis by simp
    next
      case (Inr r4)
      with run' l have res: "res = finish_train_epoch u cbs evl ?ke prior ?prev r4" by simp
      have "logs (\<lambda>ev. True) r3 res1"
        by (rule train_step_loop_logs[OF _ l]) simp
      with Inr have "length (fst r3) \<le> length (fst r4)" by (auto dest: logs_length)
      with l3 finish_train_epoch_grows[of r4 u cbs evl ?ke prior ?prev] res
      show ?thesis by simp
    qed
  qed
qed

lemma train_epochs_loop_logs:
  assumes "\<And>ev. train_epoch_event True True ev \<Longrightarrow> P ev"
    and "train_epochs_loop k fuel u cbs evl r = Some res"
  shows "logs P r res"
  using assms(2)
proof (induction k arbitrary: r)
  case 0
  then show ?case by simp
next
  case (Suc k)
  let ?stop = "should_stop (snd r) \<or>
         is_done (train_progress (snd r))
           (max_epochs (the (train_state (snd r))))
           (max_steps (the (train_state (snd r))))"
  show ?case
  proof (cases ?stop)
    case True
    with Suc.prems show ?thesis by auto
  next
    case False
    with Suc.prems obtain res1 where e: "train_epoch_impl fuel u cbs evl r = Some res1"
      by (cases "train_epoch_impl fuel u cbs evl r") auto
    have a: "logs P r res1"
    proof (rule train_epoch_impl_logs[OF e])
      fix ev
      assume "train_epoch_event
              (train_state (snd r) \<noteq> None \<and> num_steps_completed_in_epoch (train_progress (snd r)) = 0)
              (resolve_evaluate_every_n_steps (snd r) \<noteq> None \<or>
               resolve_evaluate_every_n_epochs (snd r) \<noteq> None) ev"
      then have "train_epoch_event True True ev" by (cases ev) auto
      then show "P ev" by (rule assms(1))
    qed
    show ?thesis
    proof (cases res1)
      case (Inl x)
      with Suc.prems False e a show ?thesis by simp
    next
      case (Inr r1)
      with Suc.prems False e have "train_epochs_loop k fuel u cbs evl r1 = Some res" by simp
      from Suc.IH[OF this] a Inr show ?thesis by (auto intro: logs_trans)
    qed
  qed
qed

text \<open>
  C4. Let the epoch loop of \<open>_train_impl\<close> be entered with a train PhaseState \<open>ts\<close> and end.
  A new epoch is started (the trace grows) iff neither \<open>should_stop\<close> nor \<open>is_done\<close> holds
  at entry: if one of them holds the loop returns at once and leaves the run as it is,
  otherwise it runs the epoch routine and goes round again. \<open>is_done\<close> holds iff
  \<open>max_steps\<close> is set and reached by \<open>num_steps_completed\<close>, or \<open>max_epochs\<close> is set and
  reached by \<open>num_epochs_completed\<close>; with both limits unset it never holds.
\<close>

theorem train_loop_starts_epoch_iff:
  assumes "train_state (snd r) = Some ts"
    and "train_epochs_loop (Suc k) fuel u cbs evl r = Some res"
  shows "(fst (outcome_run res) \<noteq> fst r \<longleftrightarrow>
           \<not> (should_stop (snd r) \<or> is_done (progress ts) (max_epochs ts) (max_steps ts))) \<and>
         (should_stop (snd r) \<or> is_done (progress ts) (max_epochs ts) (max_steps ts) \<longrightarrow>
            res = Inr r) \<and>
         (\<not> (should_stop (snd r) \<or> is_done (progress ts) (max_epochs ts) (max_steps ts)) \<longrightarrow>
            Some res =
              (case train_epoch_impl fuel u cbs evl r of
                 None \<Rightarrow> None
               | Some (Inl x) \<Rightarrow> Some (Inl x)
               | Some (Inr r') \<Rightarrow> train_epochs_loop k fuel u cbs evl r')) \<and>
         (is_done p m_epochs m_steps \<longleftrightarrow>
            (\<exists>n. m_steps = Some n \<and> n \<le> num_steps_completed p) \<or>
            (\<exists>n. m_epochs = Some n \<and> n \<le> num_epochs_completed p)) \<and>
         \<not> is_done p None None"
proof -
  let ?stop = "should_stop (snd r) \<or> is_done (progress ts) (max_epochs ts) (max_steps ts)"
  have tp: "train_progress (snd r) = progress ts" "the (train_state (snd r)) = ts"
    using assms(1) by (simp_all add: train_progress_def)
  have d: "(is_done p m_epochs m_steps \<longleftrightarrow>
            (\<exists>n. m_steps = Some n \<and> n \<le> num_steps_completed p) \<or>
            (\<exists>n. m_epochs = Some n \<and> n \<le> num_epochs_completed p))"
    by (auto simp: is_done_def split: option.splits)
  have n: "\<not> is_done p None None" by (simp add: is_done_def)
  show ?thesis
  proof (cases ?stop)
    case True
    with assms(2) tp have "res = Inr r" by auto
    with True d n show ?thesis by simp
  next
    case False
    with assms(2) tp have eq: "Some res =
              (case train_epoch_impl fuel u cbs evl r of
                 None \<Rightarrow> None
               | Some (Inl x) \<Rightarrow> Some (Inl x)
               | Some (Inr r') \<Rightarrow> train_epochs_loop k fuel u cbs evl r')"
      by simp
    then obtain res1 where e: "train_epoch_impl fuel u cbs evl r = Some res1"
      by (cases "train_epoch_impl fuel u cbs evl r") auto
    from train_epoch_impl_grows[OF e assms(1)]
    have g: "length (fst r) < length (fst (outcome_run res1))" .
    have "length (fst r) < length (fst (outcome_run res))"
    proof (cases res1)
      case (Inl x)
      with eq e g show ?thesis by simp
    next
      case (Inr r1)
      with eq e have "train_epochs_loop k fuel u cbs evl r1 = Some res" by simp
      from train_epochs_loop_logs[of "\<lambda>ev. True", OF _ this] have "length (fst r1) \<le> length (fst (outcome_run res))"
        by (auto dest: logs_length)
      with g Inr show ?thesis by simp
    qed
    then have "fst (outcome_run res) \<noteq> fst r" by auto
    with False eq d n show ?thesis by simp
  qed
qed


text \<open>
  With \<open>max_epochs = 1\<close> and one batch the loop runs one epoch and stops; with
  \<open>max_epochs = 0\<close> it starts none.
\<close>

theorem train_loop_starts_epoch_iff_witness:
  "train_state (example_world (Some ((example_phase [1])\<lparr>max_epochs := Some 1\<rparr>)) None) =
     Some ((example_phase [1])\<lparr>max_epochs := Some 1\<rparr>) \<and>
   \<not> (should_stop (example_world (Some ((example_phase [1])\<lparr>max_epochs := Some 1\<rparr>)) None) \<or>
      is_done (progress ((example_phase [1])\<lparr>max_epochs := Some 1\<rparr>))
        (max_epochs ((example_phase [1])\<lparr>max_epochs := Some 1\<rparr>))
        (max_steps ((example_phase [1])\<lparr>max_epochs := Some 1\<rparr>))) \<and>
   map_option (fst \<circ> outcome_run)
     (train_epochs_loop (Suc 1) 2 example_unit [] noop_hook
        ([], example_world (Some ((example_phase [1])\<lparr>max_epochs := Some 1\<rparr>)) None)) =
     Some [Unit_hook on_train_epoch_start, Train_step, Unit_hook on_train_epoch_end] \<and>
   fst (outcome_run (the
     (train_epochs_loop (Suc 1) 2 example_unit [] noop_hook
        ([], example_world (Some ((example_phase [1])\<lparr>max_epochs := Some 1\<rparr>)) None)))) \<noteq>
     fst ([] :: event list, example_world (Some ((example_phase [1])\<lparr>max_epochs := Some 1\<rparr>)) None) \<and>
   train_state (example_world (Some ((example_phase [1])\<lparr>max_epochs := Some 0\<rparr>)) None) =
     Some ((example_phase [1])\<lparr>max_epochs := Some 0\<rparr>) \<and>
   is_done (progress ((example_phase [1])\<lparr>max_epochs := Some 0\<rparr>))
     (max_epochs ((example_phase [1])\<lparr>max_epochs := Some 0\<rparr>))
     (max_steps ((example_phase [1])\<lparr>max_epochs := Some 0\<rparr>)) \<and>
   the (train_epochs_loop (Suc 0) 2 example_unit [] noop_hook
        ([], example_world (Some ((example_phase [1])\<lparr>max_epochs := Some 0\<rparr>)) None)) =
     Inr ([], example_world (Some ((example_phase [1])\<lparr>max_epochs := Some 0\<rparr>)) None)"
proof -
  let ?t1 = "(example_phase [1])\<lparr>max_epochs := Some 1\<rparr>"
  let ?t0 = "(example_phase [1])\<lparr>max_epochs := Some 0\<rparr>"
  let ?r1 = "([], example_world (Some ?t1) None) :: run"
  let ?r0 = "([], example_world (Some ?t0) None) :: run"
  let ?x1 = "train_epochs_loop (Suc 1) 2 example_unit [] noop_hook ?r1"
  let ?x0 = "train_epochs_loop (Suc 0) 2 example_unit [] noop_hook ?r0"
  have s1: "train_state (example_world (Some ?t1) None) = Some ?t1"
    and s0: "train_state (example_world (Some ?t0) None) = Some ?t0"
    by (simp_all add: example_world_def)
  have n1: "\<not> (should_stop (example_world (Some ?t1) None) \<or>
      is_done (progress ?t1) (max_epochs ?t1) (max_steps ?t1))"
    by (simp add: example_world_def example_phase_def is_done_def Progress_init_def)
  have d0: "is_done (progress ?t0) (max_epochs ?t0) (max_steps ?t0)"
    by (simp add: example_phase_def is_done_def Progress_init_def)
  have a1: "map_option raised ?x1 = Some None" by code_simp
  have b1: "map_option (fst \<circ> outcome_run) ?x1 =
     Some [Unit_hook on_train_epoch_start, Train_step, Unit_hook on_train_epoch_end]" by code_simp
  have a0: "map_option raised ?x0 = Some None" by code_simp
  have st1: "train_state (snd ?r1) = Some ?t1" and st0: "train_state (snd ?r0) = Some ?t0"
    using s1 s0 by simp_all
  have n1': "\<not> (should_stop (snd ?r1) \<or> is_done (progress ?t1) (max_epochs ?t1) (max_steps ?t1))"
    using n1 by simp
  from train_loop_starts_epoch_iff[OF st1 raised_Some_run[OF a1], THEN conjunct1] n1'
  have g1: "fst (outcome_run (the ?x1)) \<noteq> fst ?r1" by blast
  from train_loop_starts_epoch_iff[OF st0 raised_Some_run[OF a0], THEN conjunct2, THEN conjunct1] d0
  have g0: "the ?x0 = Inr ?r0" by blast
  show ?thesis
    by (intro conjI) (rule s1 n1 b1 g1 s0 d0 g0)+
qed

section \<open>The exception handlers\<close>

lemma raised_Some_Inl: "map_option raised x = Some (Some e) \<Longrightarrow> x = Some (Inl (e, outcome_run (the x)))"
  by (cases x) (auto simp: raised_def split: sum.splits prod.splits)

lemma handle_exception_cases:
  "(is_Exception e \<and> hooks u (on_exception e) (snd r1) = Inr w2 \<and>
      run_callback_fn cbs (on_exception e) (fst r1 @ [Unit_hook (on_exception e)], w2) = Inr r3 \<longrightarrow>
        handle_exception u cbs e r1 = Inl (e, r3) \<and>
        fst r3 = fst r1 @ Unit_hook (on_exception e) # callback_events cbs (on_exception e)) \<and>
   (is_Exception e \<and> hooks u (on_exception e) (snd r1) = Inl (e', w2') \<longrightarrow>
        handle_exception u cbs e r1 = Inl (e', (fst r1 @ [Unit_hook (on_exception e)], w2'))) \<and>
   (is_Exception e \<and> hooks u (on_exception e) (snd r1) = Inr w2 \<and>
      run_callback_fn cbs (on_exception e) (fst r1 @ [Unit_hook (on_exception e)], w2) = Inl x \<longrightarrow>
        handle_exception u cbs e r1 = Inl x) \<and>
   (\<not> is_Exception e \<longrightarrow> handle_exception u cbs e r1 = Inl (e, r1))"
  by (auto simp: handle_exception_def run_unit_hook_def call_hook_def dest: run_callback_fn_Inr)

lemma train_step_loop_body_raise:
  assumes "train_step_body u cbs evl k data_iter r0 = (Inl (e0, r0'), rest)"
    and "\<not> (should_stop (snd r0) \<or>
            is_epoch_done (train_progress (snd r0))
              (max_steps_per_epoch (the (train_state (snd r0))))
              (max_steps (the (train_state (snd r0)))))"
  shows "train_step_loop (Suc n) u cbs evl k data_iter r0 =
           Some (if e0 = StopIteration then Inr r0' else Inl (e0, r0'))"
  using assms by simp

section \<open>C9: every returning epoch is a completed epoch\<close>

lemma start_train_epoch_logs:
  assumes "P (Unit_hook on_train_epoch_start)" and "\<And>j. P (Callback_hook j on_train_epoch_start)"
  shows "logs P r (start_train_epoch u cbs r)"
proof -
  have a: "logs P r (run_unit_hook u on_train_epoch_start r)"
    by (rule run_unit_hook_logs) (rule assms(1))
  have b: "\<And>r2. logs P r2 (run_callback_fn cbs on_train_epoch_start r2)"
    by (rule run_callback_fn_logs) (rule assms(2))
  show ?thesis
  proof (cases "run_unit_hook u on_train_epoch_start r")
    case (Inl x)
    with a show ?thesis by (simp add: start_train_epoch_def)
  next
    case (Inr r2)
    with a b[of r2] show ?thesis by (auto simp: start_train_epoch_def intro: logs_trans)
  qed
qed

lemma start_train_epoch_respects:
  assumes k: "step_loop_keeps R" and uc: "user_code_respects R u cbs evl"
  shows "R (snd r) (snd (outcome_run (start_train_epoch u cbs r)))"
proof -
  note tr = step_loop_keeps_trans[OF k]
  have a: "R (snd r) (snd (outcome_run (run_unit_hook u on_train_epoch_start r)))"
    by (rule run_unit_hook_respects[OF uc])
  show ?thesis
  proof (cases "num_steps_completed_in_epoch (train_progress (snd r)) = 0")
    case False
    then show ?thesis by (simp add: start_train_epoch_def step_loop_keeps_refl[OF k])
  next
    case True
    show ?thesis
    proof (cases "run_unit_hook u on_train_epoch_start r")
      case (Inl x)
      with a True show ?thesis by (simp add: start_train_epoch_def)
    next
      case (Inr r2)
      have "R (snd r2) (snd (outcome_run (run_callback_fn cbs on_train_epoch_start r2)))"
        by (rule run_callback_fn_respects[OF k uc])
      with a Inr have "R (snd r) (snd (outcome_run (run_callback_fn cbs on_train_epoch_start r2)))"
        by (auto intro: tr)
      with Inr True show ?thesis by (simp add: start_train_epoch_def)
    qed
  qed
qed











lemma evaluate_impl_Inr: "evaluate_impl evl r = Inr r' \<Longrightarrow> fst r' = fst r @ [Evaluate]"
  unfolding evaluate_impl_def by (rule call_hook_Inr)

lemma not_epoch_end_start:
  "P = (\<lambda>ev. ev \<noteq> Unit_hook on_train_epoch_end) \<Longrightarrow>
   P (Unit_hook on_train_epoch_start) \<and> (\<forall>j. P (Callback_hook j on_train_epoch_start))"
  by simp

lemma step_loop_event_not_epoch_end: "step_loop_event b ev \<Longrightarrow> ev \<noteq> Unit_hook on_train_epoch_end"
  by (cases ev) auto



lemma hook_respects_noop: "(\<And>w. R w w) \<Longrightarrow> hook_respects R noop_hook"
  unfolding hook_respects_def noop_hook_def by simp






section \<open>Relations kept by the whole driver\<close>

lemma driver_keeps_loop: "driver_keeps R \<Longrightarrow> step_loop_keeps R"
  unfolding driver_keeps_def by blast

lemma driver_keeps_epoch: "driver_keeps R \<Longrightarrow> R w (update_train_progress increment_epoch w)"
  unfolding driver_keeps_def by blast

lemma driver_keeps_training: "driver_keeps R \<Longrightarrow> R w (w\<lparr>training := f\<rparr>)"
  unfolding driver_keeps_def by blast

lemma driver_keeps_phase: "driver_keeps R \<Longrightarrow> R w (w\<lparr>active_phase := a\<rparr>)"
  unfolding driver_keeps_def by blast

lemma driver_keeps_entry: "driver_keeps R \<Longrightarrow> R w (w\<lparr>entry_point := e\<rparr>)"
  unfolding driver_keeps_def by blast

lemma driver_keeps_set_mode:
  assumes "driver_keeps R"
  shows "R w (snd (set_module_training_mode ms mode w))"
  unfolding set_module_training_mode_def snd_conv by (rule driver_keeps_training[OF assms])

lemma driver_keeps_reset_mode:
  assumes "driver_keeps R"
  shows "R w (reset_module_training_mode ms prior w)"
  unfolding reset_module_training_mode_def by (rule driver_keeps_training[OF assms])

lemma finish_train_epoch_respects:
  assumes d: "driver_keeps R" and uc: "user_code_respects R u cbs evl"
  shows "R (snd r) (snd (outcome_run (finish_train_epoch u cbs evl k prior prev r)))"
proof -
  note kl = driver_keeps_loop[OF d]
  note tr = step_loop_keeps_trans[OF kl]
  let ?tr1 = "if \<not> (\<bar>num_steps_completed_in_epoch (train_progress (snd r)) - prev\<bar> > 0)
              then fst r @ [Warning_no_steps] else fst r"
  let ?r1 = "(?tr1, update_train_progress increment_epoch (snd r))"
  have a: "R (snd r) (snd ?r1)" using driver_keeps_epoch[OF d] by simp
  have b: "R (snd r) (snd (outcome_run (run_unit_hook u on_train_epoch_end ?r1)))"
    by (rule tr[OF a run_unit_hook_respects[OF uc]])
  show ?thesis
  proof (cases "run_unit_hook u on_train_epoch_end ?r1")
    case (Inl x)
    with b show ?thesis by (simp add: finish_train_epoch_def Let_def)
  next
    case r2: (Inr r2)
    with b have b2: "R (snd r) (snd r2)" by simp
    have c: "R (snd r) (snd (outcome_run (run_callback_fn cbs on_train_epoch_end r2)))"
      by (rule tr[OF b2 run_callback_fn_respects[OF kl uc]])
    show ?thesis
    proof (cases "run_callback_fn cbs on_train_epoch_end r2")
      case (Inl x)
      with c r2 show ?thesis by (simp add: finish_train_epoch_def Let_def)
    next
      case r3: (Inr r3)
      with c have c3: "R (snd r) (snd r3)" by simp
      let ?m = "case k of None \<Rightarrow> Inr r3
                | Some n \<Rightarrow> if num_epochs_completed (train_progress (snd r3)) mod n = 0
                            then evaluate_impl evl r3 else Inr r3"
      have "R (snd r) (snd (outcome_run (evaluate_impl evl r3)))"
        by (rule tr[OF c3 evaluate_impl_respects[OF uc]])
      with c3 have e: "R (snd r) (snd (outcome_run ?m))"
        by (auto split: option.splits)
      show ?thesis
      proof (cases ?m)
        case (Inl x)
        with e r2 r3 show ?thesis by (simp add: finish_train_epoch_def Let_def)
      next
        case (Inr r4)
        with e have "R (snd r) (snd r4)" by simp
        from tr[OF this driver_keeps_reset_mode[OF d]] r2 r3 Inr
        show ?thesis by (simp add: finish_train_epoch_def Let_def)
      qed
    qed
  qed
qed

lemma train_epoch_impl_respects:
  assumes d: "driver_keeps R" and uc: "user_code_respects R u cbs evl"
    and run: "train_epoch_impl fuel u cbs evl r = Some res"
  shows "R (snd r) (snd (outcome_run res))"
proof -
  note kl = driver_keeps_loop[OF d]
  note tr = step_loop_keeps_trans[OF kl]
  let ?w0 = "(snd r)\<lparr>active_phase := ActivePhase_TRAIN\<rparr>"
  obtain prior w1 where sm: "set_module_training_mode (tracked_modules u) True ?w0 = (prior, w1)"
    by (cases "set_module_training_mode (tracked_modules u) True ?w0")
  have "R ?w0 w1" using driver_keeps_set_mode[OF d, of ?w0 "tracked_modules u" True] sm by simp
  with driver_keeps_phase[OF d] have w1: "R (snd r) w1" by (rule tr)
  show ?thesis
  proof (cases "train_state w1")
    case None
    with run sm w1 show ?thesis by (auto simp: train_epoch_impl_def)
  next
    case (Some ts)
    let ?start = "start_train_epoch u cbs (fst r, w1)"
    have "R w1 (snd (outcome_run ?start))"
      using start_train_epoch_respects[OF kl uc, of "(fst r, w1)"] by simp
    with w1 have a: "R (snd r) (snd (outcome_run ?start))" by (rule tr)
    show ?thesis
    proof (cases ?start)
      case (Inl x)
      with run sm Some have "res = Inl x" by (auto simp: train_epoch_impl_def Let_def)
      with a Inl show ?thesis by simp
    next
      case r3: (Inr r3)
      with a have a3: "R (snd r) (snd r3)" by simp
      let ?l = "train_step_loop fuel u cbs evl (resolve_evaluate_every_n_steps w1)
                  (dataloader (the (train_state (snd r3)))) r3"
      from run sm Some r3 have run':
        "(case ?l of None \<Rightarrow> None | Some (Inl x) \<Rightarrow> Some (Inl x)
          | Some (Inr r4) \<Rightarrow> Some (finish_train_epoch u cbs evl (resolve_evaluate_every_n_epochs w1)
               prior (num_steps_completed_in_epoch (train_progress (snd r3))) r4)) = Some res"
        by (simp add: train_epoch_impl_def Let_def)
      then obtain res1 where l: "?l = Some res1" by (cases ?l) auto
      have b: "R (snd r) (snd (outcome_run res1))"
        by (rule tr[OF a3 train_step_loop_respects[OF kl uc l]])
      show ?thesis
      proof (cases res1)
        case (Inl x)
        with run' l have "res = Inl x" by simp
        with b Inl show ?thesis by simp
      next
        case (Inr r4)
        with run' l have "res = finish_train_epoch u cbs evl (resolve_evaluate_every_n_epochs w1)
               prior (num_steps_completed_in_epoch (train_progress (snd r3))) r4" by simp
        moreover from b Inr have "R (snd r) (snd r4)" by simp
        ultimately show ?thesis using tr[OF _ finish_train_epoch_respects[OF d uc]] by simp
      qed
    qed
  qed
qed

lemma train_epochs_loop_respects:
  assumes d: "driver_keeps R" and uc: "user_code_respects R u cbs evl"
    and "train_epochs_loop k fuel u cbs evl r = Some res"
  shows "R (snd r) (snd (outcome_run res))"
  using assms(3)
proof (induction k arbitrary: r)
  case 0
  then show ?case by simp
next
  case (Suc k)
  note kl = driver_keeps_loop[OF d]
  note tr = step_loop_keeps_trans[OF kl]
  let ?stop = "should_stop (snd r) \<or>
         is_done (train_progress (snd r))
           (max_epochs (the (train_state (snd r))))
           (max_steps (the (train_state (snd r))))"
  show ?case
  proof (cases ?stop)
    case True
    with Suc.prems show ?thesis by (auto simp: step_loop_keeps_refl[OF kl])
  next
    case False
    with Suc.prems obtain res1 where e: "train_epoch_impl fuel u cbs evl r = Some res1"
      by (cases "train_epoch_impl fuel u cbs evl r") auto
    note a = train_epoch_impl_respects[OF d uc e]
    show ?thesis
    proof (cases res1)
      case (Inl x)
      with Suc.prems False e a show ?thesis by simp
    next
      case (Inr r1)
      with Suc.prems False e have "train_epochs_loop k fuel u cbs evl r1 = Some res" by simp
      from Suc.IH[OF this] a Inr show ?thesis by (auto intro: tr)
    qed
  qed
qed

lemma train_impl_respects:
  assumes d: "driver_keeps R" and uc: "user_code_respects R u cbs evl"
    and run: "train_impl fuel u cbs evl r = Some res"
  shows "R (snd r) (snd (outcome_run res))"
proof -
  note kl = driver_keeps_loop[OF d]
  note tr = step_loop_keeps_trans[OF kl]
  show ?thesis
  proof (cases "train_state (snd r)")
    case None
    with run show ?thesis by (auto simp: train_impl_def step_loop_keeps_refl[OF kl])
  next
    case (Some ts)
    let ?w0 = "(snd r)\<lparr>active_phase := ActivePhase_TRAIN\<rparr>"
    obtain prior w1 where sm: "set_module_training_mode (tracked_modules u) True ?w0 = (prior, w1)"
      by (cases "set_module_training_mode (tracked_modules u) True ?w0")
    have "R ?w0 w1" using driver_keeps_set_mode[OF d, of ?w0 "tracked_modules u" True] sm by simp
    with driver_keeps_phase[OF d] have w1: "R (snd r) w1" by (rule tr)
    let ?h = "run_unit_hook u on_train_start (fst r, w1)"
    have "R w1 (snd (outcome_run ?h))"
      using run_unit_hook_respects[OF uc, of "(fst r, w1)" on_train_start] by simp
    with w1 have a: "R (snd r) (snd (outcome_run ?h))" by (rule tr)
    show ?thesis
    proof (cases ?h)
      case (Inl x)
      with run Some sm have "res = Inl x" by (auto simp: train_impl_def)
      with a Inl show ?thesis by simp
    next
      case r2: (Inr r2)
      with a have a2: "R (snd r) (snd r2)" by simp
      let ?c = "run_callback_fn cbs on_train_start r2"
      have b: "R (snd r) (snd (outcome_run ?c))"
        by (rule tr[OF a2 run_callback_fn_respects[OF kl uc]])
      show ?thesis
      proof (cases ?c)
        case (Inl x)
        with run Some sm r2 have "res = Inl x" by (auto simp: train_impl_def)
        with b Inl show ?thesis by simp
      next
        case r3: (Inr r3)
        with b have b3: "R (snd r) (snd r3)" by simp
        let ?l = "train_epochs_loop fuel fuel u cbs evl r3"
        from run Some sm r2 r3 obtain res1 where l: "?l = Some res1"
          by (cases ?l) (auto simp: train_impl_def)
        have c: "R (snd r) (snd (outcome_run res1))"
          by (rule tr[OF b3 train_epochs_loop_respects[OF d uc l]])
        show ?thesis
        proof (cases res1)
          case (Inl x)
          with run Some sm r2 r3 l have "res = Inl x" by (auto simp: train_impl_def)
          with c Inl show ?thesis by simp
        next
          case r4: (Inr r4)
          with c have c4: "R (snd r) (snd r4)" by simp
          let ?h2 = "run_unit_hook u on_train_end r4"
          have e: "R (snd r) (snd (outcome_run ?h2))"
            by (rule tr[OF c4 run_unit_hook_respects[OF uc]])
          show ?thesis
          proof (cases ?h2)
            case (Inl x)
            with run Some sm r2 r3 l r4 have "res = Inl x" by (auto simp: train_impl_def)
            with e Inl show ?thesis by simp
          next
            case r5: (Inr r5)
            with e have e5: "R (snd r) (snd r5)" by simp
            let ?c2 = "run_callback_fn cbs on_train_end r5"
            have f: "R (snd r) (snd (outcome_run ?c2))"
              by (rule tr[OF e5 run_callback_fn_respects[OF kl uc]])
            show ?thesis
            proof (cases ?c2)
              case (Inl x)
              with run Some sm r2 r3 l r4 r5 have "res = Inl x" by (auto simp: train_impl_def)
              with f Inl show ?thesis by simp
            next
              case r6: (Inr r6)
              with run Some sm r2 r3 l r4 r5 have
                "res = Inr (fst r6, reset_module_training_mode (tracked_modules u) prior (snd r6))"
                by (auto simp: train_impl_def)
              moreover from f r6 have "R (snd r) (snd r6)" by simp
              ultimately show ?thesis using tr[OF _ driver_keeps_reset_mode[OF d]] by simp
            qed
          qed
        qed
      qed
    qed
  qed
qed

lemma handle_exception_respects:
  assumes d: "driver_keeps R" and uc: "user_code_respects R u cbs evl"
  shows "R (snd r) (snd (outcome_run (handle_exception u cbs e r)))"
proof -
  note kl = driver_keeps_loop[OF d]
  note tr = step_loop_keeps_trans[OF kl]
  show ?thesis
  proof (cases "is_Exception e")
    case False
    then show ?thesis by (simp add: handle_exception_def step_loop_keeps_refl[OF kl])
  next
    case True
    let ?h = "run_unit_hook u (on_exception e) r"
    have a: "R (snd r) (snd (outcome_run ?h))" by (rule run_unit_hook_respects[OF uc])
    show ?thesis
    proof (cases ?h)
      case (Inl x)
      with a True show ?thesis by (simp add: handle_exception_def)
    next
      case (Inr r1)
      with a have a1: "R (snd r) (snd r1)" by simp
      have b: "R (snd r) (snd (outcome_run (run_callback_fn cbs (on_exception e) r1)))"
        by (rule tr[OF a1 run_callback_fn_respects[OF kl uc]])
      with Inr True show ?thesis
        by (cases "run_callback_fn cbs (on_exception e) r1") (simp_all add: handle_exception_def)
    qed
  qed
qed

lemma user_code_respects_callbacks_or_empty:
  "user_code_respects R u (callbacks_or_empty None) evl = user_code_respects R u [] evl"
  "user_code_respects R u (callbacks_or_empty (Some cbs)) evl = user_code_respects R u cbs evl"
  by (simp_all add: callbacks_or_empty_def)

lemma train_respects:
  assumes d: "driver_keeps R" and uc: "user_code_respects R u (callbacks_or_empty callbacks) evl"
    and run: "train fuel u callbacks evl r = Some res"
  shows "R (snd r) (snd (outcome_run res))"
proof -
  note kl = driver_keeps_loop[OF d]
  note tr = step_loop_keeps_trans[OF kl]
  let ?cbs = "callbacks_or_empty callbacks"
  let ?r0 = "(fst r, (snd r)\<lparr>entry_point := EntryPoint_TRAIN\<rparr>)"
  have r0: "R (snd r) (snd ?r0)" using driver_keeps_entry[OF d] by simp
  from run obtain res1 where i: "train_impl fuel u ?cbs evl ?r0 = Some res1"
    by (cases "train_impl fuel u ?cbs evl ?r0") (auto simp: train_def Let_def)
  have a: "R (snd r) (snd (outcome_run res1))"
    by (rule tr[OF r0 train_impl_respects[OF d uc i]])
  show ?thesis
  proof (cases res1)
    case (Inr r')
    with run i have "res = Inr r'" by (simp add: train_def Let_def)
    with a Inr show ?thesis by simp
  next
    case (Inl x)
    obtain e r' where x: "x = (e, r')" by (cases x)
    with run i Inl have "res = handle_exception u ?cbs e r'" by (simp add: train_def Let_def)
    moreover from a Inl x have "R (snd r) (snd r')" by simp
    ultimately show ?thesis using tr[OF _ handle_exception_respects[OF d uc]] by simp
  qed
qed

section \<open>The stop flag and the step in flight\<close>

lemma latch_same: "should_stop w' = should_stop w \<Longrightarrow> latch w w'"
  by (simp add: latch_def)

lemma latch_trans: "latch a b \<Longrightarrow> latch b c \<Longrightarrow> latch a c"
  by (simp add: latch_def)

lemma step_loop_keeps_latch: "step_loop_keeps latch"
proof -
  have "\<And>w x. latch w (update_train_state (\<lambda>ts. ts\<lparr>step_output := x\<rparr>) w)"
    by (rule latch_same) (simp add: update_train_state_def)
  moreover have "\<And>w. latch w (update_train_progress increment_step w)"
    by (rule latch_same) (simp add: update_train_progress_def update_train_state_def)
  moreover have "\<And>w. latch w w" by (rule latch_same) simp
  ultimately show ?thesis
    unfolding step_loop_keeps_def using latch_trans by blast
qed

lemma driver_keeps_latch: "driver_keeps latch"
proof -
  have "\<And>w. latch w (update_train_progress increment_epoch w)"
    by (rule latch_same) (simp add: update_train_progress_def update_train_state_def)
  moreover have "\<And>w f. latch w (w\<lparr>training := f\<rparr>)" by (rule latch_same) simp
  moreover have "\<And>w a. latch w (w\<lparr>active_phase := a\<rparr>)" by (rule latch_same) simp
  moreover have "\<And>w e. latch w (w\<lparr>entry_point := e\<rparr>)" by (rule latch_same) simp
  ultimately show ?thesis
    unfolding driver_keeps_def using step_loop_keeps_latch by blast
qed

lemma run_callback_fn_from_preorder:
  assumes rf: "\<And>w. R w w" and tr: "\<And>a b c. R a b \<Longrightarrow> R b c \<Longrightarrow> R a c"
    and "\<forall>cb \<in> set cbs. \<forall>name h. cb name = Some h \<longrightarrow> hook_respects R h"
  shows "R (snd r) (snd (outcome_run (run_callback_fn_from i cbs name r)))"
  using assms(3)
proof (induction cbs arbitrary: i r)
  case Nil
  then show ?case by (simp add: rf)
next
  case (Cons cb cbs)
  show ?case
  proof (cases "cb name")
    case None
    with Cons show ?thesis by simp
  next
    case (Some h)
    with Cons.prems have "hook_respects R h" by simp
    from call_hook_respects[OF this]
    have a: "R (snd r) (snd (outcome_run (call_hook (Callback_hook i name) h r)))" .
    show ?thesis
    proof (cases "call_hook (Callback_hook i name) h r")
      case (Inl x)
      with a Some show ?thesis by simp
    next
      case (Inr r1)
      have "R (snd r1) (snd (outcome_run (run_callback_fn_from (Suc i) cbs name r1)))"
        using Cons.IH[where i="Suc i" and r=r1] Cons.prems by simp
      with a Inr Some show ?thesis by (auto intro: tr)
    qed
  qed
qed

lemma keeps_steps_refl: "keeps_steps w w"
  by (simp add: keeps_steps_def)

lemma keeps_steps_trans: "keeps_steps a b \<Longrightarrow> keeps_steps b c \<Longrightarrow> keeps_steps a c"
  by (simp add: keeps_steps_def)

lemma keeps_stepsD:
  "keeps_steps w w' \<Longrightarrow> train_state w \<noteq> None \<Longrightarrow>
   train_state w' \<noteq> None \<and>
   num_steps_completed (train_progress w') = num_steps_completed (train_progress w)"
  by (simp add: keeps_steps_def)

lemma keeps_steps_output:
  "keeps_steps w (update_train_state (\<lambda>ts. ts\<lparr>step_output := x\<rparr>) w)"
  by (cases "train_state w") (simp_all add: keeps_steps_def update_train_state_def train_progress_def)

lemma increment_step_steps:
  "train_state w \<noteq> None \<Longrightarrow>
   train_state (update_train_progress increment_step w) \<noteq> None \<and>
   num_steps_completed (train_progress (update_train_progress increment_step w)) =
     num_steps_completed (train_progress w) + 1"
  by (cases "train_state w")
    (simp_all add: update_train_progress_def update_train_state_def train_progress_def
      increment_step_def)

text \<open>A step that returned is counted and told to the callbacks before anything else.\<close>

lemma finish_train_step_counts:
  assumes ts: "train_state (snd r) \<noteq> None"
    and uc: "user_code_respects keeps_steps u cbs evl"
    and fin: "finish_train_step cbs evl k out r = Inr r'"
  shows "num_steps_completed (train_progress (snd r')) =
           num_steps_completed (train_progress (snd r)) + 1 \<and>
         (\<exists>evs. fst r' = fst r @ callback_events cbs on_train_step_end @ evs \<and>
                (evs = [] \<or> evs = [Evaluate]))"
proof -
  let ?n = "num_steps_completed (train_progress (snd r))"
  let ?w1 = "update_train_state (\<lambda>ts. ts\<lparr>step_output := Some out\<rparr>) (snd r)"
  let ?w2 = "update_train_progress increment_step ?w1"
  from keeps_stepsD[OF keeps_steps_output ts]
  have e1: "train_state ?w1 \<noteq> None" "num_steps_completed (train_progress ?w1) = ?n" by simp_all
  from increment_step_steps[OF e1(1)] e1(2)
  have e2: "train_state ?w2 \<noteq> None" "num_steps_completed (train_progress ?w2) = ?n + 1" by simp_all
  from fin obtain r3 where cb: "run_callback_fn cbs on_train_step_end (fst r, ?w2) = Inr r3"
    by (auto simp: finish_train_step_def Let_def split: sum.splits)
  let ?r4 = "(fst r3, update_train_state (\<lambda>ts. ts\<lparr>step_output := None\<rparr>) (snd r3))"
  from fin cb have ev: "(case k of None \<Rightarrow> Inr ?r4
       | Some n \<Rightarrow> if num_steps_completed_in_epoch (train_progress (snd ?r4)) mod n = 0
                   then evaluate_impl evl ?r4 else Inr ?r4) = Inr r'"
    by (simp add: finish_train_step_def Let_def)
  have "keeps_steps ?w2 (snd r3)"
    using run_callback_fn_from_preorder[of keeps_steps cbs "(fst r, ?w2)" 0 on_train_step_end,
        OF keeps_steps_refl keeps_steps_trans] uc cb
    by (simp add: user_code_respects_def run_callback_fn_def)
  from keeps_stepsD[OF this e2(1)] e2(2)
  have e3: "train_state (snd r3) \<noteq> None" "num_steps_completed (train_progress (snd r3)) = ?n + 1"
    by simp_all
  from keeps_stepsD[OF keeps_steps_output e3(1)] e3(2)
  have e4: "train_state (snd ?r4) \<noteq> None" "num_steps_completed (train_progress (snd ?r4)) = ?n + 1"
    by simp_all
  have t3: "fst ?r4 = fst r @ callback_events cbs on_train_step_end"
    using run_callback_fn_Inr[OF cb] by simp
  from ev have "r' = ?r4 \<or> evaluate_impl evl ?r4 = Inr r'"
    by (auto split: option.splits if_splits)
  then show ?thesis
  proof
    assume "r' = ?r4"
    with e4 t3 show ?thesis by simp
  next
    assume e: "evaluate_impl evl ?r4 = Inr r'"
    have "keeps_steps (snd ?r4) (snd r')"
      using evaluate_impl_respects[OF uc, of ?r4] e by simp
    from keeps_stepsD[OF this e4(1)] e4(2) evaluate_impl_Inr[OF e] t3
    show ?thesis by simp
  qed
qed


lemma train_step_body_batch_Inr:
  assumes "train_step u = Batch_step f"
    and "run_callback_fn cbs on_train_step_start r = Inr r1"
    and "f (snd r1) b = Inr (out, w2)"
  shows "train_step_body u cbs evl k (b # rest) r =
           (finish_train_step cbs evl k out (fst r1 @ [Train_step], w2), rest)"
  using assms by (simp add: train_step_body_def)

lemma pair_Inr: "\<not> isl (fst x) \<Longrightarrow> x = (Inr (projr (fst x)), snd x)"
  by (cases x; cases "fst x") auto

lemma latch_stop: "latch w (stop w)"
  by (simp add: latch_def stop_def)

lemma keeps_steps_stop: "keeps_steps w (stop w)"
  by (simp add: keeps_steps_def stop_def train_progress_def)

lemma stopping_callback_latch:
  "user_code_respects latch example_unit [stopping_callback] noop_hook"
proof -
  have "hook_respects latch (\<lambda>w. Inr (stop w))"
    unfolding hook_respects_def by (simp add: latch_stop)
  then show ?thesis
    unfolding user_code_respects_def
    by (simp add: stopping_callback_def example_unit_def hook_respects_noop step_respects_def
        latch_same)
qed

lemma stopping_unit_respects:
  assumes "\<And>w. R w w" and "\<And>w. R w (stop w)"
  shows "user_code_respects R stopping_unit [example_callback] noop_hook"
  unfolding user_code_respects_def
  by (simp add: stopping_unit_def example_unit_def example_callback_def
      hook_respects_noop[of R, OF assms(1)] step_respects_def assms)

section \<open>C8: configuration errors\<close>

lemma hook_returnsD: "hook_returns h \<Longrightarrow> \<exists>w'. h w = Inr w'"
  unfolding hook_returns_def by (erule allE[where x=w]) (auto split: sum.splits)

lemma call_hook_returns: "hook_returns h \<Longrightarrow> \<exists>r'. call_hook ev h r = Inr r'"
  using hook_returnsD[of h "snd r"] by (auto simp: call_hook_def)

lemma run_callback_fn_from_returns:
  assumes "\<forall>cb \<in> set cbs. \<forall>name h. cb name = Some h \<longrightarrow> hook_returns h"
  shows "\<exists>r'. run_callback_fn_from i cbs name r = Inr r'"
  using assms
proof (induction cbs arbitrary: i r)
  case Nil
  then show ?case by simp
next
  case (Cons cb cbs)
  show ?case
  proof (cases "cb name")
    case None
    with Cons show ?thesis by simp
  next
    case (Some h)
    with Cons.prems have "hook_returns h" by simp
    from call_hook_returns[OF this] obtain r1 where
      "call_hook (Callback_hook i name) h r = Inr r1" by blast
    with Some Cons.IH[where i="Suc i" and r=r1] Cons.prems show ?thesis by simp
  qed
qed

lemma run_callback_fn_returns:
  "user_code_returns u cbs evl \<Longrightarrow> \<exists>r'. run_callback_fn cbs name r = Inr r'"
  unfolding run_callback_fn_def
  by (rule run_callback_fn_from_returns) (simp add: user_code_returns_def)

lemma run_unit_hook_returns:
  "user_code_returns u cbs evl \<Longrightarrow> \<exists>r'. run_unit_hook u name r = Inr r'"
  unfolding run_unit_hook_def
  by (rule call_hook_returns) (simp add: user_code_returns_def)

lemma evaluate_impl_returns:
  "user_code_returns u cbs evl \<Longrightarrow> \<exists>r'. evaluate_impl evl r = Inr r'"
  unfolding evaluate_impl_def
  by (rule call_hook_returns) (simp add: user_code_returns_def)

lemma finish_train_step_returns:
  assumes "user_code_returns u cbs evl"
  shows "\<exists>r'. finish_train_step cbs evl k out r = Inr r'"
proof -
  let ?w2 = "update_train_progress increment_step
               (update_train_state (\<lambda>ts. ts\<lparr>step_output := Some out\<rparr>) (snd r))"
  from run_callback_fn_returns[OF assms] obtain r3 where
    cb: "run_callback_fn cbs on_train_step_end (fst r, ?w2) = Inr r3" by blast
  let ?r4 = "(fst r3, update_train_state (\<lambda>ts. ts\<lparr>step_output := None\<rparr>) (snd r3))"
  from evaluate_impl_returns[OF assms] obtain r5 where "evaluate_impl evl ?r4 = Inr r5" by blast
  with cb show ?thesis
    by (simp add: finish_train_step_def Let_def split: option.splits)
qed

lemma step_returns_batch: "step_returns (Batch_step f) \<Longrightarrow> \<exists>out w'. f w b = Inr (out, w')"
proof -
  assume "step_returns (Batch_step f)"
  then have "case f w b of Inl x \<Rightarrow> False | Inr y \<Rightarrow> True" by (simp add: step_returns_def)
  then show ?thesis by (cases "f w b") auto
qed

lemma step_returns_iterator:
  "step_returns (Iterator_step g) \<Longrightarrow> \<exists>out w' rest. g w it = (Inr (out, w'), rest)"
proof -
  assume "step_returns (Iterator_step g)"
  then have "case fst (g w it) of Inl x \<Rightarrow> False | Inr y \<Rightarrow> True" by (simp add: step_returns_def)
  then show ?thesis by (cases "g w it"; cases "fst (g w it)") auto
qed

lemma train_step_body_returns:
  assumes uc: "user_code_returns u cbs evl"
  shows "(\<exists>r' rest. train_step_body u cbs evl k data_iter r = (Inr r', rest)) \<or>
         train_step_body u cbs evl k data_iter r = (Inl (StopIteration, r), [])"
proof -
  have sr: "step_returns (train_step u)" using uc by (simp add: user_code_returns_def)
  from run_callback_fn_returns[OF uc] obtain r1 where
    cb: "run_callback_fn cbs on_train_step_start r = Inr r1" by blast
  show ?thesis
  proof (cases "train_step u")
    case (Batch_step f)
    show ?thesis
    proof (cases data_iter)
      case Nil
      with Batch_step show ?thesis by (simp add: train_step_body_def)
    next
      case (Cons b rest)
      from step_returns_batch[OF sr[unfolded Batch_step]] obtain out w2 where
        "f (snd r1) b = Inr (out, w2)" by blast
      with Batch_step Cons cb finish_train_step_returns[OF uc, of k out "(fst r1 @ [Train_step], w2)"]
      show ?thesis by (auto simp: train_step_body_def)
    qed
  next
    case (Iterator_step g)
    from step_returns_iterator[OF sr[unfolded Iterator_step]] obtain out w2 rest where
      "g (snd r1) data_iter = (Inr (out, w2), rest)" by blast
    with Iterator_step cb finish_train_step_returns[OF uc, of k out "(fst r1 @ [Train_step], w2)"]
    show ?thesis by (auto simp: train_step_body_def)
  qed
qed

lemma train_step_loop_returns:
  assumes uc: "user_code_returns u cbs evl"
    and "train_step_loop fuel u cbs evl k data_iter r = Some res"
  shows "\<exists>r'. res = Inr r'"
  using assms(2)
proof (induction fuel arbitrary: data_iter r)
  case 0
  then show ?case by simp
next
  case (Suc fuel)
  let ?stop = "should_stop (snd r) \<or>
         is_epoch_done (train_progress (snd r))
           (max_steps_per_epoch (the (train_state (snd r))))
           (max_steps (the (train_state (snd r))))"
  show ?case
  proof (cases ?stop)
    case True
    with Suc.prems show ?thesis by auto
  next
    case False
    from train_step_body_returns[OF uc, of k data_iter r] show ?thesis
    proof
      assume "\<exists>r' rest. train_step_body u cbs evl k data_iter r = (Inr r', rest)"
      then obtain r1 rest where "train_step_body u cbs evl k data_iter r = (Inr r1, rest)" by blast
      with Suc.prems False have "train_step_loop fuel u cbs evl k rest r1 = Some res" by simp
      then show ?thesis by (rule Suc.IH)
    next
      assume "train_step_body u cbs evl k data_iter r = (Inl (StopIteration, r), [])"
      with Suc.prems False show ?thesis by auto
    qed
  qed
qed

lemma start_train_epoch_returns:
  assumes "user_code_returns u cbs evl"
  shows "\<exists>r'. start_train_epoch u cbs r = Inr r'"
proof -
  from run_unit_hook_returns[OF assms] obtain r2 where
    "run_unit_hook u on_train_epoch_start r = Inr r2" by blast
  with run_callback_fn_returns[OF assms, of on_train_epoch_start r2] show ?thesis
    by (auto simp: start_train_epoch_def)
qed

lemma finish_train_epoch_returns:
  assumes uc: "user_code_returns u cbs evl"
  shows "\<exists>r'. finish_train_epoch u cbs evl k prior prev r = Inr r'"
proof -
  let ?tr1 = "if \<not> (\<bar>num_steps_completed_in_epoch (train_progress (snd r)) - prev\<bar> > 0)
              then fst r @ [Warning_no_steps] else fst r"
  let ?r1 = "(?tr1, update_train_progress increment_epoch (snd r))"
  from run_unit_hook_returns[OF uc] obtain r2 where
    h: "run_unit_hook u on_train_epoch_end ?r1 = Inr r2" by blast
  from run_callback_fn_returns[OF uc] obtain r3 where
    c: "run_callback_fn cbs on_train_epoch_end r2 = Inr r3" by blast
  from evaluate_impl_returns[OF uc] obtain r4 where e: "evaluate_impl evl r3 = Inr r4" by blast
  from h c e show ?thesis
    by (simp add: finish_train_epoch_def Let_def split: option.splits)
qed

lemma train_epoch_impl_returns:
  assumes uc: "user_code_returns u cbs evl"
    and ts: "train_state (snd r) \<noteq> None"
    and run: "train_epoch_impl fuel u cbs evl r = Some res"
  shows "\<exists>r'. res = Inr r'"
proof -
  let ?w0 = "(snd r)\<lparr>active_phase := ActivePhase_TRAIN\<rparr>"
  obtain prior w1 where sm: "set_module_training_mode (tracked_modules u) True ?w0 = (prior, w1)"
    by (cases "set_module_training_mode (tracked_modules u) True ?w0")
  have w1: "train_state w1 = train_state (snd r)"
    using sm by (auto simp: set_module_training_mode_def)
  from ts w1 obtain t where t: "train_state w1 = Some t" by auto
  from start_train_epoch_returns[OF uc] obtain r3 where
    st: "start_train_epoch u cbs (fst r, w1) = Inr r3" by blast
  let ?l = "train_step_loop fuel u cbs evl (resolve_evaluate_every_n_steps w1)
              (dataloader (the (train_state (snd r3)))) r3"
  from run sm t st have run':
    "(case ?l of None \<Rightarrow> None | Some (Inl x) \<Rightarrow> Some (Inl x)
      | Some (Inr r4) \<Rightarrow> Some (finish_train_epoch u cbs evl (resolve_evaluate_every_n_epochs w1)
           prior (num_steps_completed_in_epoch (train_progress (snd r3))) r4)) = Some res"
    by (simp add: train_epoch_impl_def Let_def)
  then obtain res1 where l: "?l = Some res1" by (cases ?l) auto
  from train_step_loop_returns[OF uc l] obtain r4 where "res1 = Inr r4" by blast
  with run' l finish_train_epoch_returns[OF uc, of "resolve_evaluate_every_n_epochs w1" prior
      "num_steps_completed_in_epoch (train_progress (snd r3))" r4]
  show ?thesis by auto
qed

lemma keeps_train_state_trans:
  "keeps_train_state a b \<Longrightarrow> keeps_train_state b c \<Longrightarrow> keeps_train_state a c"
  by (simp add: keeps_train_state_def)

lemma keeps_train_state_same: "train_state w' = train_state w \<Longrightarrow> keeps_train_state w w'"
  by (simp add: keeps_train_state_def)

lemma keeps_train_state_update: "keeps_train_state w (update_train_state f w)"
  by (cases "train_state w") (simp_all add: keeps_train_state_def update_train_state_def)

lemma driver_keeps_train_state: "driver_keeps keeps_train_state"
proof -
  have "\<And>w x. keeps_train_state w (update_train_state (\<lambda>ts. ts\<lparr>step_output := x\<rparr>) w)"
    by (rule keeps_train_state_update)
  moreover have "\<And>w. keeps_train_state w (update_train_progress increment_step w)"
    unfolding update_train_progress_def by (rule keeps_train_state_update)
  moreover have "\<And>w. keeps_train_state w w" by (rule keeps_train_state_same) simp
  ultimately have "step_loop_keeps keeps_train_state"
    unfolding step_loop_keeps_def using keeps_train_state_trans by blast
  moreover have "\<And>w. keeps_train_state w (update_train_progress increment_epoch w)"
    unfolding update_train_progress_def by (rule keeps_train_state_update)
  moreover have "\<And>w f. keeps_train_state w (w\<lparr>training := f\<rparr>)"
    by (rule keeps_train_state_same) simp
  moreover have "\<And>w a. keeps_train_state w (w\<lparr>active_phase := a\<rparr>)"
    by (rule keeps_train_state_same) simp
  moreover have "\<And>w e. keeps_train_state w (w\<lparr>entry_point := e\<rparr>)"
    by (rule keeps_train_state_same) simp
  ultimately show ?thesis unfolding driver_keeps_def by blast
qed

lemma train_epochs_loop_returns:
  assumes uc: "user_code_returns u cbs evl"
    and ur: "user_code_respects keeps_train_state u cbs evl"
    and "train_state (snd r) \<noteq> None"
    and "train_epochs_loop k fuel u cbs evl r = Some res"
  shows "\<exists>r'. res = Inr r'"
  using assms(3,4)
proof (induction k arbitrary: r)
  case 0
  then show ?case by simp
next
  case (Suc k)
  let ?stop = "should_stop (snd r) \<or>
         is_done (train_progress (snd r))
           (max_epochs (the (train_state (snd r))))
           (max_steps (the (train_state (snd r))))"
  show ?case
  proof (cases ?stop)
    case True
    with Suc.prems show ?thesis by auto
  next
    case False
    with Suc.prems obtain res1 where e: "train_epoch_impl fuel u cbs evl r = Some res1"
      by (cases "train_epoch_impl fuel u cbs evl r") auto
    from train_epoch_impl_returns[OF uc Suc.prems(1) e] obtain r1 where r1: "res1 = Inr r1" by blast
    from train_epoch_impl_respects[OF driver_keeps_train_state ur e] r1 Suc.prems(1)
    have "train_state (snd r1) \<noteq> None" by (simp add: keeps_train_state_def)
    moreover from Suc.prems False e r1 have "train_epochs_loop k fuel u cbs evl r1 = Some res" by simp
    ultimately show ?thesis by (rule Suc.IH)
  qed
qed

lemma train_impl_returns:
  assumes uc: "user_code_returns u cbs evl"
    and ur: "user_code_respects keeps_train_state u cbs evl"
    and ts: "train_state (snd r) \<noteq> None"
    and run: "train_impl fuel u cbs evl r = Some res"
  shows "\<exists>r'. res = Inr r'"
proof -
  note d = driver_keeps_train_state
  note kl = driver_keeps_loop[OF d]
  from ts obtain t where t: "train_state (snd r) = Some t" by auto
  let ?w0 = "(snd r)\<lparr>active_phase := ActivePhase_TRAIN\<rparr>"
  obtain prior w1 where sm: "set_module_training_mode (tracked_modules u) True ?w0 = (prior, w1)"
    by (cases "set_module_training_mode (tracked_modules u) True ?w0")
  have w1: "train_state w1 \<noteq> None"
    using sm ts by (auto simp: set_module_training_mode_def)
  from run_unit_hook_returns[OF uc] obtain r2 where
    h: "run_unit_hook u on_train_start (fst r, w1) = Inr r2" by blast
  have "keeps_train_state w1 (snd r2)"
    using run_unit_hook_respects[OF ur, of "(fst r, w1)" on_train_start] h by simp
  with w1 have e2: "train_state (snd r2) \<noteq> None" by (simp add: keeps_train_state_def)
  from run_callback_fn_returns[OF uc] obtain r3 where
    c: "run_callback_fn cbs on_train_start r2 = Inr r3" by blast
  have "keeps_train_state (snd r2) (snd r3)"
    using run_callback_fn_respects[OF kl ur, of r2 on_train_start] c by simp
  with e2 have e3: "train_state (snd r3) \<noteq> None" by (simp add: keeps_train_state_def)
  let ?l = "train_epochs_loop fuel fuel u cbs evl r3"
  from run t sm h c obtain res1 where l: "?l = Some res1"
    by (cases ?l) (auto simp: train_impl_def)
  from train_epochs_loop_returns[OF uc ur e3 l] obtain r4 where r4: "res1 = Inr r4" by blast
  from run_unit_hook_returns[OF uc] obtain r5 where
    h2: "run_unit_hook u on_train_end r4 = Inr r5" by blast
  from run_callback_fn_returns[OF uc] obtain r6 where
    c2: "run_callback_fn cbs on_train_end r5 = Inr r6" by blast
  from run t sm h c l r4 h2 c2 show ?thesis by (auto simp: train_impl_def)
qed


lemma handle_exception_returns:
  assumes uc: "user_code_returns u cbs evl" and ex: "is_Exception e"
  shows "\<exists>w'. handle_exception u cbs e r =
           Inl (e, (fst r @ Unit_hook (on_exception e) # callback_events cbs (on_exception e), w'))"
proof -
  from run_unit_hook_returns[OF uc] obtain r1 where
    h: "run_unit_hook u (on_exception e) r = Inr r1" by blast
  from run_callback_fn_returns[OF uc] obtain r2 where
    c: "run_callback_fn cbs (on_exception e) r1 = Inr r2" by blast
  from run_unit_hook_Inr[OF h] run_callback_fn_Inr[OF c]
  have "fst r2 = fst r @ Unit_hook (on_exception e) # callback_events cbs (on_exception e)" by simp
  then have "r2 = (fst r @ Unit_hook (on_exception e) # callback_events cbs (on_exception e), snd r2)"
    by (cases r2) simp
  with h c ex show ?thesis by (auto simp: handle_exception_def)
qed

lemma handle_exception_Inl: "\<exists>x. handle_exception u cbs e r = Inl x"
  by (auto simp: handle_exception_def split: sum.splits)

lemma PhaseState_init_raises:
  "isl (PhaseState_init dl p m_epochs m_steps m_spe ens ene) \<longleftrightarrow>
     (\<exists>v. v < 0 \<and> (m_epochs = Some v \<or> m_steps = Some v \<or> m_spe = Some v \<or>
                     ens = Some v \<or> ene = Some v))"
  by (auto simp: PhaseState_init_def check_loop_condition_def split: option.splits)

lemma PhaseState_init_ValueError:
  "PhaseState_init dl p m_epochs m_steps m_spe ens ene = Inl x \<Longrightarrow>
   \<exists>name v. x = ValueError name v \<and> v < 0"
  by (auto simp: PhaseState_init_def check_loop_condition_def split: option.splits if_splits)

text \<open>
  C8. Construction of a PhaseState raises (a \<open>ValueError\<close>) iff one of the five limits is
  given and negative. \<open>train\<close> called on a State without train PhaseState raises at once:
  the error goes straight to the \<open>on_exception\<close> handlers, nothing else is run.
  \<open>train_epoch\<close> does the same when the train PhaseState is missing or its \<open>max_epochs\<close> is
  not exactly 1. With user code that returns from every call and leaves the train
  PhaseState in place, these are the only raises: \<open>train\<close> raises iff the train PhaseState
  is missing, \<open>train_epoch\<close> on a State with a train PhaseState raises iff \<open>max_epochs\<close> is
  not 1, and the trace of a raising call holds the \<open>on_exception\<close> calls only, so no step
  has run.
\<close>

theorem configuration_errors_raise_at_once:
  assumes "cbs = callbacks_or_empty callbacks"
  shows
  "(isl (PhaseState_init dl p m_epochs m_steps m_spe ens ene) \<longleftrightarrow>
     (\<exists>v. v < 0 \<and> (m_epochs = Some v \<or> m_steps = Some v \<or> m_spe = Some v \<or>
                     ens = Some v \<or> ene = Some v))) \<and>
   (PhaseState_init dl p m_epochs m_steps m_spe ens ene = Inl x \<longrightarrow>
     (\<exists>name v. x = ValueError name v \<and> v < 0)) \<and>
   (train_state (snd r) = None \<longrightarrow>
     train fuel u callbacks evl r =
       Some (handle_exception u cbs (RuntimeError ''Expected train_state to be initialized!'')
               (fst r, (snd r)\<lparr>entry_point := EntryPoint_TRAIN\<rparr>)) \<and>
     train_epoch fuel u callbacks evl r =
       Some (handle_exception u cbs (RuntimeError ''Expected train_state to be initialized!'') r) \<and>
     (\<exists>y. train fuel u callbacks evl r = Some (Inl y)) \<and>
     (\<exists>y. train_epoch fuel u callbacks evl r = Some (Inl y))) \<and>
   (train_state (snd r) = Some ts \<and> max_epochs ts \<noteq> Some 1 \<longrightarrow>
     train_epoch fuel u callbacks evl r =
       Some (handle_exception u cbs (RuntimeError ''Expected state.train_state.max_epochs to be 1'') r) \<and>
     (\<exists>y. train_epoch fuel u callbacks evl r = Some (Inl y))) \<and>
   (user_code_returns u cbs evl \<and> user_code_respects keeps_train_state u cbs evl \<and>
    train fuel u callbacks evl r = Some (Inl (e, r')) \<longrightarrow>
      train_state (snd r) = None \<and>
      e = RuntimeError ''Expected train_state to be initialized!'' \<and>
      fst r' = fst r @ Unit_hook (on_exception e) # callback_events cbs (on_exception e)) \<and>
   (user_code_returns u cbs evl \<and> user_code_respects keeps_train_state u cbs evl \<and>
    train_state (snd r) = Some ts \<and>
    train_epoch fuel u callbacks evl r = Some (Inl (e, r')) \<longrightarrow>
      max_epochs ts \<noteq> Some 1 \<and>
      e = RuntimeError ''Expected state.train_state.max_epochs to be 1'' \<and>
      fst r' = fst r @ Unit_hook (on_exception e) # callback_events cbs (on_exception e))"
proof (intro conjI impI)
  show "isl (PhaseState_init dl p m_epochs m_steps m_spe ens ene) \<longleftrightarrow>
     (\<exists>v. v < 0 \<and> (m_epochs = Some v \<or> m_steps = Some v \<or> m_spe = Some v \<or>
                     ens = Some v \<or> ene = Some v))"
    by (rule PhaseState_init_raises)
next
  assume "PhaseState_init dl p m_epochs m_steps m_spe ens ene = Inl x"
  then show "\<exists>name v. x = ValueError name v \<and> v < 0" by (rule PhaseState_init_ValueError)
next
  assume n: "train_state (snd r) = None"
  let ?e = "RuntimeError ''Expected train_state to be initialized!''"
  from n show t: "train fuel u callbacks evl r =
       Some (handle_exception u cbs ?e (fst r, (snd r)\<lparr>entry_point := EntryPoint_TRAIN\<rparr>))"
    using assms by (simp add: train_def train_impl_def Let_def)
  from n show te: "train_epoch fuel u callbacks evl r = Some (handle_exception u cbs ?e r)"
    using assms by (simp add: train_epoch_def train_epoch_checked_def Let_def)
  from t handle_exception_Inl[of u cbs ?e "(fst r, (snd r)\<lparr>entry_point := EntryPoint_TRAIN\<rparr>)"]
  show "\<exists>y. train fuel u callbacks evl r = Some (Inl y)" by auto
  from te handle_exception_Inl[of u cbs ?e r]
  show "\<exists>y. train_epoch fuel u callbacks evl r = Some (Inl y)" by auto
next
  assume a: "train_state (snd r) = Some ts \<and> max_epochs ts \<noteq> Some 1"
  let ?e = "RuntimeError ''Expected state.train_state.max_epochs to be 1''"
  from a show te: "train_epoch fuel u callbacks evl r = Some (handle_exception u cbs ?e r)"
    using assms by (simp add: train_epoch_def train_epoch_checked_def Let_def)
  from te handle_exception_Inl[of u cbs ?e r]
  show "\<exists>y. train_epoch fuel u callbacks evl r = Some (Inl y)" by auto
next
  assume a: "user_code_returns u cbs evl \<and> user_code_respects keeps_train_state u cbs evl \<and>
    train fuel u callbacks evl r = Some (Inl (e, r'))"
  then have uc: "user_code_returns u cbs evl"
    and ur: "user_code_respects keeps_train_state u cbs evl"
    and run: "train fuel u callbacks evl r = Some (Inl (e, r'))" by simp_all
  let ?r0 = "(fst r, (snd r)\<lparr>entry_point := EntryPoint_TRAIN\<rparr>)"
  let ?e = "RuntimeError ''Expected train_state to be initialized!''"
  show n: "train_state (snd r) = None"
  proof (rule ccontr)
    assume p: "train_state (snd r) \<noteq> None"
    from run obtain res1 where i: "train_impl fuel u cbs evl ?r0 = Some res1"
      using assms by (cases "train_impl fuel u cbs evl ?r0") (auto simp: train_def Let_def)
    from p have "train_state (snd ?r0) \<noteq> None" by simp
    from train_impl_returns[OF uc ur this i] obtain r1 where "res1 = Inr r1" by blast
    with run i assms show False by (simp add: train_def Let_def)
  qed
  from n have "train fuel u callbacks evl r = Some (handle_exception u cbs ?e ?r0)"
    using assms by (simp add: train_def train_impl_def Let_def)
  with run handle_exception_returns[OF uc, of ?e ?r0]
  show "e = ?e" and "fst r' = fst r @ Unit_hook (on_exception e) # callback_events cbs (on_exception e)"
    by auto
next
  assume a: "user_code_returns u cbs evl \<and> user_code_respects keeps_train_state u cbs evl \<and>
    train_state (snd r) = Some ts \<and>
    train_epoch fuel u callbacks evl r = Some (Inl (e, r'))"
  then have uc: "user_code_returns u cbs evl"
    and ur: "user_code_respects keeps_train_state u cbs evl"
    and ts: "train_state (snd r) = Some ts"
    and run: "train_epoch fuel u callbacks evl r = Some (Inl (e, r'))" by simp_all
  let ?r0 = "(fst r, (snd r)\<lparr>entry_point := EntryPoint_TRAIN\<rparr>)"
  let ?e = "RuntimeError ''Expected state.train_state.max_epochs to be 1''"
  show n: "max_epochs ts \<noteq> Some 1"
  proof
    assume p: "max_epochs ts = Some 1"
    with ts have c: "train_epoch_checked fuel u cbs evl r = train_epoch_impl fuel u cbs evl ?r0"
      by (simp add: train_epoch_checked_def)
    from run obtain res1 where i: "train_epoch_impl fuel u cbs evl ?r0 = Some res1"
      using assms c by (cases "train_epoch_impl fuel u cbs evl ?r0") (auto simp: train_epoch_def Let_def)
    from ts have "train_state (snd ?r0) \<noteq> None" by simp
    from train_epoch_impl_returns[OF uc this i] obtain r1 where "res1 = Inr r1" by blast
    with run i c assms show False by (simp add: train_epoch_def Let_def)
  qed
  from n ts have "train_epoch fuel u callbacks evl r = Some (handle_exception u cbs ?e r)"
    using assms by (simp add: train_epoch_def train_epoch_checked_def Let_def)
  with run handle_exception_returns[OF uc, of ?e r]
  show "e = ?e" and "fst r' = fst r @ Unit_hook (on_exception e) # callback_events cbs (on_exception e)"
    by auto
qed


lemma hook_returns_noop: "hook_returns noop_hook"
  unfolding hook_returns_def noop_hook_def by simp

lemma example_unit_returns: "user_code_returns example_unit [example_callback] noop_hook"
  unfolding user_code_returns_def
  by (simp add: example_unit_def example_callback_def hook_returns_noop step_returns_def)

lemma example_unit_respects:
  assumes "\<And>w. R w w"
  shows "user_code_respects R example_unit [example_callback] noop_hook"
  unfolding user_code_respects_def
  by (simp add: example_unit_def example_callback_def hook_respects_noop[of R, OF assms]
      step_respects_def assms)

text \<open>
  A negative and a zero \<open>max_epochs\<close>; \<open>train\<close> without train PhaseState; \<open>train_epoch\<close>
  with \<open>max_epochs\<close> unset, and with \<open>max_epochs = 1\<close>.
\<close>

theorem configuration_errors_raise_at_once_witness:
  "PhaseState_init [1] None (Some (- 1)) None None None None = Inl (ValueError ''max_epochs'' (- 1)) \<and>
   isl (PhaseState_init [1] None (Some (- 1)) None None None None) \<and>
   \<not> isl (PhaseState_init [1] None (Some 0) None None None None) \<and>
   train_state (snd ([] :: event list, example_world None None)) = None \<and>
   user_code_returns example_unit (callbacks_or_empty (Some [example_callback])) noop_hook \<and>
   user_code_respects keeps_train_state example_unit
     (callbacks_or_empty (Some [example_callback])) noop_hook \<and>
   map_option raised
     (train 3 example_unit (Some [example_callback]) noop_hook ([], example_world None None)) =
     Some (Some (RuntimeError ''Expected train_state to be initialized!'')) \<and>
   fst (outcome_run (the
     (train 3 example_unit (Some [example_callback]) noop_hook ([], example_world None None)))) =
     fst ([] :: event list, example_world None None) @
     Unit_hook (on_exception (RuntimeError ''Expected train_state to be initialized!'')) #
     callback_events (callbacks_or_empty (Some [example_callback]))
       (on_exception (RuntimeError ''Expected train_state to be initialized!'')) \<and>
   train_state (snd ([] :: event list, example_world (Some (example_phase [1, 2])) None)) =
     Some (example_phase [1, 2]) \<and>
   max_epochs (example_phase [1, 2]) \<noteq> Some 1 \<and>
   map_option raised
     (train_epoch 3 example_unit (Some [example_callback]) noop_hook
        ([], example_world (Some (example_phase [1, 2])) None)) =
     Some (Some (RuntimeError ''Expected state.train_state.max_epochs to be 1'')) \<and>
   map_option (fst \<circ> outcome_run)
     (train_epoch 3 example_unit (Some [example_callback]) noop_hook
        ([], example_world (Some (example_phase [1, 2])) None)) =
     Some [Unit_hook (on_exception (RuntimeError ''Expected state.train_state.max_epochs to be 1'')),
           Callback_hook 0
             (on_exception (RuntimeError ''Expected state.train_state.max_epochs to be 1''))] \<and>
   map_option raised
     (train_epoch 3 example_unit (Some [example_callback]) noop_hook
        ([], example_world (Some ((example_phase [1, 2])\<lparr>max_epochs := Some 1\<rparr>)) None)) =
     Some None"
proof -
  let ?cs = "Some [example_callback]"
  let ?cbs = "callbacks_or_empty ?cs"
  let ?r0 = "([], example_world None None) :: run"
  let ?r1 = "([], example_world (Some (example_phase [1, 2])) None) :: run"
  let ?e0 = "RuntimeError ''Expected train_state to be initialized!''"
  let ?x = "train 3 example_unit ?cs noop_hook ?r0"
  note inst = configuration_errors_raise_at_once[OF refl, where callbacks="?cs"
      and u=example_unit and evl=noop_hook and fuel=3]
  have p1: "PhaseState_init [1] None (Some (- 1)) None None None None =
      Inl (ValueError ''max_epochs'' (- 1))"
    by (simp add: PhaseState_init_def check_loop_condition_def)
  have p2: "isl (PhaseState_init [1] None (Some (- 1)) None None None None)"
    using inst[THEN conjunct1, of "[1]" None "Some (- 1)" None None None None] by simp
  have p3: "\<not> isl (PhaseState_init [1] None (Some 0) None None None None)"
    using inst[THEN conjunct1, of "[1]" None "Some 0" None None None None] by simp
  have n0: "train_state (snd ?r0) = None" by (simp add: example_world_def)
  have ur: "user_code_returns example_unit ?cbs noop_hook"
    using example_unit_returns by (simp add: callbacks_or_empty_def)
  have uk: "user_code_respects keeps_train_state example_unit ?cbs noop_hook"
    using example_unit_respects[of keeps_train_state] keeps_train_state_same
    by (simp add: callbacks_or_empty_def)
  have x1: "map_option raised ?x = Some (Some ?e0)" by code_simp
  have x2: "fst (outcome_run (the ?x)) =
      fst ?r0 @ Unit_hook (on_exception ?e0) # callback_events ?cbs (on_exception ?e0)"
    using inst[where r="?r0" and e="?e0" and r'="outcome_run (the ?x)"] ur uk
      raised_Some_Inl[OF x1]
    by blast
  have t1: "train_state (snd ?r1) = Some (example_phase [1, 2])" by (simp add: example_world_def)
  have m1: "max_epochs (example_phase [1, 2]) \<noteq> Some 1" by (simp add: example_phase_def)
  have y1: "map_option raised (train_epoch 3 example_unit ?cs noop_hook ?r1) =
     Some (Some (RuntimeError ''Expected state.train_state.max_epochs to be 1''))" by code_simp
  have y2: "map_option (fst \<circ> outcome_run) (train_epoch 3 example_unit ?cs noop_hook ?r1) =
     Some [Unit_hook (on_exception (RuntimeError ''Expected state.train_state.max_epochs to be 1'')),
           Callback_hook 0
             (on_exception (RuntimeError ''Expected state.train_state.max_epochs to be 1''))]"
    by code_simp
  have z1: "map_option raised
     (train_epoch 3 example_unit ?cs noop_hook
        ([], example_world (Some ((example_phase [1, 2])\<lparr>max_epochs := Some 1\<rparr>)) None)) =
     Some None" by code_simp
  show ?thesis
    by (intro conjI) (rule p1 p2 p3 n0 ur uk x1 x2 t1 m1 y1 y2 z1)+
qed

section \<open>C10: a cadence of zero\<close>

text \<open>The events of the end of an epoch, whatever its outcome.\<close>

lemma finish_train_epoch_shape:
  "\<exists>warn rest.
     fst (outcome_run (finish_train_epoch u cbs evl k prior prev r)) =
       fst r @ warn @ Unit_hook on_train_epoch_end # rest \<and>
     list_all (\<lambda>ev. ev = Warning_no_steps) warn \<and>
     list_all (\<lambda>ev. (\<exists>j. ev = Callback_hook j on_train_epoch_end) \<or> (k \<noteq> None \<and> ev = Evaluate)) rest"
proof -
  let ?Q = "\<lambda>ev. (\<exists>j. ev = Callback_hook j on_train_epoch_end) \<or> (k \<noteq> None \<and> ev = Evaluate)"
  let ?warn = "if \<not> (\<bar>num_steps_completed_in_epoch (train_progress (snd r)) - prev\<bar> > 0)
              then [Warning_no_steps] else []"
  let ?r1 = "(fst r @ ?warn, update_train_progress increment_epoch (snd r))"
  let ?h = "run_unit_hook u on_train_epoch_end ?r1"
  have r1: "(if \<not> (\<bar>num_steps_completed_in_epoch (train_progress (snd r)) - prev\<bar> > 0)
              then fst r @ [Warning_no_steps] else fst r,
             update_train_progress increment_epoch (snd r)) = ?r1" by simp
  have w: "list_all (\<lambda>ev. ev = Warning_no_steps) ?warn" by simp
  have hl: "fst (outcome_run ?h) = fst r @ ?warn @ [Unit_hook on_train_epoch_end]"
    by (auto simp: run_unit_hook_def call_hook_def split: sum.splits prod.splits)
  have "\<exists>rest. fst (outcome_run (finish_train_epoch u cbs evl k prior prev r)) =
       fst r @ ?warn @ Unit_hook on_train_epoch_end # rest \<and> list_all ?Q rest"
  proof (cases ?h)
    case (Inl x)
    then have "finish_train_epoch u cbs evl k prior prev r = Inl x"
      unfolding finish_train_epoch_def Let_def r1 by simp
    with hl Inl show ?thesis by simp
  next
    case r2: (Inr r2)
    with hl have t2: "fst r2 = fst r @ ?warn @ [Unit_hook on_train_epoch_end]" by simp
    have c: "logs ?Q r2 (run_callback_fn cbs on_train_epoch_end r2)"
      by (rule run_callback_fn_logs) blast
    show ?thesis
    proof (cases "run_callback_fn cbs on_train_epoch_end r2")
      case (Inl x)
      with r2 have "finish_train_epoch u cbs evl k prior prev r = Inl x"
        unfolding finish_train_epoch_def Let_def r1 by simp
      with c Inl t2 show ?thesis by (auto simp: logs_def)
    next
      case r3: (Inr r3)
      let ?m = "case k of None \<Rightarrow> Inr r3
                | Some n \<Rightarrow> if num_epochs_completed (train_progress (snd r3)) mod n = 0
                            then evaluate_impl evl r3 else Inr r3"
      have "k \<noteq> None \<Longrightarrow> logs ?Q r3 (evaluate_impl evl r3)"
        by (rule evaluate_impl_logs) simp
      then have "logs ?Q r3 ?m" by (auto split: option.splits)
      with c r3 have d: "logs ?Q r2 ?m" by (auto intro: logs_trans)
      have "fst (outcome_run (finish_train_epoch u cbs evl k prior prev r)) = fst (outcome_run ?m)"
        using r2 r3 unfolding finish_train_epoch_def Let_def r1
        by (cases ?m) simp_all
      with d t2 show ?thesis by (auto simp: logs_def)
    qed
  qed
  with w show ?thesis by blast
qed

text \<open>The three parts of a call of the epoch routine, whatever its outcome.\<close>

lemma train_epoch_impl_parts:
  assumes run: "train_epoch_impl fuel u cbs evl r = Some res"
    and ts: "train_state (snd r) = Some ts"
  shows "\<exists>prior w1 start.
     start = start_train_epoch u cbs (fst r, w1) \<and>
     ((\<exists>x. start = Inl x \<and> res = Inl x) \<or>
      (\<exists>r3 lp. start = Inr r3 \<and>
         train_step_loop fuel u cbs evl (resolve_evaluate_every_n_steps (snd r))
           (dataloader (the (train_state (snd r3)))) r3 = Some lp \<and>
         ((\<exists>x. lp = Inl x \<and> res = Inl x) \<or>
          (\<exists>r4. lp = Inr r4 \<and>
             res = finish_train_epoch u cbs evl (resolve_evaluate_every_n_epochs (snd r)) prior
                     (num_steps_completed_in_epoch (train_progress (snd r3))) r4))))"
proof -
  let ?w0 = "(snd r)\<lparr>active_phase := ActivePhase_TRAIN\<rparr>"
  obtain prior w1 where sm: "set_module_training_mode (tracked_modules u) True ?w0 = (prior, w1)"
    by (cases "set_module_training_mode (tracked_modules u) True ?w0")
  have w1': "train_state w1 = train_state (snd r)" "eval_state w1 = eval_state (snd r)"
    using sm by (auto simp: set_module_training_mode_def)
  have ks: "resolve_evaluate_every_n_steps w1 = resolve_evaluate_every_n_steps (snd r)"
    and ke: "resolve_evaluate_every_n_epochs w1 = resolve_evaluate_every_n_epochs (snd r)"
    using w1' by (simp_all add: resolve_evaluate_every_n_steps_def resolve_evaluate_every_n_epochs_def)
  let ?start = "start_train_epoch u cbs (fst r, w1)"
  have "(\<exists>x. ?start = Inl x \<and> res = Inl x) \<or>
      (\<exists>r3 lp. ?start = Inr r3 \<and>
         train_step_loop fuel u cbs evl (resolve_evaluate_every_n_steps (snd r))
           (dataloader (the (train_state (snd r3)))) r3 = Some lp \<and>
         ((\<exists>x. lp = Inl x \<and> res = Inl x) \<or>
          (\<exists>r4. lp = Inr r4 \<and>
             res = finish_train_epoch u cbs evl (resolve_evaluate_every_n_epochs (snd r)) prior
                     (num_steps_completed_in_epoch (train_progress (snd r3))) r4)))"
  proof (cases ?start)
    case (Inl x)
    with run sm w1' ts have "res = Inl x" by (auto simp: train_epoch_impl_def Let_def)
    with Inl show ?thesis by blast
  next
    case r3: (Inr r3)
    let ?l = "train_step_loop fuel u cbs evl (resolve_evaluate_every_n_steps (snd r))
           (dataloader (the (train_state (snd r3)))) r3"
    from run sm w1' ts r3 ks ke have run':
      "(case ?l of None \<Rightarrow> None | Some (Inl x) \<Rightarrow> Some (Inl x)
        | Some (Inr r4) \<Rightarrow> Some (finish_train_epoch u cbs evl (resolve_evaluate_every_n_epochs (snd r))
             prior (num_steps_completed_in_epoch (train_progress (snd r3))) r4)) = Some res"
      by (simp add: train_epoch_impl_def Let_def)
    then obtain lp where l: "?l = Some lp" by (cases ?l) auto
    from run' l have "(\<exists>x. lp = Inl x \<and> res = Inl x) \<or>
          (\<exists>r4. lp = Inr r4 \<and>
             res = finish_train_epoch u cbs evl (resolve_evaluate_every_n_epochs (snd r)) prior
                     (num_steps_completed_in_epoch (train_progress (snd r3))) r4)"
      by (cases lp) auto
    with r3 l show ?thesis by blast
  qed
  then show ?thesis by blast
qed


text \<open>
  The trace of a call of the epoch routine: what the start and the step loop record, then
  the end of the epoch, if it is reached.
\<close>

lemma train_epoch_impl_trace_parts:
  assumes run: "train_epoch_impl fuel u cbs evl r = Some res"
    and P1: "P (Unit_hook on_train_epoch_start)"
    and P2: "\<And>j. P (Callback_hook j on_train_epoch_start)"
    and P3: "\<And>ev. step_loop_event (resolve_evaluate_every_n_steps (snd r) \<noteq> None) ev \<Longrightarrow> P ev"
    and P4: "P Warning_no_steps"
  shows "\<exists>pre post.
     fst (outcome_run res) = fst r @ pre @ post \<and> list_all P pre \<and>
     (post = [] \<or>
      (\<exists>rest. post = Unit_hook on_train_epoch_end # rest \<and>
         list_all (\<lambda>ev. (\<exists>j. ev = Callback_hook j on_train_epoch_end) \<or>
                        (resolve_evaluate_every_n_epochs (snd r) \<noteq> None \<and> ev = Evaluate)) rest))"
proof (cases "train_state (snd r)")
  case None
  with run have "fst (outcome_run res) = fst r"
    by (auto simp: train_epoch_impl_def set_module_training_mode_def Let_def)
  then have "fst (outcome_run res) = fst r @ [] @ [] \<and> list_all P []" by simp
  then show ?thesis by blast
next
  case (Some ts)
  from train_epoch_impl_parts[OF run Some] obtain prior w1 where parts:
    "(\<exists>x. start_train_epoch u cbs (fst r, w1) = Inl x \<and> res = Inl x) \<or>
      (\<exists>r3 lp. start_train_epoch u cbs (fst r, w1) = Inr r3 \<and>
         train_step_loop fuel u cbs evl (resolve_evaluate_every_n_steps (snd r))
           (dataloader (the (train_state (snd r3)))) r3 = Some lp \<and>
         ((\<exists>x. lp = Inl x \<and> res = Inl x) \<or>
          (\<exists>r4. lp = Inr r4 \<and>
             res = finish_train_epoch u cbs evl (resolve_evaluate_every_n_epochs (snd r)) prior
                     (num_steps_completed_in_epoch (train_progress (snd r3))) r4)))"
    by blast
  have sl: "logs P (fst r, w1) (start_train_epoch u cbs (fst r, w1))"
    by (rule start_train_epoch_logs) (rule P1 P2)+
  from parts show ?thesis
  proof
    assume "\<exists>x. start_train_epoch u cbs (fst r, w1) = Inl x \<and> res = Inl x"
    with sl obtain evs where "fst (outcome_run res) = fst r @ evs" "list_all P evs"
      by (auto simp: logs_def)
    then have "fst (outcome_run res) = fst r @ evs @ [] \<and> list_all P evs" by simp
    then show ?thesis by blast
  next
    assume "\<exists>r3 lp. start_train_epoch u cbs (fst r, w1) = Inr r3 \<and>
         train_step_loop fuel u cbs evl (resolve_evaluate_every_n_steps (snd r))
           (dataloader (the (train_state (snd r3)))) r3 = Some lp \<and>
         ((\<exists>x. lp = Inl x \<and> res = Inl x) \<or>
          (\<exists>r4. lp = Inr r4 \<and>
             res = finish_train_epoch u cbs evl (resolve_evaluate_every_n_epochs (snd r)) prior
                     (num_steps_completed_in_epoch (train_progress (snd r3))) r4))"
    then obtain r3 lp where st: "start_train_epoch u cbs (fst r, w1) = Inr r3"
      and l: "train_step_loop fuel u cbs evl (resolve_evaluate_every_n_steps (snd r))
           (dataloader (the (train_state (snd r3)))) r3 = Some lp"
      and rest: "(\<exists>x. lp = Inl x \<and> res = Inl x) \<or>
          (\<exists>r4. lp = Inr r4 \<and>
             res = finish_train_epoch u cbs evl (resolve_evaluate_every_n_epochs (snd r)) prior
                     (num_steps_completed_in_epoch (train_progress (snd r3))) r4)"
      by blast
    from sl st obtain evs1 where e1: "fst r3 = fst r @ evs1" "list_all P evs1"
      by (auto simp: logs_def)
    have "logs P r3 lp" by (rule train_step_loop_logs[OF _ l]) (rule P3)
    then obtain evs2 where e2: "fst (outcome_run lp) = fst r3 @ evs2" "list_all P evs2"
      by (auto simp: logs_def)
    from rest show ?thesis
    proof
      assume "\<exists>x. lp = Inl x \<and> res = Inl x"
      with e1 e2 have "fst (outcome_run res) = fst r @ (evs1 @ evs2) @ [] \<and> list_all P (evs1 @ evs2)"
        by auto
      then show ?thesis by blast
    next
      assume "\<exists>r4. lp = Inr r4 \<and>
             res = finish_train_epoch u cbs evl (resolve_evaluate_every_n_epochs (snd r)) prior
                     (num_steps_completed_in_epoch (train_progress (snd r3))) r4"
      then obtain r4 where r4: "lp = Inr r4"
        and res: "res = finish_train_epoch u cbs evl (resolve_evaluate_every_n_epochs (snd r)) prior
                     (num_steps_completed_in_epoch (train_progress (snd r3))) r4" by blast
      from finish_train_epoch_shape[of u cbs evl "resolve_evaluate_every_n_epochs (snd r)" prior
          "num_steps_completed_in_epoch (train_progress (snd r3))" r4] res
      obtain warn rest where sh: "fst (outcome_run res) =
            fst r4 @ warn @ Unit_hook on_train_epoch_end # rest"
        and wn: "list_all (\<lambda>ev. ev = Warning_no_steps) warn"
        and rs: "list_all (\<lambda>ev. (\<exists>j. ev = Callback_hook j on_train_epoch_end) \<or>
                        (resolve_evaluate_every_n_epochs (snd r) \<noteq> None \<and> ev = Evaluate)) rest"
        by blast
      from wn P4 have "list_all P warn" by (induction warn) auto
      with e1 e2 r4 sh have
        "fst (outcome_run res) = fst r @ (evs1 @ evs2 @ warn) @ (Unit_hook on_train_epoch_end # rest) \<and>
         list_all P (evs1 @ evs2 @ warn)" by simp
      with rs show ?thesis by blast
    qed
  qed
qed

lemma takeWhile_parts:
  assumes "list_all (\<lambda>ev. ev \<noteq> a) pre" and "post = [] \<or> (\<exists>rest. post = a # rest)"
  shows "takeWhile (\<lambda>ev. ev \<noteq> a) (pre @ post) = pre"
    and "dropWhile (\<lambda>ev. ev \<noteq> a) (pre @ post) = post"
  using assms by (induction pre) auto

text \<open>
  C10. Construction of a PhaseState accepts 0 for both cadences whenever it accepts the
  other arguments. In the train epoch routine a cadence of 0 resolves to the same value as
  an unset one (\<open>None\<close>), and with a cadence of 0 or unset no evaluation runs: none in the
  step loop for the step cadence, none at the end of the epoch for the epoch cadence, and
  none in the whole routine when both are 0 or unset. For a call of the epoch routine
  itself, whatever the other cadence is: with a step cadence of 0 or unset it records no
  evaluation before the \<open>on_train_epoch_end\<close> hook of the unit, and with an epoch cadence
  of 0 or unset it records none from that hook on.
\<close>

theorem zero_cadence_never_evaluates:
  assumes "eval_state w = Some es"
  shows "(PhaseState_init dl p m_epochs m_steps m_spe None None = Inr ps \<longrightarrow>
          PhaseState_init dl p m_epochs m_steps m_spe (Some 0) (Some 0) =
            Inr (ps\<lparr>evaluate_every_n_steps := Some 0, evaluate_every_n_epochs := Some 0\<rparr>)) \<and>
         (evaluate_every_n_steps es = Some 0 \<or> evaluate_every_n_steps es = None \<longrightarrow>
            resolve_evaluate_every_n_steps w = None \<and>
            (train_step_loop fuel u cbs evl (resolve_evaluate_every_n_steps w) data_iter r = Some res \<longrightarrow>
               logs (\<lambda>ev. ev \<noteq> Evaluate) r res)) \<and>
         (evaluate_every_n_epochs es = Some 0 \<or> evaluate_every_n_epochs es = None \<longrightarrow>
            resolve_evaluate_every_n_epochs w = None \<and>
            logs (\<lambda>ev. ev \<noteq> Evaluate) r
              (finish_train_epoch u cbs evl (resolve_evaluate_every_n_epochs w) prior prev r)) \<and>
         ((evaluate_every_n_steps es = Some 0 \<or> evaluate_every_n_steps es = None) \<and>
          (evaluate_every_n_epochs es = Some 0 \<or> evaluate_every_n_epochs es = None) \<and>
          train_epoch_impl fuel u cbs evl (tr, w) = Some res' \<longrightarrow>
            logs (\<lambda>ev. ev \<noteq> Evaluate) (tr, w) res') \<and>
         ((evaluate_every_n_steps es = Some 0 \<or> evaluate_every_n_steps es = None) \<and>
          train_epoch_impl fuel u cbs evl (tr, w) = Some res' \<longrightarrow>
            Evaluate \<notin> set (takeWhile (\<lambda>ev. ev \<noteq> Unit_hook on_train_epoch_end)
                              (drop (length tr) (fst (outcome_run res'))))) \<and>
         ((evaluate_every_n_epochs es = Some 0 \<or> evaluate_every_n_epochs es = None) \<and>
          train_epoch_impl fuel u cbs evl (tr, w) = Some res' \<longrightarrow>
            Evaluate \<notin> set (dropWhile (\<lambda>ev. ev \<noteq> Unit_hook on_train_epoch_end)
                              (drop (length tr) (fst (outcome_run res')))))"
proof (intro conjI impI)
  assume "PhaseState_init dl p m_epochs m_steps m_spe None None = Inr ps"
  then show "PhaseState_init dl p m_epochs m_steps m_spe (Some 0) (Some 0) =
            Inr (ps\<lparr>evaluate_every_n_steps := Some 0, evaluate_every_n_epochs := Some 0\<rparr>)"
    by (auto simp: PhaseState_init_def check_loop_condition_def split: sum.splits option.splits if_splits)
next
  assume z: "evaluate_every_n_steps es = Some 0 \<or> evaluate_every_n_steps es = None"
  then show n: "resolve_evaluate_every_n_steps w = None"
    using assms by (simp add: resolve_evaluate_every_n_steps_def truthy_zero)
  assume "train_step_loop fuel u cbs evl (resolve_evaluate_every_n_steps w) data_iter r = Some res"
  then show "logs (\<lambda>ev. ev \<noteq> Evaluate) r res"
    unfolding n by (rule train_step_loop_logs[rotated]) (simp add: not_Evaluate_step)
next
  assume z: "evaluate_every_n_epochs es = Some 0 \<or> evaluate_every_n_epochs es = None"
  then show n: "resolve_evaluate_every_n_epochs w = None"
    using assms by (simp add: resolve_evaluate_every_n_epochs_def truthy_zero)
  show "logs (\<lambda>ev. ev \<noteq> Evaluate) r
          (finish_train_epoch u cbs evl (resolve_evaluate_every_n_epochs w) prior prev r)"
    unfolding n by (rule finish_train_epoch_logs) (simp add: not_Evaluate_epoch)
next
  assume a: "(evaluate_every_n_steps es = Some 0 \<or> evaluate_every_n_steps es = None) \<and>
          (evaluate_every_n_epochs es = Some 0 \<or> evaluate_every_n_epochs es = None) \<and>
          train_epoch_impl fuel u cbs evl (tr, w) = Some res'"
  then have ks: "resolve_evaluate_every_n_steps w = None"
    and ke: "resolve_evaluate_every_n_epochs w = None"
    using assms
    by (simp_all add: resolve_evaluate_every_n_steps_def resolve_evaluate_every_n_epochs_def truthy_zero)
  from a have run: "train_epoch_impl fuel u cbs evl (tr, w) = Some res'" by simp
  show "logs (\<lambda>ev. ev \<noteq> Evaluate) (tr, w) res'"
    by (rule train_epoch_impl_logs[OF run]) (simp add: ks ke not_Evaluate_epoch)
next
  let ?P = "\<lambda>ev. ev \<noteq> Unit_hook on_train_epoch_end \<and> ev \<noteq> Evaluate"
  assume a: "(evaluate_every_n_steps es = Some 0 \<or> evaluate_every_n_steps es = None) \<and>
          train_epoch_impl fuel u cbs evl (tr, w) = Some res'"
  then have ks: "resolve_evaluate_every_n_steps w = None"
    using assms by (simp add: resolve_evaluate_every_n_steps_def truthy_zero)
  from a have run: "train_epoch_impl fuel u cbs evl (tr, w) = Some res'" by simp
  have "\<exists>pre post. fst (outcome_run res') = fst (tr, w) @ pre @ post \<and> list_all ?P pre \<and>
     (post = [] \<or>
      (\<exists>rest. post = Unit_hook on_train_epoch_end # rest \<and>
         list_all (\<lambda>ev. (\<exists>j. ev = Callback_hook j on_train_epoch_end) \<or>
                        (resolve_evaluate_every_n_epochs (snd (tr, w)) \<noteq> None \<and> ev = Evaluate)) rest))"
    by (rule train_epoch_impl_trace_parts[OF run])
       (simp_all add: ks not_Evaluate_step step_loop_event_not_epoch_end)
  then obtain pre post where t: "fst (outcome_run res') = tr @ pre @ post"
    and pre: "list_all ?P pre"
    and post: "post = [] \<or> (\<exists>rest. post = Unit_hook on_train_epoch_end # rest)"
    by auto
  from pre have p1: "list_all (\<lambda>ev. ev \<noteq> Unit_hook on_train_epoch_end) pre"
    and p2: "Evaluate \<notin> set pre"
    by (auto simp: list_all_iff)
  from t have "drop (length tr) (fst (outcome_run res')) = pre @ post" by simp
  with takeWhile_parts(1)[OF p1 post] p2
  show "Evaluate \<notin> set (takeWhile (\<lambda>ev. ev \<noteq> Unit_hook on_train_epoch_end)
                              (drop (length tr) (fst (outcome_run res'))))"
    by simp
next
  let ?P = "\<lambda>ev. ev \<noteq> Unit_hook on_train_epoch_end"
  assume a: "(evaluate_every_n_epochs es = Some 0 \<or> evaluate_every_n_epochs es = None) \<and>
          train_epoch_impl fuel u cbs evl (tr, w) = Some res'"
  then have ke: "resolve_evaluate_every_n_epochs w = None"
    using assms by (simp add: resolve_evaluate_every_n_epochs_def truthy_zero)
  from a have run: "train_epoch_impl fuel u cbs evl (tr, w) = Some res'" by simp
  have "\<exists>pre post. fst (outcome_run res') = fst (tr, w) @ pre @ post \<and> list_all ?P pre \<and>
     (post = [] \<or>
      (\<exists>rest. post = Unit_hook on_train_epoch_end # rest \<and>
         list_all (\<lambda>ev. (\<exists>j. ev = Callback_hook j on_train_epoch_end) \<or>
                        (resolve_evaluate_every_n_epochs (snd (tr, w)) \<noteq> None \<and> ev = Evaluate)) rest))"
    by (rule train_epoch_impl_trace_parts[OF run])
       (simp_all add: step_loop_event_not_epoch_end)
  then obtain pre post where t: "fst (outcome_run res') = tr @ pre @ post"
    and pre: "list_all ?P pre"
    and post: "post = [] \<or> (\<exists>rest. post = Unit_hook on_train_epoch_end # rest \<and>
         list_all (\<lambda>ev. \<exists>j. ev = Callback_hook j on_train_epoch_end) rest)"
    using ke by auto
  from post have post': "post = [] \<or> (\<exists>rest. post = Unit_hook on_train_epoch_end # rest)"
    and ne: "Evaluate \<notin> set post"
    by (auto simp: list_all_iff)
  from t have "drop (length tr) (fst (outcome_run res')) = pre @ post" by simp
  with takeWhile_parts(2)[OF pre post'] ne
  show "Evaluate \<notin> set (dropWhile (\<lambda>ev. ev \<noteq> Unit_hook on_train_epoch_end)
                              (drop (length tr) (fst (outcome_run res'))))"
    by simp
qed


text \<open>
  An epoch over two batches with both cadences 0 records no evaluation; with a step cadence
  of 0 and an epoch cadence of 1 it records one, after the epoch-end hook; with a step
  cadence of 1 and an epoch cadence of 0 it records one after each step and none after the
  epoch-end hook; with both cadences 1 it records one after each step and one at the end.
\<close>

theorem zero_cadence_never_evaluates_witness:
  "eval_state (example_world (Some (example_phase [1, 2])) (Some (eval_phase_every 0))) =
     Some (eval_phase_every 0) \<and>
   evaluate_every_n_steps (eval_phase_every 0) = Some 0 \<and>
   evaluate_every_n_epochs (eval_phase_every 0) = Some 0 \<and>
   PhaseState_init [] None None None None None None = Inr (example_phase []) \<and>
   PhaseState_init [] None None None None (Some 0) (Some 0) = Inr (eval_phase_every 0) \<and>
   map_option raised
     (train_step_loop 3 example_unit [] noop_hook
        (resolve_evaluate_every_n_steps
           (example_world (Some (example_phase [1, 2])) (Some (eval_phase_every 0))))
        [1, 2] ([], example_world (Some (example_phase [1, 2])) (Some (eval_phase_every 0)))) =
     Some None \<and>
   logs (\<lambda>ev. ev \<noteq> Evaluate)
     ([], example_world (Some (example_phase [1, 2])) (Some (eval_phase_every 0)))
     (the (train_step_loop 3 example_unit [] noop_hook
        (resolve_evaluate_every_n_steps
           (example_world (Some (example_phase [1, 2])) (Some (eval_phase_every 0))))
        [1, 2] ([], example_world (Some (example_phase [1, 2])) (Some (eval_phase_every 0))))) \<and>
   map_option (fst \<circ> outcome_run)
     (train_epoch_impl 3 example_unit [] noop_hook
        ([], example_world (Some (example_phase [1, 2])) (Some (eval_phase_every 0)))) =
     Some [Unit_hook on_train_epoch_start, Train_step, Train_step, Unit_hook on_train_epoch_end] \<and>
   logs (\<lambda>ev. ev \<noteq> Evaluate)
     ([], example_world (Some (example_phase [1, 2])) (Some (eval_phase_every 0)))
     (the (train_epoch_impl 3 example_unit [] noop_hook
        ([], example_world (Some (example_phase [1, 2])) (Some (eval_phase_every 0))))) \<and>
   map_option (fst \<circ> outcome_run)
     (train_epoch_impl 3 example_unit [] noop_hook
        ([], example_world (Some (example_phase [1, 2])) (Some (eval_phase_every 1)))) =
     Some [Unit_hook on_train_epoch_start, Train_step, Evaluate, Train_step, Evaluate,
           Unit_hook on_train_epoch_end, Evaluate] \<and>
   evaluate_every_n_steps (eval_phase_with (Some 0) (Some 1)) = Some 0 \<and>
   map_option (fst \<circ> outcome_run)
     (train_epoch_impl 3 example_unit [] noop_hook
        ([], example_world (Some (example_phase [1, 2])) (Some (eval_phase_with (Some 0) (Some 1))))) =
     Some [Unit_hook on_train_epoch_start, Train_step, Train_step,
           Unit_hook on_train_epoch_end, Evaluate] \<and>
   Evaluate \<notin> set (takeWhile (\<lambda>ev. ev \<noteq> Unit_hook on_train_epoch_end)
     (drop (length ([] :: event list)) (fst (outcome_run
        (the (train_epoch_impl 3 example_unit [] noop_hook
           ([], example_world (Some (example_phase [1, 2]))
                  (Some (eval_phase_with (Some 0) (Some 1)))))))))) \<and>
   evaluate_every_n_epochs (eval_phase_with (Some 1) (Some 0)) = Some 0 \<and>
   map_option (fst \<circ> outcome_run)
     (train_epoch_impl 3 example_unit [] noop_hook
        ([], example_world (Some (example_phase [1, 2])) (Some (eval_phase_with (Some 1) (Some 0))))) =
     Some [Unit_hook on_train_epoch_start, Train_step, Evaluate, Train_step, Evaluate,
           Unit_hook on_train_epoch_end] \<and>
   Evaluate \<notin> set (dropWhile (\<lambda>ev. ev \<noteq> Unit_hook on_train_epoch_end)
     (drop (length ([] :: event list)) (fst (outcome_run
        (the (train_epoch_impl 3 example_unit [] noop_hook
           ([], example_world (Some (example_phase [1, 2]))
                  (Some (eval_phase_with (Some 1) (Some 0))))))))))"
proof -
  let ?w = "example_world (Some (example_phase [1, 2])) (Some (eval_phase_every 0))"
  let ?ws = "example_world (Some (example_phase [1, 2])) (Some (eval_phase_with (Some 0) (Some 1)))"
  let ?we = "example_world (Some (example_phase [1, 2])) (Some (eval_phase_with (Some 1) (Some 0)))"
  let ?l = "train_step_loop 3 example_unit [] noop_hook (resolve_evaluate_every_n_steps ?w)
              [1, 2] ([], ?w)"
  let ?x = "train_epoch_impl 3 example_unit [] noop_hook ([], ?w)"
  let ?xs = "train_epoch_impl 3 example_unit [] noop_hook ([], ?ws)"
  let ?xe = "train_epoch_impl 3 example_unit [] noop_hook ([], ?we)"
  have es: "eval_state ?w = Some (eval_phase_every 0)" by (simp add: example_world_def)
  have ess: "eval_state ?ws = Some (eval_phase_with (Some 0) (Some 1))"
    by (simp add: example_world_def)
  have ese: "eval_state ?we = Some (eval_phase_with (Some 1) (Some 0))"
    by (simp add: example_world_def)
  have z1: "evaluate_every_n_steps (eval_phase_every 0) = Some 0"
    and z2: "evaluate_every_n_epochs (eval_phase_every 0) = Some 0"
    by (simp_all add: eval_phase_every_def)
  have zs: "evaluate_every_n_steps (eval_phase_with (Some 0) (Some 1)) = Some 0"
    and ze: "evaluate_every_n_epochs (eval_phase_with (Some 1) (Some 0)) = Some 0"
    by (simp_all add: eval_phase_with_def)
  have i0: "PhaseState_init [] None None None None None None = Inr (example_phase [])"
    by (simp add: PhaseState_init_def check_loop_condition_def example_phase_def)
  have al: "map_option raised ?l = Some None" by code_simp
  have ax: "map_option raised ?x = Some None" by code_simp
  have axs: "map_option raised ?xs = Some None" by code_simp
  have axe: "map_option raised ?xe = Some None" by code_simp
  have bx: "map_option (fst \<circ> outcome_run) ?x =
     Some [Unit_hook on_train_epoch_start, Train_step, Train_step, Unit_hook on_train_epoch_end]"
    by code_simp
  have cx: "map_option (fst \<circ> outcome_run)
     (train_epoch_impl 3 example_unit [] noop_hook
        ([], example_world (Some (example_phase [1, 2])) (Some (eval_phase_every 1)))) =
     Some [Unit_hook on_train_epoch_start, Train_step, Evaluate, Train_step, Evaluate,
           Unit_hook on_train_epoch_end, Evaluate]"
    by code_simp
  have bxs: "map_option (fst \<circ> outcome_run) ?xs =
     Some [Unit_hook on_train_epoch_start, Train_step, Train_step,
           Unit_hook on_train_epoch_end, Evaluate]"
    by code_simp
  have bxe: "map_option (fst \<circ> outcome_run) ?xe =
     Some [Unit_hook on_train_epoch_start, Train_step, Evaluate, Train_step, Evaluate,
           Unit_hook on_train_epoch_end]"
    by code_simp
  note inst = zero_cadence_never_evaluates[OF es, of "[]" None None None None "example_phase []"
      3 example_unit "[]" noop_hook "[1, 2]" "([], ?w)" "the ?l" Map.empty 0 "[]" "the ?x"]
  from inst i0 have i1: "PhaseState_init [] None None None None (Some 0) (Some 0) =
      Inr (eval_phase_every 0)"
    by (simp add: eval_phase_every_def)
  from inst z1 raised_Some_run[OF al]
  have ll: "logs (\<lambda>ev. ev \<noteq> Evaluate) ([], ?w) (the ?l)" by blast
  from inst z1 z2 raised_Some_run[OF ax]
  have lx: "logs (\<lambda>ev. ev \<noteq> Evaluate) ([], ?w) (the ?x)" by blast
  note insts = zero_cadence_never_evaluates[OF ess, of "[]" None None None None "example_phase []"
      3 example_unit "[]" noop_hook "[1, 2]" "([], ?ws)" "the ?l" Map.empty 0 "[]" "the ?xs",
      THEN conjunct2, THEN conjunct2, THEN conjunct2, THEN conjunct2, THEN conjunct1]
  from insts zs raised_Some_run[OF axs]
  have ts: "Evaluate \<notin> set (takeWhile (\<lambda>ev. ev \<noteq> Unit_hook on_train_epoch_end)
     (drop (length ([] :: event list)) (fst (outcome_run (the ?xs)))))" by blast
  note inste = zero_cadence_never_evaluates[OF ese, of "[]" None None None None "example_phase []"
      3 example_unit "[]" noop_hook "[1, 2]" "([], ?we)" "the ?l" Map.empty 0 "[]" "the ?xe",
      THEN conjunct2, THEN conjunct2, THEN conjunct2, THEN conjunct2, THEN conjunct2]
  from inste ze raised_Some_run[OF axe]
  have te: "Evaluate \<notin> set (dropWhile (\<lambda>ev. ev \<noteq> Unit_hook on_train_epoch_end)
     (drop (length ([] :: event list)) (fst (outcome_run (the ?xe)))))" by blast
  show ?thesis
    by (intro conjI) (rule es z1 z2 i0 i1 al ll bx lx cx zs bxs ts ze bxe te)+
qed

section \<open>C3: the stop flag\<close>

lemma never_sets_same: "should_stop w' = should_stop w \<Longrightarrow> never_sets w w'"
  by (simp add: never_sets_def)

lemma never_sets_trans: "never_sets a b \<Longrightarrow> never_sets b c \<Longrightarrow> never_sets a c"
  by (simp add: never_sets_def)

lemma step_loop_keeps_never_sets: "step_loop_keeps never_sets"
proof -
  have "\<And>w x. never_sets w (update_train_state (\<lambda>ts. ts\<lparr>step_output := x\<rparr>) w)"
    by (rule never_sets_same) (simp add: update_train_state_def)
  moreover have "\<And>w. never_sets w (update_train_progress increment_step w)"
    by (rule never_sets_same) (simp add: update_train_progress_def update_train_state_def)
  moreover have "\<And>w. never_sets w w" by (rule never_sets_same) simp
  ultimately show ?thesis
    unfolding step_loop_keeps_def using never_sets_trans by blast
qed

lemma driver_keeps_never_sets: "driver_keeps never_sets"
proof -
  have "\<And>w. never_sets w (update_train_progress increment_epoch w)"
    by (rule never_sets_same) (simp add: update_train_progress_def update_train_state_def)
  moreover have "\<And>w f. never_sets w (w\<lparr>training := f\<rparr>)" by (rule never_sets_same) simp
  moreover have "\<And>w a. never_sets w (w\<lparr>active_phase := a\<rparr>)" by (rule never_sets_same) simp
  moreover have "\<And>w e. never_sets w (w\<lparr>entry_point := e\<rparr>)" by (rule never_sets_same) simp
  ultimately show ?thesis
    unfolding driver_keeps_def using step_loop_keeps_never_sets by blast
qed

lemma train_epoch_respects:
  assumes d: "driver_keeps R" and uc: "user_code_respects R u (callbacks_or_empty callbacks) evl"
    and run: "train_epoch fuel u callbacks evl r = Some res"
  shows "R (snd r) (snd (outcome_run res))"
proof -
  note kl = driver_keeps_loop[OF d]
  note tr = step_loop_keeps_trans[OF kl]
  note rf = step_loop_keeps_refl[OF kl]
  let ?cbs = "callbacks_or_empty callbacks"
  let ?r0 = "(fst r, (snd r)\<lparr>entry_point := EntryPoint_TRAIN\<rparr>)"
  have r0: "R (snd r) (snd ?r0)" using driver_keeps_entry[OF d] by simp
  from run obtain res1 where i: "train_epoch_checked fuel u ?cbs evl r = Some res1"
    by (cases "train_epoch_checked fuel u ?cbs evl r") (auto simp: train_epoch_def Let_def)
  have a: "R (snd r) (snd (outcome_run res1))"
  proof (cases "train_epoch_impl fuel u ?cbs evl ?r0 = Some res1")
    case True
    show ?thesis by (rule tr[OF r0 train_epoch_impl_respects[OF d uc True]])
  next
    case False
    with i have "snd (outcome_run res1) = snd r"
      by (auto simp: train_epoch_checked_def split: option.splits if_splits)
    with rf show ?thesis by simp
  qed
  show ?thesis
  proof (cases res1)
    case (Inr r')
    with run i have "res = Inr r'" by (simp add: train_epoch_def Let_def)
    with a Inr show ?thesis by simp
  next
    case (Inl x)
    obtain e r' where x: "x = (e, r')" by (cases x)
    with run i Inl have "res = handle_exception u ?cbs e r'" by (simp add: train_epoch_def Let_def)
    moreover from a Inl x have "R (snd r) (snd r')" by simp
    ultimately show ?thesis using tr[OF _ handle_exception_respects[OF d uc]] by simp
  qed
qed

lemma train_step_body_iterator_Inr:
  assumes "train_step u = Iterator_step g"
    and "run_callback_fn cbs on_train_step_start r = Inr r1"
    and "g (snd r1) data_iter = (Inr (out, w2), rest)"
  shows "train_step_body u cbs evl k data_iter r =
           (finish_train_step cbs evl k out (fst r1 @ [Train_step], w2), rest)"
  using assms by (simp add: train_step_body_def)

text \<open>What follows a step that returned, in either mode of the step.\<close>

lemma step_in_flight_completes:
  assumes fin: "finish_train_step cbs evl k out (fst r1 @ [Train_step], w2) = Inr r'"
    and ts: "train_state w2 \<noteq> None"
    and uc: "user_code_respects keeps_steps u cbs evl"
    and ul: "user_code_respects latch u cbs evl"
  shows "num_steps_completed (train_progress (snd r')) = num_steps_completed (train_progress w2) + 1 \<and>
      (\<exists>evs. fst r' = fst r1 @ Train_step # callback_events cbs on_train_step_end @ evs \<and>
             (evs = [] \<or> evs = [Evaluate])) \<and>
      (should_stop w2 \<longrightarrow> should_stop (snd r'))"
proof -
  let ?r2 = "(fst r1 @ [Train_step], w2)"
  from ts have ts': "train_state (snd ?r2) \<noteq> None" by simp
  from finish_train_step_counts[OF ts' uc fin]
  have a: "num_steps_completed (train_progress (snd r')) = num_steps_completed (train_progress w2) + 1"
    and b: "\<exists>evs. fst r' = fst r1 @ Train_step # callback_events cbs on_train_step_end @ evs \<and>
             (evs = [] \<or> evs = [Evaluate])"
    by simp_all
  have "latch w2 (snd r')"
    using finish_train_step_respects[OF step_loop_keeps_latch ul, of ?r2 k out] fin by simp
  then have c: "should_stop w2 \<longrightarrow> should_stop (snd r')" by (simp add: latch_def)
  from a b c show ?thesis by blast
qed

text \<open>
  C3. \<open>should_stop\<close> is false in a new State; \<open>stop\<close> sets it and a second \<open>stop\<close> changes
  nothing. When user code only ever sets the flag (it has \<open>stop\<close> and no way to clear it),
  a flag that is set at the start of \<open>train\<close>, of \<open>train_epoch\<close> or of the epoch routine
  is still set when that ends: the driver never clears it. The step loop and the epoch loop test the flag
  before each iteration and return at once when it is set. When the flag is set during
  an iteration of the step loop, that iteration is finished and the loop returns right
  after it: a step that returned with the flag set is still counted and still reported
  to the \<open>on_train_step_end\<close> callbacks (and followed by the interleaved evaluation, if due),
  whether the step takes a batch or the data iterator. The driver never sets the flag
  either: when user code does not set it, a flag that is unset at the start of \<open>train\<close>,
  of \<open>train_epoch\<close> or of the epoch routine is still unset when that ends, however it ends.
\<close>

theorem should_stop_latch:
  "\<not> should_stop (State_init ep ts es ps) \<and>
   should_stop (stop (s :: world)) \<and> stop (stop s) = stop s \<and>
   (user_code_respects latch u (callbacks_or_empty callbacks) evl \<and>
    train fuel u callbacks evl r = Some res \<and> should_stop (snd r) \<longrightarrow>
      should_stop (snd (outcome_run res))) \<and>
   (user_code_respects latch u cbs evl \<and>
    train_epoch_impl fuel u cbs evl r = Some res \<and> should_stop (snd r) \<longrightarrow>
      should_stop (snd (outcome_run res))) \<and>
   (should_stop (snd r) \<longrightarrow>
      train_step_loop (Suc n) u cbs evl k data_iter r = Some (Inr r) \<and>
      train_epochs_loop (Suc n) fuel u cbs evl r = Some (Inr r)) \<and>
   (\<not> (should_stop (snd r) \<or>
       is_epoch_done (train_progress (snd r))
         (max_steps_per_epoch (the (train_state (snd r))))
         (max_steps (the (train_state (snd r))))) \<and>
    train_step_body u cbs evl k data_iter r = (Inr r', rest) \<and> should_stop (snd r') \<longrightarrow>
      train_step_loop (Suc (Suc n)) u cbs evl k data_iter r = Some (Inr r')) \<and>
   (train_step u = Batch_step f \<and>
    run_callback_fn cbs on_train_step_start r = Inr r1 \<and>
    f (snd r1) b = Inr (out, w2) \<and> train_state w2 \<noteq> None \<and>
    user_code_respects keeps_steps u cbs evl \<and> user_code_respects latch u cbs evl \<and>
    train_step_body u cbs evl k (b # rest) r = (Inr r', rest') \<longrightarrow>
      num_steps_completed (train_progress (snd r')) = num_steps_completed (train_progress w2) + 1 \<and>
      (\<exists>evs. fst r' = fst r1 @ Train_step # callback_events cbs on_train_step_end @ evs \<and>
             (evs = [] \<or> evs = [Evaluate])) \<and>
      (should_stop w2 \<longrightarrow> should_stop (snd r'))) \<and>
   (train_step u = Iterator_step g \<and>
    run_callback_fn cbs on_train_step_start r = Inr r1 \<and>
    g (snd r1) data_iter = (Inr (out, w2), rest) \<and> train_state w2 \<noteq> None \<and>
    user_code_respects keeps_steps u cbs evl \<and> user_code_respects latch u cbs evl \<and>
    train_step_body u cbs evl k data_iter r = (Inr r', rest') \<longrightarrow>
      num_steps_completed (train_progress (snd r')) = num_steps_completed (train_progress w2) + 1 \<and>
      (\<exists>evs. fst r' = fst r1 @ Train_step # callback_events cbs on_train_step_end @ evs \<and>
             (evs = [] \<or> evs = [Evaluate])) \<and>
      (should_stop w2 \<longrightarrow> should_stop (snd r'))) \<and>
   (user_code_respects never_sets u (callbacks_or_empty callbacks) evl \<and>
    train fuel u callbacks evl r = Some res \<and> \<not> should_stop (snd r) \<longrightarrow>
      \<not> should_stop (snd (outcome_run res))) \<and>
   (user_code_respects never_sets u cbs evl \<and>
    train_epoch_impl fuel u cbs evl r = Some res \<and> \<not> should_stop (snd r) \<longrightarrow>
      \<not> should_stop (snd (outcome_run res))) \<and>
   (user_code_respects latch u (callbacks_or_empty callbacks) evl \<and>
    train_epoch fuel u callbacks evl r = Some res \<and> should_stop (snd r) \<longrightarrow>
      should_stop (snd (outcome_run res))) \<and>
   (user_code_respects never_sets u (callbacks_or_empty callbacks) evl \<and>
    train_epoch fuel u callbacks evl r = Some res \<and> \<not> should_stop (snd r) \<longrightarrow>
      \<not> should_stop (snd (outcome_run res)))"
proof (intro conjI)
  show "\<not> should_stop (State_init ep ts es ps)" by (simp add: State_init_def)
  show "should_stop (stop s)" by (simp add: stop_def)
  show "stop (stop s) = stop s" by (simp add: stop_def)
next
  show "user_code_respects latch u (callbacks_or_empty callbacks) evl \<and>
    train fuel u callbacks evl r = Some res \<and> should_stop (snd r) \<longrightarrow>
      should_stop (snd (outcome_run res))"
  proof
    assume a: "user_code_respects latch u (callbacks_or_empty callbacks) evl \<and>
      train fuel u callbacks evl r = Some res \<and> should_stop (snd r)"
    then have "latch (snd r) (snd (outcome_run res))"
      using train_respects[OF driver_keeps_latch] by blast
    with a show "should_stop (snd (outcome_run res))" by (simp add: latch_def)
  qed
next
  show "user_code_respects latch u cbs evl \<and>
    train_epoch_impl fuel u cbs evl r = Some res \<and> should_stop (snd r) \<longrightarrow>
      should_stop (snd (outcome_run res))"
  proof
    assume a: "user_code_respects latch u cbs evl \<and>
      train_epoch_impl fuel u cbs evl r = Some res \<and> should_stop (snd r)"
    then have "latch (snd r) (snd (outcome_run res))"
      using train_epoch_impl_respects[OF driver_keeps_latch] by blast
    with a show "should_stop (snd (outcome_run res))" by (simp add: latch_def)
  qed
next
  show "should_stop (snd r) \<longrightarrow>
      train_step_loop (Suc n) u cbs evl k data_iter r = Some (Inr r) \<and>
      train_epochs_loop (Suc n) fuel u cbs evl r = Some (Inr r)"
    by simp
next
  show "\<not> (should_stop (snd r) \<or>
       is_epoch_done (train_progress (snd r))
         (max_steps_per_epoch (the (train_state (snd r))))
         (max_steps (the (train_state (snd r))))) \<and>
    train_step_body u cbs evl k data_iter r = (Inr r', rest) \<and> should_stop (snd r') \<longrightarrow>
      train_step_loop (Suc (Suc n)) u cbs evl k data_iter r = Some (Inr r')"
    by simp
next
  show "train_step u = Batch_step f \<and>
    run_callback_fn cbs on_train_step_start r = Inr r1 \<and>
    f (snd r1) b = Inr (out, w2) \<and> train_state w2 \<noteq> None \<and>
    user_code_respects keeps_steps u cbs evl \<and> user_code_respects latch u cbs evl \<and>
    train_step_body u cbs evl k (b # rest) r = (Inr r', rest') \<longrightarrow>
      num_steps_completed (train_progress (snd r')) = num_steps_completed (train_progress w2) + 1 \<and>
      (\<exists>evs. fst r' = fst r1 @ Train_step # callback_events cbs on_train_step_end @ evs \<and>
             (evs = [] \<or> evs = [Evaluate])) \<and>
      (should_stop w2 \<longrightarrow> should_stop (snd r'))"
  proof
    assume a: "train_step u = Batch_step f \<and>
      run_callback_fn cbs on_train_step_start r = Inr r1 \<and>
      f (snd r1) b = Inr (out, w2) \<and> train_state w2 \<noteq> None \<and>
      user_code_respects keeps_steps u cbs evl \<and> user_code_respects latch u cbs evl \<and>
      train_step_body u cbs evl k (b # rest) r = (Inr r', rest')"
    then have fin: "finish_train_step cbs evl k out (fst r1 @ [Train_step], w2) = Inr r'"
      using train_step_body_batch_Inr[of u f cbs r r1 b out w2 evl k rest] by simp
    from a have ts: "train_state w2 \<noteq> None"
      and uc: "user_code_respects keeps_steps u cbs evl"
      and ul: "user_code_respects latch u cbs evl" by simp_all
    show "num_steps_completed (train_progress (snd r')) = num_steps_completed (train_progress w2) + 1 \<and>
      (\<exists>evs. fst r' = fst r1 @ Train_step # callback_events cbs on_train_step_end @ evs \<and>
             (evs = [] \<or> evs = [Evaluate])) \<and>
      (should_stop w2 \<longrightarrow> should_stop (snd r'))"
      by (rule step_in_flight_completes[OF fin ts uc ul])
  qed
next
  show "train_step u = Iterator_step g \<and>
    run_callback_fn cbs on_train_step_start r = Inr r1 \<and>
    g (snd r1) data_iter = (Inr (out, w2), rest) \<and> train_state w2 \<noteq> None \<and>
    user_code_respects keeps_steps u cbs evl \<and> user_code_respects latch u cbs evl \<and>
    train_step_body u cbs evl k data_iter r = (Inr r', rest') \<longrightarrow>
      num_steps_completed (train_progress (snd r')) = num_steps_completed (train_progress w2) + 1 \<and>
      (\<exists>evs. fst r' = fst r1 @ Train_step # callback_events cbs on_train_step_end @ evs \<and>
             (evs = [] \<or> evs = [Evaluate])) \<and>
      (should_stop w2 \<longrightarrow> should_stop (snd r'))"
  proof
    assume a: "train_step u = Iterator_step g \<and>
      run_callback_fn cbs on_train_step_start r = Inr r1 \<and>
      g (snd r1) data_iter = (Inr (out, w2), rest) \<and> train_state w2 \<noteq> None \<and>
      user_code_respects keeps_steps u cbs evl \<and> user_code_respects latch u cbs evl \<and>
      train_step_body u cbs evl k data_iter r = (Inr r', rest')"
    then have fin: "finish_train_step cbs evl k out (fst r1 @ [Train_step], w2) = Inr r'"
      using train_step_body_iterator_Inr[of u g cbs r r1 data_iter out w2 rest evl k] by simp
    from a have ts: "train_state w2 \<noteq> None"
      and uc: "user_code_respects keeps_steps u cbs evl"
      and ul: "user_code_respects latch u cbs evl" by simp_all
    show "num_steps_completed (train_progress (snd r')) = num_steps_completed (train_progress w2) + 1 \<and>
      (\<exists>evs. fst r' = fst r1 @ Train_step # callback_events cbs on_train_step_end @ evs \<and>
             (evs = [] \<or> evs = [Evaluate])) \<and>
      (should_stop w2 \<longrightarrow> should_stop (snd r'))"
      by (rule step_in_flight_completes[OF fin ts uc ul])
  qed
next
  show "user_code_respects never_sets u (callbacks_or_empty callbacks) evl \<and>
    train fuel u callbacks evl r = Some res \<and> \<not> should_stop (snd r) \<longrightarrow>
      \<not> should_stop (snd (outcome_run res))"
  proof
    assume a: "user_code_respects never_sets u (callbacks_or_empty callbacks) evl \<and>
      train fuel u callbacks evl r = Some res \<and> \<not> should_stop (snd r)"
    then have "never_sets (snd r) (snd (outcome_run res))"
      using train_respects[OF driver_keeps_never_sets] by blast
    with a show "\<not> should_stop (snd (outcome_run res))" by (simp add: never_sets_def)
  qed
next
  show "user_code_respects never_sets u cbs evl \<and>
    train_epoch_impl fuel u cbs evl r = Some res \<and> \<not> should_stop (snd r) \<longrightarrow>
      \<not> should_stop (snd (outcome_run res))"
  proof
    assume a: "user_code_respects never_sets u cbs evl \<and>
      train_epoch_impl fuel u cbs evl r = Some res \<and> \<not> should_stop (snd r)"
    then have "never_sets (snd r) (snd (outcome_run res))"
      using train_epoch_impl_respects[OF driver_keeps_never_sets] by blast
    with a show "\<not> should_stop (snd (outcome_run res))" by (simp add: never_sets_def)
  qed
next
  show "user_code_respects latch u (callbacks_or_empty callbacks) evl \<and>
    train_epoch fuel u callbacks evl r = Some res \<and> should_stop (snd r) \<longrightarrow>
      should_stop (snd (outcome_run res))"
  proof
    assume a: "user_code_respects latch u (callbacks_or_empty callbacks) evl \<and>
      train_epoch fuel u callbacks evl r = Some res \<and> should_stop (snd r)"
    then have "latch (snd r) (snd (outcome_run res))"
      using train_epoch_respects[OF driver_keeps_latch] by blast
    with a show "should_stop (snd (outcome_run res))" by (simp add: latch_def)
  qed
next
  show "user_code_respects never_sets u (callbacks_or_empty callbacks) evl \<and>
    train_epoch fuel u callbacks evl r = Some res \<and> \<not> should_stop (snd r) \<longrightarrow>
      \<not> should_stop (snd (outcome_run res))"
  proof
    assume a: "user_code_respects never_sets u (callbacks_or_empty callbacks) evl \<and>
      train_epoch fuel u callbacks evl r = Some res \<and> \<not> should_stop (snd r)"
    then have "never_sets (snd r) (snd (outcome_run res))"
      using train_epoch_respects[OF driver_keeps_never_sets] by blast
    with a show "\<not> should_stop (snd (outcome_run res))" by (simp add: never_sets_def)
  qed
qed

lemma stopping_iterator_unit_respects:
  assumes "\<And>w. R w w" and "\<And>w. R w (stop w)"
  shows "user_code_respects R stopping_iterator_unit [example_callback] noop_hook"
proof -
  have "step_respects R (train_step stopping_iterator_unit)"
    unfolding step_respects_def
    by (auto simp: stopping_iterator_unit_def example_unit_def assms split: list.splits)
  then show ?thesis
    unfolding user_code_respects_def
    by (simp add: stopping_iterator_unit_def example_unit_def example_callback_def
        hook_respects_noop[of R, OF assms(1)])
qed

text \<open>
  A train run without limits over three batches, with a callback that stops the run at
  the end of each step: the first step is counted and reported, no second step and no
  second epoch begin. The same run entered with the flag already set starts no epoch, and
  so do \<open>train_epoch\<close> and the epoch routine, which runs no step. A unit whose step itself
  stops the run, on a batch and on the data iterator. Runs of one epoch over two batches
  with user code that does nothing: the flag is still unset at the end.
\<close>

theorem should_stop_latch_witness:
  "map_option raised
     (train 5 example_unit (Some [stopping_callback]) noop_hook
        ([], example_world (Some (example_phase [1, 2, 3])) None)) = Some None \<and>
   map_option (fst \<circ> outcome_run)
     (train 5 example_unit (Some [stopping_callback]) noop_hook
        ([], example_world (Some (example_phase [1, 2, 3])) None)) =
     Some [Unit_hook on_train_start, Unit_hook on_train_epoch_start, Train_step,
           Callback_hook 0 on_train_step_end, Unit_hook on_train_epoch_end,
           Unit_hook on_train_end] \<and>
   map_option (num_steps_completed \<circ> train_progress \<circ> snd \<circ> outcome_run)
     (train 5 example_unit (Some [stopping_callback]) noop_hook
        ([], example_world (Some (example_phase [1, 2, 3])) None)) = Some 1 \<and>
   user_code_respects latch example_unit (callbacks_or_empty (Some [stopping_callback])) noop_hook \<and>
   should_stop (snd ([] :: event list, stop (example_world (Some (example_phase [1, 2, 3])) None))) \<and>
   map_option (fst \<circ> outcome_run)
     (train 5 example_unit (Some [stopping_callback]) noop_hook
        ([], stop (example_world (Some (example_phase [1, 2, 3])) None))) =
     Some [Unit_hook on_train_start, Unit_hook on_train_end] \<and>
   should_stop (snd (outcome_run (the
     (train 5 example_unit (Some [stopping_callback]) noop_hook
        ([], stop (example_world (Some (example_phase [1, 2, 3])) None)))))) \<and>
   \<not> isl (fst (train_step_body example_unit [stopping_callback] noop_hook None [1, 2, 3]
              ([], example_world (Some (example_phase [1, 2, 3])) None))) \<and>
   should_stop (snd (projr (fst
     (train_step_body example_unit [stopping_callback] noop_hook None [1, 2, 3]
        ([], example_world (Some (example_phase [1, 2, 3])) None))))) \<and>
   train_step_loop (Suc (Suc 0)) example_unit [stopping_callback] noop_hook None [1, 2, 3]
     ([], example_world (Some (example_phase [1, 2, 3])) None) =
     Some (Inr (projr (fst
       (train_step_body example_unit [stopping_callback] noop_hook None [1, 2, 3]
          ([], example_world (Some (example_phase [1, 2, 3])) None))))) \<and>
   user_code_respects keeps_steps stopping_unit [example_callback] noop_hook \<and>
   user_code_respects latch stopping_unit [example_callback] noop_hook \<and>
   num_steps_completed (train_progress (snd (projr (fst
     (train_step_body stopping_unit [example_callback] noop_hook None [1, 2, 3]
        ([], example_world (Some (example_phase [1, 2, 3])) None)))))) =
     num_steps_completed (train_progress (stop (example_world (Some (example_phase [1, 2, 3])) None))) + 1 \<and>
   should_stop (snd (projr (fst
     (train_step_body stopping_unit [example_callback] noop_hook None [1, 2, 3]
        ([], example_world (Some (example_phase [1, 2, 3])) None))))) \<and>
   map_option (fst \<circ> outcome_run)
     (train_epoch_impl 5 example_unit [stopping_callback] noop_hook
        ([], stop (example_world (Some (example_phase [1, 2, 3])) None))) =
     Some [Unit_hook on_train_epoch_start, Warning_no_steps, Unit_hook on_train_epoch_end] \<and>
   should_stop (snd (outcome_run (the
     (train_epoch_impl 5 example_unit [stopping_callback] noop_hook
        ([], stop (example_world (Some (example_phase [1, 2, 3])) None)))))) \<and>
   train_step_loop (Suc 0) example_unit [stopping_callback] noop_hook None [1, 2, 3]
     ([], stop (example_world (Some (example_phase [1, 2, 3])) None)) =
     Some (Inr ([], stop (example_world (Some (example_phase [1, 2, 3])) None))) \<and>
   train_epochs_loop (Suc 0) 5 example_unit [stopping_callback] noop_hook
     ([], stop (example_world (Some (example_phase [1, 2, 3])) None)) =
     Some (Inr ([], stop (example_world (Some (example_phase [1, 2, 3])) None))) \<and>
   user_code_respects keeps_steps stopping_iterator_unit [example_callback] noop_hook \<and>
   user_code_respects latch stopping_iterator_unit [example_callback] noop_hook \<and>
   num_steps_completed (train_progress (snd (projr (fst
     (train_step_body stopping_iterator_unit [example_callback] noop_hook None [1, 2, 3]
        ([], example_world (Some (example_phase [1, 2, 3])) None)))))) =
     num_steps_completed (train_progress (stop (example_world (Some (example_phase [1, 2, 3])) None))) + 1 \<and>
   should_stop (snd (projr (fst
     (train_step_body stopping_iterator_unit [example_callback] noop_hook None [1, 2, 3]
        ([], example_world (Some (example_phase [1, 2, 3])) None))))) \<and>
   map_option (fst \<circ> outcome_run)
     (train 5 stopping_iterator_unit (Some [example_callback]) noop_hook
        ([], example_world (Some (example_phase [1, 2, 3])) None)) =
     Some [Unit_hook on_train_start, Callback_hook 0 on_train_start,
           Unit_hook on_train_epoch_start, Callback_hook 0 on_train_epoch_start,
           Callback_hook 0 on_train_step_start, Train_step, Callback_hook 0 on_train_step_end,
           Unit_hook on_train_epoch_end, Callback_hook 0 on_train_epoch_end,
           Unit_hook on_train_end, Callback_hook 0 on_train_end] \<and>
   user_code_respects never_sets example_unit (callbacks_or_empty (Some [example_callback])) noop_hook \<and>
   \<not> should_stop (snd ([] :: event list,
        example_world (Some ((example_phase [1, 2])\<lparr>max_epochs := Some 1\<rparr>)) None)) \<and>
   map_option (fst \<circ> outcome_run)
     (train 5 example_unit (Some [example_callback]) noop_hook
        ([], example_world (Some ((example_phase [1, 2])\<lparr>max_epochs := Some 1\<rparr>)) None)) =
     Some [Unit_hook on_train_start, Callback_hook 0 on_train_start,
           Unit_hook on_train_epoch_start, Callback_hook 0 on_train_epoch_start,
           Callback_hook 0 on_train_step_start, Train_step, Callback_hook 0 on_train_step_end,
           Callback_hook 0 on_train_step_start, Train_step, Callback_hook 0 on_train_step_end,
           Unit_hook on_train_epoch_end, Callback_hook 0 on_train_epoch_end,
           Unit_hook on_train_end, Callback_hook 0 on_train_end] \<and>
   \<not> should_stop (snd (outcome_run (the
     (train 5 example_unit (Some [example_callback]) noop_hook
        ([], example_world (Some ((example_phase [1, 2])\<lparr>max_epochs := Some 1\<rparr>)) None))))) \<and>
   map_option raised
     (train_epoch 5 example_unit (Some [example_callback]) noop_hook
        ([], example_world (Some ((example_phase [1, 2])\<lparr>max_epochs := Some 1\<rparr>)) None)) =
     Some None \<and>
   \<not> should_stop (snd (outcome_run (the
     (train_epoch 5 example_unit (Some [example_callback]) noop_hook
        ([], example_world (Some ((example_phase [1, 2])\<lparr>max_epochs := Some 1\<rparr>)) None))))) \<and>
   \<not> should_stop (snd (outcome_run (the
     (train_epoch_impl 5 example_unit (callbacks_or_empty (Some [example_callback])) noop_hook
        ([], example_world (Some ((example_phase [1, 2])\<lparr>max_epochs := Some 1\<rparr>)) None))))) \<and>
   map_option (fst \<circ> outcome_run)
     (train_epoch 5 example_unit (Some [stopping_callback]) noop_hook
        ([], stop (example_world (Some ((example_phase [1, 2])\<lparr>max_epochs := Some 1\<rparr>)) None))) =
     Some [Unit_hook on_train_epoch_start, Warning_no_steps, Unit_hook on_train_epoch_end] \<and>
   should_stop (snd (outcome_run (the
     (train_epoch 5 example_unit (Some [stopping_callback]) noop_hook
        ([], stop (example_world (Some ((example_phase [1, 2])\<lparr>max_epochs := Some 1\<rparr>)) None))))))"
proof -
  let ?w = "example_world (Some (example_phase [1, 2, 3])) None"
  let ?v = "example_world (Some ((example_phase [1, 2])\<lparr>max_epochs := Some 1\<rparr>)) None"
  let ?cs = "Some [stopping_callback]"
  let ?ce = "Some [example_callback]"
  let ?x = "train 5 example_unit ?cs noop_hook ([], ?w)"
  let ?y = "train 5 example_unit ?cs noop_hook ([], stop ?w)"
  let ?b = "train_step_body example_unit [stopping_callback] noop_hook None [1, 2, 3] ([], ?w)"
  let ?c = "train_step_body stopping_unit [example_callback] noop_hook None [1, 2, 3] ([], ?w)"
  let ?d = "train_step_body stopping_iterator_unit [example_callback] noop_hook None [1, 2, 3] ([], ?w)"
  let ?i = "train_epoch_impl 5 example_unit [stopping_callback] noop_hook ([], stop ?w)"
  let ?t = "train 5 example_unit ?ce noop_hook ([], ?v)"
  let ?e = "train_epoch 5 example_unit ?ce noop_hook ([], ?v)"
  let ?j = "train_epoch_impl 5 example_unit (callbacks_or_empty ?ce) noop_hook ([], ?v)"
  let ?f = "train_epoch 5 example_unit ?cs noop_hook ([], stop ?v)"
  have x1: "map_option raised ?x = Some None" by code_simp
  have x2: "map_option (fst \<circ> outcome_run) ?x =
     Some [Unit_hook on_train_start, Unit_hook on_train_epoch_start, Train_step,
           Callback_hook 0 on_train_step_end, Unit_hook on_train_epoch_end,
           Unit_hook on_train_end]" by code_simp
  have x3: "map_option (num_steps_completed \<circ> train_progress \<circ> snd \<circ> outcome_run) ?x = Some 1"
    by code_simp
  have ul: "user_code_respects latch example_unit (callbacks_or_empty ?cs) noop_hook"
    using stopping_callback_latch by (simp add: callbacks_or_empty_def)
  have y0: "should_stop (snd ([] :: event list, stop ?w))" by (simp add: stop_def)
  have y1: "map_option raised ?y = Some None" by code_simp
  have y2: "map_option (fst \<circ> outcome_run) ?y = Some [Unit_hook on_train_start, Unit_hook on_train_end]"
    by code_simp
  have y3: "should_stop (snd (outcome_run (the ?y)))"
    using should_stop_latch[where u=example_unit and callbacks="?cs" and evl=noop_hook and fuel=5
        and r="([], stop ?w)" and res="the ?y",
        THEN conjunct2, THEN conjunct2, THEN conjunct2, THEN conjunct1] ul raised_Some_run[OF y1] y0
    by blast
  have b1: "\<not> isl (fst ?b)" by code_simp
  have b2: "should_stop (snd (projr (fst ?b)))" by code_simp
  have b0: "\<not> (should_stop (snd ([] :: event list, ?w)) \<or>
       is_epoch_done (train_progress (snd ([] :: event list, ?w)))
         (max_steps_per_epoch (the (train_state (snd ([] :: event list, ?w)))))
         (max_steps (the (train_state (snd ([] :: event list, ?w))))))"
    by (simp add: example_world_def example_phase_def is_epoch_done_def)
  have b3: "train_step_loop (Suc (Suc 0)) example_unit [stopping_callback] noop_hook None [1, 2, 3]
     ([], ?w) = Some (Inr (projr (fst ?b)))"
    using should_stop_latch[where u=example_unit and cbs="[stopping_callback]" and evl=noop_hook
        and k=None and data_iter="[1, 2, 3]" and r="([], ?w)" and r'="projr (fst ?b)"
        and rest="snd ?b" and n=0,
        THEN conjunct2, THEN conjunct2, THEN conjunct2, THEN conjunct2, THEN conjunct2, THEN conjunct2, THEN conjunct1] b0 pair_Inr[OF b1] b2
    by blast
  have ks: "user_code_respects keeps_steps stopping_unit [example_callback] noop_hook"
    by (rule stopping_unit_respects) (rule keeps_steps_refl keeps_steps_stop)+
  have kl: "user_code_respects latch stopping_unit [example_callback] noop_hook"
    by (rule stopping_unit_respects) (rule latch_same[OF refl] latch_stop)+
  have c1: "\<not> isl (fst ?c)" by code_simp
  have c2: "train_step stopping_unit = Batch_step (\<lambda>w b. Inr (b, stop w))"
    by (simp add: stopping_unit_def)
  have c3: "run_callback_fn [example_callback] on_train_step_start ([], ?w) =
      Inr ([Callback_hook 0 on_train_step_start], ?w)"
    by (simp add: run_callback_fn_def example_callback_def call_hook_def noop_hook_def)
  have c4: "train_state (stop ?w) \<noteq> None" by (simp add: stop_def example_world_def)
  have c5: "should_stop (stop ?w)" by (simp add: stop_def)
  note inst = should_stop_latch[where u=stopping_unit and cbs="[example_callback]" and evl=noop_hook
        and k=None and r="([], ?w)" and f="\<lambda>w b. Inr (b, stop w)"
        and ?r1.0="([Callback_hook 0 on_train_step_start], ?w)" and b=1 and out=1
        and ?w2.0="stop ?w" and rest="[2, 3]" and r'="projr (fst ?c)" and rest'="snd ?c",
        THEN conjunct2, THEN conjunct2, THEN conjunct2, THEN conjunct2, THEN conjunct2, THEN conjunct2, THEN conjunct2, THEN conjunct1]
  have c6: "num_steps_completed (train_progress (snd (projr (fst ?c)))) =
      num_steps_completed (train_progress (stop ?w)) + 1"
    and c7: "should_stop (snd (projr (fst ?c)))"
    using inst c2 c3 c4 c5 ks kl pair_Inr[OF c1] by auto
  have uli: "user_code_respects latch example_unit [stopping_callback] noop_hook"
    by (rule stopping_callback_latch)
  have i1: "map_option raised ?i = Some None" by code_simp
  have i2: "map_option (fst \<circ> outcome_run) ?i =
     Some [Unit_hook on_train_epoch_start, Warning_no_steps, Unit_hook on_train_epoch_end]"
    by code_simp
  have i3: "should_stop (snd (outcome_run (the ?i)))"
    using should_stop_latch[where u=example_unit and cbs="[stopping_callback]" and evl=noop_hook
        and fuel=5 and r="([], stop ?w)" and res="the ?i",
        THEN conjunct2, THEN conjunct2, THEN conjunct2, THEN conjunct2, THEN conjunct1] uli raised_Some_run[OF i1] y0
    by blast
  have l1: "train_step_loop (Suc 0) example_unit [stopping_callback] noop_hook None [1, 2, 3]
     ([], stop ?w) = Some (Inr ([], stop ?w))"
    and l2: "train_epochs_loop (Suc 0) 5 example_unit [stopping_callback] noop_hook
     ([], stop ?w) = Some (Inr ([], stop ?w))"
    using should_stop_latch[where u=example_unit and cbs="[stopping_callback]" and evl=noop_hook
        and fuel=5 and k=None and data_iter="[1, 2, 3]" and r="([], stop ?w)" and n=0,
        THEN conjunct2, THEN conjunct2, THEN conjunct2, THEN conjunct2, THEN conjunct2, THEN conjunct1] y0
    by blast+
  have ksi: "user_code_respects keeps_steps stopping_iterator_unit [example_callback] noop_hook"
    by (rule stopping_iterator_unit_respects) (rule keeps_steps_refl keeps_steps_stop)+
  have kli: "user_code_respects latch stopping_iterator_unit [example_callback] noop_hook"
    by (rule stopping_iterator_unit_respects) (rule latch_same[OF refl] latch_stop)+
  have d1: "\<not> isl (fst ?d)" by code_simp
  have d2: "train_step stopping_iterator_unit =
      Iterator_step (\<lambda>w it. case it of b # rest \<Rightarrow> (Inr (b, stop w), rest)
                              | [] \<Rightarrow> (Inl (StopIteration, w), []))"
    by (simp add: stopping_iterator_unit_def)
  have d3: "(\<lambda>w it. case it of b # rest \<Rightarrow> (Inr (b, stop w), rest)
                              | [] \<Rightarrow> (Inl (StopIteration, w), []))
      (snd ([Callback_hook 0 on_train_step_start], ?w)) [1, 2, 3] = (Inr (1, stop ?w), [2, 3])"
    by simp
  note insti = should_stop_latch[where u=stopping_iterator_unit and cbs="[example_callback]"
        and evl=noop_hook and k=None and r="([], ?w)"
        and g="\<lambda>w it. case it of b # rest \<Rightarrow> (Inr (b, stop w), rest)
                              | [] \<Rightarrow> (Inl (StopIteration, w), [])"
        and ?r1.0="([Callback_hook 0 on_train_step_start], ?w)" and data_iter="[1, 2, 3]" and out=1
        and ?w2.0="stop ?w" and rest="[2, 3]" and r'="projr (fst ?d)" and rest'="snd ?d",
        THEN conjunct2, THEN conjunct2, THEN conjunct2, THEN conjunct2, THEN conjunct2, THEN conjunct2, THEN conjunct2, THEN conjunct2, THEN conjunct1]
  have d6: "num_steps_completed (train_progress (snd (projr (fst ?d)))) =
      num_steps_completed (train_progress (stop ?w)) + 1"
    and d7: "should_stop (snd (projr (fst ?d)))"
    using insti d2 d3 c3 c4 c5 ksi kli pair_Inr[OF d1] by auto
  have d8: "map_option (fst \<circ> outcome_run)
     (train 5 stopping_iterator_unit ?ce noop_hook ([], ?w)) =
     Some [Unit_hook on_train_start, Callback_hook 0 on_train_start,
           Unit_hook on_train_epoch_start, Callback_hook 0 on_train_epoch_start,
           Callback_hook 0 on_train_step_start, Train_step, Callback_hook 0 on_train_step_end,
           Unit_hook on_train_epoch_end, Callback_hook 0 on_train_epoch_end,
           Unit_hook on_train_end, Callback_hook 0 on_train_end]"
    by code_simp
  have un: "user_code_respects never_sets example_unit (callbacks_or_empty ?ce) noop_hook"
    unfolding callbacks_or_empty_def option.case
    by (rule example_unit_respects) (rule never_sets_same[OF refl])
  have v0: "\<not> should_stop (snd ([] :: event list, ?v))" by (simp add: example_world_def)
  have t1: "map_option raised ?t = Some None" by code_simp
  have t2: "map_option (fst \<circ> outcome_run) ?t =
     Some [Unit_hook on_train_start, Callback_hook 0 on_train_start,
           Unit_hook on_train_epoch_start, Callback_hook 0 on_train_epoch_start,
           Callback_hook 0 on_train_step_start, Train_step, Callback_hook 0 on_train_step_end,
           Callback_hook 0 on_train_step_start, Train_step, Callback_hook 0 on_train_step_end,
           Unit_hook on_train_epoch_end, Callback_hook 0 on_train_epoch_end,
           Unit_hook on_train_end, Callback_hook 0 on_train_end]"
    by code_simp
  have t3: "\<not> should_stop (snd (outcome_run (the ?t)))"
    using should_stop_latch[where u=example_unit and callbacks="?ce" and evl=noop_hook and fuel=5
        and r="([], ?v)" and res="the ?t",
        THEN conjunct2, THEN conjunct2, THEN conjunct2, THEN conjunct2, THEN conjunct2, THEN conjunct2, THEN conjunct2, THEN conjunct2, THEN conjunct2, THEN conjunct1] un raised_Some_run[OF t1] v0
    by blast
  have e1: "map_option raised ?e = Some None" by code_simp
  have e3: "\<not> should_stop (snd (outcome_run (the ?e)))"
    using should_stop_latch[where u=example_unit and callbacks="?ce" and evl=noop_hook and fuel=5
        and r="([], ?v)" and res="the ?e",
        THEN conjunct2, THEN conjunct2, THEN conjunct2, THEN conjunct2, THEN conjunct2, THEN conjunct2, THEN conjunct2, THEN conjunct2, THEN conjunct2, THEN conjunct2, THEN conjunct2, THEN conjunct2] un raised_Some_run[OF e1] v0
    by blast
  have j1: "map_option raised ?j = Some None" by code_simp
  have j3: "\<not> should_stop (snd (outcome_run (the ?j)))"
    using should_stop_latch[where u=example_unit and cbs="callbacks_or_empty ?ce" and evl=noop_hook
        and fuel=5 and r="([], ?v)" and res="the ?j",
        THEN conjunct2, THEN conjunct2, THEN conjunct2, THEN conjunct2, THEN conjunct2, THEN conjunct2, THEN conjunct2, THEN conjunct2, THEN conjunct2, THEN conjunct2, THEN conjunct1] un raised_Some_run[OF j1] v0
    by blast
  have f0: "should_stop (snd ([] :: event list, stop ?v))" by (simp add: stop_def)
  have f1: "map_option raised ?f = Some None" by code_simp
  have f2: "map_option (fst \<circ> outcome_run) ?f =
     Some [Unit_hook on_train_epoch_start, Warning_no_steps, Unit_hook on_train_epoch_end]"
    by code_simp
  have f3: "should_stop (snd (outcome_run (the ?f)))"
    using should_stop_latch[where u=example_unit and callbacks="?cs" and evl=noop_hook and fuel=5
        and r="([], stop ?v)" and res="the ?f",
        THEN conjunct2, THEN conjunct2, THEN conjunct2, THEN conjunct2, THEN conjunct2, THEN conjunct2, THEN conjunct2, THEN conjunct2, THEN conjunct2, THEN conjunct2, THEN conjunct2, THEN conjunct1] ul raised_Some_run[OF f1] f0
    by blast
  show ?thesis
    by (intro conjI) (rule x1 x2 x3 ul y0 y2 y3 b1 b2 b3 ks kl c6 c7 i2 i3 l1 l2 ksi kli d6 d7 d8
        un v0 t2 t3 e1 e3 j3 f2 f3)+
qed

section \<open>C2: exceptions and on_exception\<close>

text \<open>Where a raise of user code goes, call site by call site.\<close>

lemma run_unit_hook_raise:
  "hooks u name (snd r) = Inl (e, w') \<Longrightarrow>
   run_unit_hook u name r = Inl (e, (fst r @ [Unit_hook name], w'))"
  by (simp add: run_unit_hook_def call_hook_def)

lemma evaluate_impl_raise:
  "evl (snd r) = Inl (e, w') \<Longrightarrow> evaluate_impl evl r = Inl (e, (fst r @ [Evaluate], w'))"
  by (simp add: evaluate_impl_def call_hook_def)

lemma run_callback_fn_from_append:
  "run_callback_fn_from i (pre @ post) name r =
     (case run_callback_fn_from i pre name r of
        Inl x \<Rightarrow> Inl x
      | Inr r1 \<Rightarrow> run_callback_fn_from (i + length pre) post name r1)"
proof (induction pre arbitrary: i r)
  case Nil
  then show ?case by simp
next
  case (Cons cb pre)
  show ?case
  proof (cases "cb name")
    case None
    with Cons[of "Suc i" r] show ?thesis by (simp split: sum.splits)
  next
    case (Some h)
    show ?thesis
    proof (cases "call_hook (Callback_hook i name) h r")
      case (Inl x)
      with Some show ?thesis by simp
    next
      case (Inr r')
      with Some Cons[of "Suc i" r'] show ?thesis by (simp split: sum.splits)
    qed
  qed
qed

lemma run_callback_fn_raise:
  assumes "run_callback_fn pre name r = Inr r1" and "cb name = Some h"
    and "h (snd r1) = Inl (e, w')"
  shows "run_callback_fn (pre @ cb # post) name r =
           Inl (e, (fst r1 @ [Callback_hook (length pre) name], w'))"
  using assms
  by (simp add: run_callback_fn_def run_callback_fn_from_append call_hook_def)

lemma finish_train_step_raise:
  assumes "r2 = (fst r, update_train_progress increment_step
                   (update_train_state (\<lambda>ts. ts\<lparr>step_output := Some out\<rparr>) (snd r)))"
  shows "(run_callback_fn cbs on_train_step_end r2 = Inl x \<longrightarrow>
            finish_train_step cbs evl k out r = Inl x) \<and>
         (run_callback_fn cbs on_train_step_end r2 = Inr r3 \<and>
          r4 = (fst r3, update_train_state (\<lambda>ts. ts\<lparr>step_output := None\<rparr>) (snd r3)) \<and>
          k = Some n \<and> num_steps_completed_in_epoch (train_progress (snd r4)) mod n = 0 \<longrightarrow>
            finish_train_step cbs evl k out r = evaluate_impl evl r4)"
  using assms by (auto simp: finish_train_step_def Let_def)

lemma train_step_body_raise:
  "(train_step u = Batch_step f \<longrightarrow>
      (run_callback_fn cbs on_train_step_start r = Inl x \<longrightarrow>
         fst (train_step_body u cbs evl k (b # rest) r) = Inl x) \<and>
      (run_callback_fn cbs on_train_step_start r = Inr r1 \<and> f (snd r1) b = Inl (e, w2) \<longrightarrow>
         fst (train_step_body u cbs evl k (b # rest) r) = Inl (e, (fst r1 @ [Train_step], w2))) \<and>
      (run_callback_fn cbs on_train_step_start r = Inr r1 \<and> f (snd r1) b = Inr (out, w2) \<longrightarrow>
         fst (train_step_body u cbs evl k (b # rest) r) =
           finish_train_step cbs evl k out (fst r1 @ [Train_step], w2))) \<and>
   (train_step u = Iterator_step g \<longrightarrow>
      (run_callback_fn cbs on_train_step_start r = Inl x \<longrightarrow>
         fst (train_step_body u cbs evl k data_iter r) = Inl x) \<and>
      (run_callback_fn cbs on_train_step_start r = Inr r1 \<and>
       fst (g (snd r1) data_iter) = Inl (e, w2) \<longrightarrow>
         fst (train_step_body u cbs evl k data_iter r) = Inl (e, (fst r1 @ [Train_step], w2))) \<and>
      (run_callback_fn cbs on_train_step_start r = Inr r1 \<and>
       fst (g (snd r1) data_iter) = Inr (out, w2) \<longrightarrow>
         fst (train_step_body u cbs evl k data_iter r) =
           finish_train_step cbs evl k out (fst r1 @ [Train_step], w2)))"
  by (auto simp: train_step_body_def split: prod.splits sum.splits)

lemma train_step_loop_raise:
  assumes "\<not> (should_stop (snd r) \<or>
            is_epoch_done (train_progress (snd r))
              (max_steps_per_epoch (the (train_state (snd r))))
              (max_steps (the (train_state (snd r)))))"
  shows "(train_step_body u cbs evl k data_iter r = (Inl (e, r'), rest) \<and> e \<noteq> StopIteration \<longrightarrow>
            train_step_loop (Suc n) u cbs evl k data_iter r = Some (Inl (e, r'))) \<and>
         (train_step_body u cbs evl k data_iter r = (Inl (StopIteration, r'), rest) \<longrightarrow>
            train_step_loop (Suc n) u cbs evl k data_iter r = Some (Inr r')) \<and>
         (train_step_body u cbs evl k data_iter r = (Inr r', rest) \<longrightarrow>
            train_step_loop (Suc n) u cbs evl k data_iter r =
              train_step_loop n u cbs evl k rest r')"
  using assms by simp

lemma start_train_epoch_raise:
  assumes "num_steps_completed_in_epoch (train_progress (snd r)) = 0"
  shows "(run_unit_hook u on_train_epoch_start r = Inl x \<longrightarrow> start_train_epoch u cbs r = Inl x) \<and>
         (run_unit_hook u on_train_epoch_start r = Inr r2 \<longrightarrow>
            start_train_epoch u cbs r = run_callback_fn cbs on_train_epoch_start r2)"
  using assms by (simp add: start_train_epoch_def)

lemma finish_train_epoch_raise:
  assumes "r1 = (if \<not> (\<bar>num_steps_completed_in_epoch (train_progress (snd r)) - prev\<bar> > 0)
                 then fst r @ [Warning_no_steps] else fst r,
                 update_train_progress increment_epoch (snd r))"
  shows "(run_unit_hook u on_train_epoch_end r1 = Inl x \<longrightarrow>
            finish_train_epoch u cbs evl k prior prev r = Inl x) \<and>
         (run_unit_hook u on_train_epoch_end r1 = Inr r2 \<and>
          run_callback_fn cbs on_train_epoch_end r2 = Inl x \<longrightarrow>
            finish_train_epoch u cbs evl k prior prev r = Inl x) \<and>
         (run_unit_hook u on_train_epoch_end r1 = Inr r2 \<and>
          run_callback_fn cbs on_train_epoch_end r2 = Inr r3 \<and>
          k = Some n \<and> num_epochs_completed (train_progress (snd r3)) mod n = 0 \<and>
          evaluate_impl evl r3 = Inl x \<longrightarrow>
            finish_train_epoch u cbs evl k prior prev r = Inl x)"
  using assms by (simp add: finish_train_epoch_def Let_def)

lemma train_epoch_impl_raise:
  assumes "train_state (snd r) = Some ts"
    and "set_module_training_mode (tracked_modules u) True
           ((snd r)\<lparr>active_phase := ActivePhase_TRAIN\<rparr>) = (prior, w1)"
  shows "(start_train_epoch u cbs (fst r, w1) = Inl x \<longrightarrow>
            train_epoch_impl fuel u cbs evl r = Some (Inl x)) \<and>
         (start_train_epoch u cbs (fst r, w1) = Inr r3 \<and>
          train_step_loop fuel u cbs evl (resolve_evaluate_every_n_steps (snd r))
            (dataloader (the (train_state (snd r3)))) r3 = Some (Inl x) \<longrightarrow>
            train_epoch_impl fuel u cbs evl r = Some (Inl x)) \<and>
         (start_train_epoch u cbs (fst r, w1) = Inr r3 \<and>
          train_step_loop fuel u cbs evl (resolve_evaluate_every_n_steps (snd r))
            (dataloader (the (train_state (snd r3)))) r3 = Some (Inr r4) \<longrightarrow>
            train_epoch_impl fuel u cbs evl r =
              Some (finish_train_epoch u cbs evl (resolve_evaluate_every_n_epochs (snd r)) prior
                      (num_steps_completed_in_epoch (train_progress (snd r3))) r4))"
proof -
  have w1': "train_state w1 = train_state (snd r)" "eval_state w1 = eval_state (snd r)"
    using assms(2) by (auto simp: set_module_training_mode_def)
  have ks: "resolve_evaluate_every_n_steps w1 = resolve_evaluate_every_n_steps (snd r)"
    and ke: "resolve_evaluate_every_n_epochs w1 = resolve_evaluate_every_n_epochs (snd r)"
    using w1' by (simp_all add: resolve_evaluate_every_n_steps_def resolve_evaluate_every_n_epochs_def)
  show ?thesis
    using assms w1' ks ke by (simp add: train_epoch_impl_def Let_def)
qed

lemma train_epochs_loop_raise:
  assumes "\<not> (should_stop (snd r) \<or>
            is_done (train_progress (snd r))
              (max_epochs (the (train_state (snd r))))
              (max_steps (the (train_state (snd r)))))"
  shows "(train_epoch_impl fuel u cbs evl r = Some (Inl x) \<longrightarrow>
            train_epochs_loop (Suc k) fuel u cbs evl r = Some (Inl x)) \<and>
         (train_epoch_impl fuel u cbs evl r = Some (Inr r') \<longrightarrow>
            train_epochs_loop (Suc k) fuel u cbs evl r = train_epochs_loop k fuel u cbs evl r')"
  using assms by simp

lemma train_impl_raise:
  assumes "train_state (snd r) = Some ts"
    and "set_module_training_mode (tracked_modules u) True
           ((snd r)\<lparr>active_phase := ActivePhase_TRAIN\<rparr>) = (prior, w1)"
  shows "(run_unit_hook u on_train_start (fst r, w1) = Inl x \<longrightarrow>
            train_impl fuel u cbs evl r = Some (Inl x)) \<and>
         (run_unit_hook u on_train_start (fst r, w1) = Inr r2 \<and>
          run_callback_fn cbs on_train_start r2 = Inl x \<longrightarrow>
            train_impl fuel u cbs evl r = Some (Inl x)) \<and>
         (run_unit_hook u on_train_start (fst r, w1) = Inr r2 \<and>
          run_callback_fn cbs on_train_start r2 = Inr r3 \<and>
          train_epochs_loop fuel fuel u cbs evl r3 = Some (Inl x) \<longrightarrow>
            train_impl fuel u cbs evl r = Some (Inl x)) \<and>
         (run_unit_hook u on_train_start (fst r, w1) = Inr r2 \<and>
          run_callback_fn cbs on_train_start r2 = Inr r3 \<and>
          train_epochs_loop fuel fuel u cbs evl r3 = Some (Inr r4) \<and>
          run_unit_hook u on_train_end r4 = Inl x \<longrightarrow>
            train_impl fuel u cbs evl r = Some (Inl x)) \<and>
         (run_unit_hook u on_train_start (fst r, w1) = Inr r2 \<and>
          run_callback_fn cbs on_train_start r2 = Inr r3 \<and>
          train_epochs_loop fuel fuel u cbs evl r3 = Some (Inr r4) \<and>
          run_unit_hook u on_train_end r4 = Inr r5 \<and>
          run_callback_fn cbs on_train_end r5 = Inl x \<longrightarrow>
            train_impl fuel u cbs evl r = Some (Inl x))"
  using assms by (simp add: train_impl_def Let_def)

lemma train_epoch_checked_enters:
  "train_state (snd r) = Some ts \<Longrightarrow> max_epochs ts = Some 1 \<Longrightarrow>
   train_epoch_checked fuel u cbs evl r =
     train_epoch_impl fuel u cbs evl (fst r, (snd r)\<lparr>entry_point := EntryPoint_TRAIN\<rparr>)"
  by (simp add: train_epoch_checked_def)

lemma entry_points_handle:
  "(train_impl fuel u (callbacks_or_empty callbacks) evl
      (fst r, (snd r)\<lparr>entry_point := EntryPoint_TRAIN\<rparr>) = Some (Inl (e, r1)) \<longrightarrow>
      train fuel u callbacks evl r = Some (handle_exception u (callbacks_or_empty callbacks) e r1)) \<and>
   (train_epoch_checked fuel u (callbacks_or_empty callbacks) evl r = Some (Inl (e, r1)) \<longrightarrow>
      train_epoch fuel u callbacks evl r =
        Some (handle_exception u (callbacks_or_empty callbacks) e r1))"
  by (simp add: train_def train_epoch_def Let_def)

lemma train_raise_on_train_start:
  assumes ts: "train_state (snd r) = Some ts"
    and sm: "set_module_training_mode (tracked_modules u) True
           ((snd r)\<lparr>entry_point := EntryPoint_TRAIN, active_phase := ActivePhase_TRAIN\<rparr>) = (prior, w1)"
    and h: "hooks u on_train_start w1 = Inl (e, w')"
  shows "train fuel u callbacks evl r =
           Some (handle_exception u (callbacks_or_empty callbacks) e
                   (fst r @ [Unit_hook on_train_start], w'))"
proof -
  let ?r0 = "(fst r, (snd r)\<lparr>entry_point := EntryPoint_TRAIN\<rparr>)"
  have ts0: "train_state (snd ?r0) = Some ts" using ts by simp
  have sm0: "set_module_training_mode (tracked_modules u) True
           ((snd ?r0)\<lparr>active_phase := ActivePhase_TRAIN\<rparr>) = (prior, w1)" using sm by simp
  have "run_unit_hook u on_train_start (fst ?r0, w1) =
          Inl (e, (fst r @ [Unit_hook on_train_start], w'))"
    using run_unit_hook_raise[of u on_train_start "(fst ?r0, w1)" e w'] h by simp
  with train_impl_raise[OF ts0 sm0, THEN conjunct1]
  have "train_impl fuel u (callbacks_or_empty callbacks) evl ?r0 =
          Some (Inl (e, (fst r @ [Unit_hook on_train_start], w')))"
    by blast
  with entry_points_handle[THEN conjunct1] show ?thesis by blast
qed

text \<open>
  C2, as amended. Let an exception \<open>e\<close> escape \<open>_train_impl\<close> (in \<open>train\<close>) or the body of
  the \<open>try\<close> of \<open>train_epoch\<close>, leaving the run \<open>r1\<close>. If \<open>e\<close> derives from \<open>Exception\<close>, the
  driver calls \<open>on_exception\<close> of the unit, then \<open>on_exception\<close> of every callback that exposes
  it, in list order and once each, and then raises \<open>e\<close> itself. A raise of a handler is not
  caught: it is what the caller sees, and the handlers after it are not called. An
  exception that does not derive from \<open>Exception\<close> reaches the caller with no handler called.
  Inside the step loop an exception raised by an iteration leaves the loop, except
  \<open>StopIteration\<close>, which ends the loop with a normal return.

  Every raise of user code escapes in this way, call site by call site. A hook of the
  unit, a hook of a callback (the callbacks before it having returned) and the evaluation
  loop pass their raise on as it is. The body of an iteration of the step loop raises
  what its \<open>on_train_step_start\<close> callbacks, its \<open>train_step\<close> (on a batch or on the data
  iterator), its \<open>on_train_step_end\<close> callbacks or its evaluation raise. The epoch routine
  raises what its epoch-start hooks, its step loop, its epoch-end hooks or its evaluation
  raise; the epoch loop raises what the epoch routine raises; \<open>_train_impl\<close> raises what
  \<open>on_train_start\<close>, the epoch loop or \<open>on_train_end\<close> raise, of the unit and of the
  callbacks. So a raise of \<open>on_train_start\<close> of the unit reaches the handlers of \<open>train\<close>.
\<close>

theorem exception_goes_to_on_exception_then_caller:
  "(((inner = train_impl fuel u (callbacks_or_empty callbacks) evl
                (fst r, (snd r)\<lparr>entry_point := EntryPoint_TRAIN\<rparr>) \<and>
      outer = train fuel u callbacks evl r) \<or>
     (inner = train_epoch_checked fuel u (callbacks_or_empty callbacks) evl r \<and>
      outer = train_epoch fuel u callbacks evl r)) \<and>
    inner = Some (Inl (e, r1)) \<and> cbs = callbacks_or_empty callbacks \<longrightarrow>
      (is_Exception e \<and> hooks u (on_exception e) (snd r1) = Inr w2 \<and>
         run_callback_fn cbs (on_exception e) (fst r1 @ [Unit_hook (on_exception e)], w2) = Inr r3 \<longrightarrow>
           outer = Some (Inl (e, r3)) \<and>
           fst r3 = fst r1 @ Unit_hook (on_exception e) # callback_events cbs (on_exception e)) \<and>
      (is_Exception e \<and> hooks u (on_exception e) (snd r1) = Inl (e', w2') \<longrightarrow>
           outer = Some (Inl (e', (fst r1 @ [Unit_hook (on_exception e)], w2')))) \<and>
      (is_Exception e \<and> hooks u (on_exception e) (snd r1) = Inr w2 \<and>
         run_callback_fn cbs (on_exception e) (fst r1 @ [Unit_hook (on_exception e)], w2) = Inl x \<longrightarrow>
           outer = Some (Inl x)) \<and>
      (\<not> is_Exception e \<longrightarrow> outer = Some (Inl (e, r1)))) \<and>
   (train_step_body u cbs evl k data_iter r0 = (Inl (e0, r0'), rest) \<and>
    \<not> (should_stop (snd r0) \<or>
       is_epoch_done (train_progress (snd r0))
         (max_steps_per_epoch (the (train_state (snd r0))))
         (max_steps (the (train_state (snd r0))))) \<longrightarrow>
      train_step_loop (Suc n) u cbs evl k data_iter r0 =
        Some (if e0 = StopIteration then Inr r0' else Inl (e0, r0'))) \<and>
   (train_step_body u cbs evl k data_iter r0 = (Inr r0', rest) \<and>
    \<not> (should_stop (snd r0) \<or>
       is_epoch_done (train_progress (snd r0))
         (max_steps_per_epoch (the (train_state (snd r0))))
         (max_steps (the (train_state (snd r0))))) \<longrightarrow>
      train_step_loop (Suc n) u cbs evl k data_iter r0 = train_step_loop n u cbs evl k rest r0') \<and>
   (hooks u name (snd r) = Inl (e, w') \<longrightarrow>
      run_unit_hook u name r = Inl (e, (fst r @ [Unit_hook name], w'))) \<and>
   (run_callback_fn pre name r = Inr r1 \<and> cb name = Some h \<and> h (snd r1) = Inl (e, w') \<longrightarrow>
      run_callback_fn (pre @ cb # post) name r =
        Inl (e, (fst r1 @ [Callback_hook (length pre) name], w'))) \<and>
   (evl (snd r) = Inl (e, w') \<longrightarrow> evaluate_impl evl r = Inl (e, (fst r @ [Evaluate], w'))) \<and>
   (train_step u = Batch_step f \<longrightarrow>
      (run_callback_fn cbs on_train_step_start r = Inl x \<longrightarrow>
         fst (train_step_body u cbs evl k (b # rest) r) = Inl x) \<and>
      (run_callback_fn cbs on_train_step_start r = Inr r1 \<and> f (snd r1) b = Inl (e, w2) \<longrightarrow>
         fst (train_step_body u cbs evl k (b # rest) r) = Inl (e, (fst r1 @ [Train_step], w2))) \<and>
      (run_callback_fn cbs on_train_step_start r = Inr r1 \<and> f (snd r1) b = Inr (out, w2) \<longrightarrow>
         fst (train_step_body u cbs evl k (b # rest) r) =
           finish_train_step cbs evl k out (fst r1 @ [Train_step], w2))) \<and>
   (train_step u = Iterator_step g \<longrightarrow>
      (run_callback_fn cbs on_train_step_start r = Inl x \<longrightarrow>
         fst (train_step_body u cbs evl k data_iter r) = Inl x) \<and>
      (run_callback_fn cbs on_train_step_start r = Inr r1 \<and>
       fst (g (snd r1) data_iter) = Inl (e, w2) \<longrightarrow>
         fst (train_step_body u cbs evl k data_iter r) = Inl (e, (fst r1 @ [Train_step], w2))) \<and>
      (run_callback_fn cbs on_train_step_start r = Inr r1 \<and>
       fst (g (snd r1) data_iter) = Inr (out, w2) \<longrightarrow>
         fst (train_step_body u cbs evl k data_iter r) =
           finish_train_step cbs evl k out (fst r1 @ [Train_step], w2))) \<and>
   (r2 = (fst r, update_train_progress increment_step
                   (update_train_state (\<lambda>ts. ts\<lparr>step_output := Some out\<rparr>) (snd r))) \<longrightarrow>
      (run_callback_fn cbs on_train_step_end r2 = Inl x \<longrightarrow>
         finish_train_step cbs evl k out r = Inl x) \<and>
      (run_callback_fn cbs on_train_step_end r2 = Inr r3 \<and>
       r4 = (fst r3, update_train_state (\<lambda>ts. ts\<lparr>step_output := None\<rparr>) (snd r3)) \<and>
       k = Some m \<and> num_steps_completed_in_epoch (train_progress (snd r4)) mod m = 0 \<longrightarrow>
         finish_train_step cbs evl k out r = evaluate_impl evl r4)) \<and>
   (num_steps_completed_in_epoch (train_progress (snd r)) = 0 \<longrightarrow>
      (run_unit_hook u on_train_epoch_start r = Inl x \<longrightarrow> start_train_epoch u cbs r = Inl x) \<and>
      (run_unit_hook u on_train_epoch_start r = Inr r2 \<longrightarrow>
         start_train_epoch u cbs r = run_callback_fn cbs on_train_epoch_start r2)) \<and>
   (r1 = (if \<not> (\<bar>num_steps_completed_in_epoch (train_progress (snd r)) - prev\<bar> > 0)
          then fst r @ [Warning_no_steps] else fst r,
          update_train_progress increment_epoch (snd r)) \<longrightarrow>
      (run_unit_hook u on_train_epoch_end r1 = Inl x \<longrightarrow>
         finish_train_epoch u cbs evl k prior prev r = Inl x) \<and>
      (run_unit_hook u on_train_epoch_end r1 = Inr r2 \<and>
       run_callback_fn cbs on_train_epoch_end r2 = Inl x \<longrightarrow>
         finish_train_epoch u cbs evl k prior prev r = Inl x) \<and>
      (run_unit_hook u on_train_epoch_end r1 = Inr r2 \<and>
       run_callback_fn cbs on_train_epoch_end r2 = Inr r3 \<and>
       k = Some m \<and> num_epochs_completed (train_progress (snd r3)) mod m = 0 \<and>
       evaluate_impl evl r3 = Inl x \<longrightarrow>
         finish_train_epoch u cbs evl k prior prev r = Inl x)) \<and>
   (train_state (snd r) = Some ts \<and>
    set_module_training_mode (tracked_modules u) True
      ((snd r)\<lparr>active_phase := ActivePhase_TRAIN\<rparr>) = (prior, w1) \<longrightarrow>
      (start_train_epoch u cbs (fst r, w1) = Inl x \<longrightarrow>
         train_epoch_impl fuel u cbs evl r = Some (Inl x)) \<and>
      (start_train_epoch u cbs (fst r, w1) = Inr r3 \<and>
       train_step_loop fuel u cbs evl (resolve_evaluate_every_n_steps (snd r))
         (dataloader (the (train_state (snd r3)))) r3 = Some (Inl x) \<longrightarrow>
         train_epoch_impl fuel u cbs evl r = Some (Inl x)) \<and>
      (start_train_epoch u cbs (fst r, w1) = Inr r3 \<and>
       train_step_loop fuel u cbs evl (resolve_evaluate_every_n_steps (snd r))
         (dataloader (the (train_state (snd r3)))) r3 = Some (Inr r4) \<longrightarrow>
         train_epoch_impl fuel u cbs evl r =
           Some (finish_train_epoch u cbs evl (resolve_evaluate_every_n_epochs (snd r)) prior
                   (num_steps_completed_in_epoch (train_progress (snd r3))) r4))) \<and>
   (\<not> (should_stop (snd r) \<or>
       is_done (train_progress (snd r))
         (max_epochs (the (train_state (snd r))))
         (max_steps (the (train_state (snd r))))) \<longrightarrow>
      (train_epoch_impl fuel u cbs evl r = Some (Inl x) \<longrightarrow>
         train_epochs_loop (Suc n) fuel u cbs evl r = Some (Inl x)) \<and>
      (train_epoch_impl fuel u cbs evl r = Some (Inr r') \<longrightarrow>
         train_epochs_loop (Suc n) fuel u cbs evl r = train_epochs_loop n fuel u cbs evl r')) \<and>
   (train_state (snd r) = Some ts \<and>
    set_module_training_mode (tracked_modules u) True
      ((snd r)\<lparr>active_phase := ActivePhase_TRAIN\<rparr>) = (prior, w1) \<longrightarrow>
      (run_unit_hook u on_train_start (fst r, w1) = Inl x \<longrightarrow>
         train_impl fuel u cbs evl r = Some (Inl x)) \<and>
      (run_unit_hook u on_train_start (fst r, w1) = Inr r2 \<and>
       run_callback_fn cbs on_train_start r2 = Inl x \<longrightarrow>
         train_impl fuel u cbs evl r = Some (Inl x)) \<and>
      (run_unit_hook u on_train_start (fst r, w1) = Inr r2 \<and>
       run_callback_fn cbs on_train_start r2 = Inr r3 \<and>
       train_epochs_loop fuel fuel u cbs evl r3 = Some (Inl x) \<longrightarrow>
         train_impl fuel u cbs evl r = Some (Inl x)) \<and>
      (run_unit_hook u on_train_start (fst r, w1) = Inr r2 \<and>
       run_callback_fn cbs on_train_start r2 = Inr r3 \<and>
       train_epochs_loop fuel fuel u cbs evl r3 = Some (Inr r4) \<and>
       run_unit_hook u on_train_end r4 = Inl x \<longrightarrow>
         train_impl fuel u cbs evl r = Some (Inl x)) \<and>
      (run_unit_hook u on_train_start (fst r, w1) = Inr r2 \<and>
       run_callback_fn cbs on_train_start r2 = Inr r3 \<and>
       train_epochs_loop fuel fuel u cbs evl r3 = Some (Inr r4) \<and>
       run_unit_hook u on_train_end r4 = Inr r5 \<and>
       run_callback_fn cbs on_train_end r5 = Inl x \<longrightarrow>
         train_impl fuel u cbs evl r = Some (Inl x))) \<and>
   (train_state (snd r) = Some ts \<and> max_epochs ts = Some 1 \<longrightarrow>
      train_epoch_checked fuel u cbs evl r =
        train_epoch_impl fuel u cbs evl (fst r, (snd r)\<lparr>entry_point := EntryPoint_TRAIN\<rparr>)) \<and>
   (train_impl fuel u (callbacks_or_empty callbacks) evl
      (fst r, (snd r)\<lparr>entry_point := EntryPoint_TRAIN\<rparr>) = Some (Inl (e, r1)) \<longrightarrow>
      train fuel u callbacks evl r = Some (handle_exception u (callbacks_or_empty callbacks) e r1)) \<and>
   (train_epoch_checked fuel u (callbacks_or_empty callbacks) evl r = Some (Inl (e, r1)) \<longrightarrow>
      train_epoch fuel u callbacks evl r =
        Some (handle_exception u (callbacks_or_empty callbacks) e r1)) \<and>
   (train_state (snd r) = Some ts \<and>
    set_module_training_mode (tracked_modules u) True
      ((snd r)\<lparr>entry_point := EntryPoint_TRAIN, active_phase := ActivePhase_TRAIN\<rparr>) = (prior, w1) \<and>
    hooks u on_train_start w1 = Inl (e, w') \<longrightarrow>
      train fuel u callbacks evl r =
        Some (handle_exception u (callbacks_or_empty callbacks) e
                (fst r @ [Unit_hook on_train_start], w')))"
  (is "?A \<and> ?B1 \<and> ?B2 \<and> ?H1 \<and> ?H2 \<and> ?H3 \<and> ?G1 \<and> ?G2 \<and> ?G3 \<and> ?F1 \<and> ?F2 \<and> ?E \<and> ?D \<and>
       ?C \<and> ?I \<and> ?T1 \<and> ?T2 \<and> ?J")
proof -
  have A: ?A
  proof
    assume a: "((inner = train_impl fuel u (callbacks_or_empty callbacks) evl
                (fst r, (snd r)\<lparr>entry_point := EntryPoint_TRAIN\<rparr>) \<and>
      outer = train fuel u callbacks evl r) \<or>
     (inner = train_epoch_checked fuel u (callbacks_or_empty callbacks) evl r \<and>
      outer = train_epoch fuel u callbacks evl r)) \<and>
    inner = Some (Inl (e, r1)) \<and> cbs = callbacks_or_empty callbacks"
    then have c: "cbs = callbacks_or_empty callbacks" by simp
    from a have
      "(train_impl fuel u cbs evl (fst r, (snd r)\<lparr>entry_point := EntryPoint_TRAIN\<rparr>) =
          Some (Inl (e, r1)) \<and> outer = train fuel u callbacks evl r) \<or>
       (train_epoch_checked fuel u cbs evl r = Some (Inl (e, r1)) \<and>
          outer = train_epoch fuel u callbacks evl r)"
      by auto
    then have "outer = Some (handle_exception u cbs e r1)"
      using c by (auto simp: train_def train_epoch_def Let_def)
    with handle_exception_cases[of e u r1 w2 cbs r3 e' w2' x]
    show "(is_Exception e \<and> hooks u (on_exception e) (snd r1) = Inr w2 \<and>
         run_callback_fn cbs (on_exception e) (fst r1 @ [Unit_hook (on_exception e)], w2) = Inr r3 \<longrightarrow>
           outer = Some (Inl (e, r3)) \<and>
           fst r3 = fst r1 @ Unit_hook (on_exception e) # callback_events cbs (on_exception e)) \<and>
      (is_Exception e \<and> hooks u (on_exception e) (snd r1) = Inl (e', w2') \<longrightarrow>
           outer = Some (Inl (e', (fst r1 @ [Unit_hook (on_exception e)], w2')))) \<and>
      (is_Exception e \<and> hooks u (on_exception e) (snd r1) = Inr w2 \<and>
         run_callback_fn cbs (on_exception e) (fst r1 @ [Unit_hook (on_exception e)], w2) = Inl x \<longrightarrow>
           outer = Some (Inl x)) \<and>
      (\<not> is_Exception e \<longrightarrow> outer = Some (Inl (e, r1)))"
      by simp
  qed
  have B1: ?B1 by simp
  have B2: ?B2 by simp
  have H1: ?H1 by (intro impI) (erule run_unit_hook_raise)
  have H2: ?H2 by (intro impI, elim conjE) (rule run_callback_fn_raise)
  have H3: ?H3 by (intro impI) (erule evaluate_impl_raise)
  have G1: ?G1 by (rule train_step_body_raise[THEN conjunct1])
  have G2: ?G2 by (rule train_step_body_raise[THEN conjunct2])
  have G3: ?G3 by (intro impI) (erule finish_train_step_raise)
  have F1: ?F1 by (intro impI) (erule start_train_epoch_raise)
  have F2: ?F2 by (intro impI) (erule finish_train_epoch_raise)
  have E: ?E
  proof
    assume h: "train_state (snd r) = Some ts \<and>
      set_module_training_mode (tracked_modules u) True
        ((snd r)\<lparr>active_phase := ActivePhase_TRAIN\<rparr>) = (prior, w1)"
    show "(start_train_epoch u cbs (fst r, w1) = Inl x \<longrightarrow>
         train_epoch_impl fuel u cbs evl r = Some (Inl x)) \<and>
      (start_train_epoch u cbs (fst r, w1) = Inr r3 \<and>
       train_step_loop fuel u cbs evl (resolve_evaluate_every_n_steps (snd r))
         (dataloader (the (train_state (snd r3)))) r3 = Some (Inl x) \<longrightarrow>
         train_epoch_impl fuel u cbs evl r = Some (Inl x)) \<and>
      (start_train_epoch u cbs (fst r, w1) = Inr r3 \<and>
       train_step_loop fuel u cbs evl (resolve_evaluate_every_n_steps (snd r))
         (dataloader (the (train_state (snd r3)))) r3 = Some (Inr r4) \<longrightarrow>
         train_epoch_impl fuel u cbs evl r =
           Some (finish_train_epoch u cbs evl (resolve_evaluate_every_n_epochs (snd r)) prior
                   (num_steps_completed_in_epoch (train_progress (snd r3))) r4))"
      by (rule train_epoch_impl_raise[OF h[THEN conjunct1] h[THEN conjunct2]])
  qed
  have D: ?D by (intro impI) (erule train_epochs_loop_raise)
  have C: ?C
  proof
    assume h: "train_state (snd r) = Some ts \<and>
      set_module_training_mode (tracked_modules u) True
        ((snd r)\<lparr>active_phase := ActivePhase_TRAIN\<rparr>) = (prior, w1)"
    show "(run_unit_hook u on_train_start (fst r, w1) = Inl x \<longrightarrow>
         train_impl fuel u cbs evl r = Some (Inl x)) \<and>
      (run_unit_hook u on_train_start (fst r, w1) = Inr r2 \<and>
       run_callback_fn cbs on_train_start r2 = Inl x \<longrightarrow>
         train_impl fuel u cbs evl r = Some (Inl x)) \<and>
      (run_unit_hook u on_train_start (fst r, w1) = Inr r2 \<and>
       run_callback_fn cbs on_train_start r2 = Inr r3 \<and>
       train_epochs_loop fuel fuel u cbs evl r3 = Some (Inl x) \<longrightarrow>
         train_impl fuel u cbs evl r = Some (Inl x)) \<and>
      (run_unit_hook u on_train_start (fst r, w1) = Inr r2 \<and>
       run_callback_fn cbs on_train_start r2 = Inr r3 \<and>
       train_epochs_loop fuel fuel u cbs evl r3 = Some (Inr r4) \<and>
       run_unit_hook u on_train_end r4 = Inl x \<longrightarrow>
         train_impl fuel u cbs evl r = Some (Inl x)) \<and>
      (run_unit_hook u on_train_start (fst r, w1) = Inr r2 \<and>
       run_callback_fn cbs on_train_start r2 = Inr r3 \<and>
       train_epochs_loop fuel fuel u cbs evl r3 = Some (Inr r4) \<and>
       run_unit_hook u on_train_end r4 = Inr r5 \<and>
       run_callback_fn cbs on_train_end r5 = Inl x \<longrightarrow>
         train_impl fuel u cbs evl r = Some (Inl x))"
      by (rule train_impl_raise[OF h[THEN conjunct1] h[THEN conjunct2]])
  qed
  have I: ?I by (intro impI, elim conjE) (rule train_epoch_checked_enters)
  have T1: ?T1 by (rule entry_points_handle[THEN conjunct1])
  have T2: ?T2 by (rule entry_points_handle[THEN conjunct2])
  have J: ?J by (intro impI, elim conjE) (rule train_raise_on_train_start)
  show ?thesis
    by (intro conjI) (rule A B1 B2 H1 H2 H3 G1 G2 G3 F1 F2 E D C I T1 T2 J)+
qed

lemma pair_Inl:
  "isl (fst x) \<Longrightarrow> fst (projl (fst x)) = e \<Longrightarrow>
   x = (Inl (e, snd (projl (fst x))), snd x)"
  by (cases x; cases "fst x") auto

text \<open>
  A step that raises \<open>UserException 0\<close> under three callbacks, the second without hooks;
  the same with a unit whose \<open>on_exception\<close> raises; and a step that raises
  \<open>KeyboardInterrupt\<close>. The raise of the step leaves the step loop. A unit whose
  \<open>on_train_start\<close> raises \<open>UserException 7\<close>, and one whose \<open>on_train_end\<close> does; a
  callback whose \<open>on_train_epoch_end\<close> raises \<open>UserException 8\<close>, alone and in a run; an
  evaluation loop that raises \<open>UserException 9\<close> after the first step of \<open>train_epoch\<close>.
\<close>

theorem exception_goes_to_on_exception_then_caller_witness:
  "map_option raised
     (train_impl 3 failing_unit
        (callbacks_or_empty (Some [example_callback, silent_callback, example_callback])) noop_hook
        (fst ([] :: event list, example_world (Some (example_phase [1, 2])) None),
         (snd ([] :: event list, example_world (Some (example_phase [1, 2])) None))
           \<lparr>entry_point := EntryPoint_TRAIN\<rparr>)) = Some (Some (UserException 0)) \<and>
   is_Exception (UserException 0) \<and>
   map_option raised
     (train 3 failing_unit (Some [example_callback, silent_callback, example_callback]) noop_hook
        ([], example_world (Some (example_phase [1, 2])) None)) = Some (Some (UserException 0)) \<and>
   fst (outcome_run (the
     (train 3 failing_unit (Some [example_callback, silent_callback, example_callback]) noop_hook
        ([], example_world (Some (example_phase [1, 2])) None)))) =
     fst (outcome_run (the
       (train_impl 3 failing_unit
         (callbacks_or_empty (Some [example_callback, silent_callback, example_callback])) noop_hook
         (fst ([] :: event list, example_world (Some (example_phase [1, 2])) None),
          (snd ([] :: event list, example_world (Some (example_phase [1, 2])) None))
            \<lparr>entry_point := EntryPoint_TRAIN\<rparr>)))) @
       [Unit_hook (on_exception (UserException 0)),
        Callback_hook 0 (on_exception (UserException 0)),
        Callback_hook 2 (on_exception (UserException 0))] \<and>
   map_option (fst \<circ> outcome_run)
     (train 3 failing_unit (Some [example_callback, silent_callback, example_callback]) noop_hook
        ([], example_world (Some (example_phase [1, 2])) None)) =
     Some [Unit_hook on_train_start, Callback_hook 0 on_train_start, Callback_hook 2 on_train_start,
           Unit_hook on_train_epoch_start, Callback_hook 0 on_train_epoch_start,
           Callback_hook 2 on_train_epoch_start,
           Callback_hook 0 on_train_step_start, Callback_hook 2 on_train_step_start, Train_step,
           Unit_hook (on_exception (UserException 0)),
           Callback_hook 0 (on_exception (UserException 0)),
           Callback_hook 2 (on_exception (UserException 0))] \<and>
   map_option raised
     (train 3 bad_handler_unit (Some [example_callback]) noop_hook
        ([], example_world (Some (example_phase [1, 2])) None)) =
     Some (Some (RuntimeError ''handler failed'')) \<and>
   map_option (fst \<circ> outcome_run)
     (train 3 bad_handler_unit (Some [example_callback]) noop_hook
        ([], example_world (Some (example_phase [1, 2])) None)) =
     Some [Unit_hook on_train_start, Callback_hook 0 on_train_start,
           Unit_hook on_train_epoch_start, Callback_hook 0 on_train_epoch_start,
           Callback_hook 0 on_train_step_start, Train_step,
           Unit_hook (on_exception (UserException 0))] \<and>
   \<not> is_Exception KeyboardInterrupt \<and>
   map_option raised
     (train 3 interrupted_unit (Some [example_callback]) noop_hook
        ([], example_world (Some (example_phase [1, 2])) None)) = Some (Some KeyboardInterrupt) \<and>
   map_option (fst \<circ> outcome_run)
     (train 3 interrupted_unit (Some [example_callback]) noop_hook
        ([], example_world (Some (example_phase [1, 2])) None)) =
     Some [Unit_hook on_train_start, Callback_hook 0 on_train_start,
           Unit_hook on_train_epoch_start, Callback_hook 0 on_train_epoch_start,
           Callback_hook 0 on_train_step_start, Train_step] \<and>
   isl (fst (train_step_body failing_unit [example_callback] noop_hook None [1, 2]
               ([], example_world (Some (example_phase [1, 2])) None))) \<and>
   fst (projl (fst (train_step_body failing_unit [example_callback] noop_hook None [1, 2]
               ([], example_world (Some (example_phase [1, 2])) None)))) = UserException 0 \<and>
   train_step_loop (Suc 0) failing_unit [example_callback] noop_hook None [1, 2]
     ([], example_world (Some (example_phase [1, 2])) None) =
     Some (Inl (UserException 0,
       snd (projl (fst (train_step_body failing_unit [example_callback] noop_hook None [1, 2]
               ([], example_world (Some (example_phase [1, 2])) None)))))) \<and>
   train 3 (raising_hook_unit on_train_start (UserException 7)) (Some [example_callback]) noop_hook
     ([], example_world (Some (example_phase [1, 2])) None) =
     Some (handle_exception (raising_hook_unit on_train_start (UserException 7))
             (callbacks_or_empty (Some [example_callback])) (UserException 7)
             ([] @ [Unit_hook on_train_start],
              snd (set_module_training_mode
                     (tracked_modules (raising_hook_unit on_train_start (UserException 7))) True
                     ((example_world (Some (example_phase [1, 2])) None)
                        \<lparr>entry_point := EntryPoint_TRAIN, active_phase := ActivePhase_TRAIN\<rparr>)))) \<and>
   map_option raised
     (train 3 (raising_hook_unit on_train_start (UserException 7)) (Some [example_callback]) noop_hook
        ([], example_world (Some (example_phase [1, 2])) None)) = Some (Some (UserException 7)) \<and>
   map_option (fst \<circ> outcome_run)
     (train 3 (raising_hook_unit on_train_start (UserException 7)) (Some [example_callback]) noop_hook
        ([], example_world (Some (example_phase [1, 2])) None)) =
     Some [Unit_hook on_train_start, Unit_hook (on_exception (UserException 7)),
           Callback_hook 0 (on_exception (UserException 7))] \<and>
   map_option raised
     (train 3 (raising_hook_unit on_train_end (UserException 7)) (Some [example_callback]) noop_hook
        ([], example_world (Some ((example_phase [1])\<lparr>max_epochs := Some 1\<rparr>)) None)) =
     Some (Some (UserException 7)) \<and>
   map_option (fst \<circ> outcome_run)
     (train 3 (raising_hook_unit on_train_end (UserException 7)) (Some [example_callback]) noop_hook
        ([], example_world (Some ((example_phase [1])\<lparr>max_epochs := Some 1\<rparr>)) None)) =
     Some [Unit_hook on_train_start, Callback_hook 0 on_train_start,
           Unit_hook on_train_epoch_start, Callback_hook 0 on_train_epoch_start,
           Callback_hook 0 on_train_step_start, Train_step, Callback_hook 0 on_train_step_end,
           Unit_hook on_train_epoch_end, Callback_hook 0 on_train_epoch_end,
           Unit_hook on_train_end, Unit_hook (on_exception (UserException 7)),
           Callback_hook 0 (on_exception (UserException 7))] \<and>
   run_callback_fn
     ([example_callback] @ raising_callback on_train_epoch_end (UserException 8) # [example_callback])
     on_train_epoch_end ([], example_world (Some (example_phase [1, 2])) None) =
     Inl (UserException 8,
          ([Callback_hook 0 on_train_epoch_end] @
           [Callback_hook (length [example_callback]) on_train_epoch_end],
           example_world (Some (example_phase [1, 2])) None)) \<and>
   map_option raised
     (train 3 example_unit
        (Some [example_callback, raising_callback on_train_epoch_end (UserException 8)]) noop_hook
        ([], example_world (Some ((example_phase [1])\<lparr>max_epochs := Some 1\<rparr>)) None)) =
     Some (Some (UserException 8)) \<and>
   map_option (fst \<circ> outcome_run)
     (train 3 example_unit
        (Some [example_callback, raising_callback on_train_epoch_end (UserException 8)]) noop_hook
        ([], example_world (Some ((example_phase [1])\<lparr>max_epochs := Some 1\<rparr>)) None)) =
     Some [Unit_hook on_train_start, Callback_hook 0 on_train_start,
           Unit_hook on_train_epoch_start, Callback_hook 0 on_train_epoch_start,
           Callback_hook 0 on_train_step_start, Train_step, Callback_hook 0 on_train_step_end,
           Unit_hook on_train_epoch_end, Callback_hook 0 on_train_epoch_end,
           Callback_hook 1 on_train_epoch_end,
           Unit_hook (on_exception (UserException 8)),
           Callback_hook 0 (on_exception (UserException 8))] \<and>
   map_option raised
     (train_epoch 3 example_unit (Some [example_callback]) (\<lambda>w. Inl (UserException 9, w))
        ([], example_world (Some ((example_phase [1, 2])\<lparr>max_epochs := Some 1\<rparr>))
               (Some (eval_phase_every 1)))) =
     Some (Some (UserException 9)) \<and>
   map_option (fst \<circ> outcome_run)
     (train_epoch 3 example_unit (Some [example_callback]) (\<lambda>w. Inl (UserException 9, w))
        ([], example_world (Some ((example_phase [1, 2])\<lparr>max_epochs := Some 1\<rparr>))
               (Some (eval_phase_every 1)))) =
     Some [Unit_hook on_train_epoch_start, Callback_hook 0 on_train_epoch_start,
           Callback_hook 0 on_train_step_start, Train_step, Callback_hook 0 on_train_step_end,
           Evaluate, Unit_hook (on_exception (UserException 9)),
           Callback_hook 0 (on_exception (UserException 9))]"
proof -
  let ?cs = "Some [example_callback, silent_callback, example_callback]"
  let ?cbs = "callbacks_or_empty ?cs"
  let ?w = "example_world (Some (example_phase [1, 2])) None"
  let ?v = "example_world (Some ((example_phase [1])\<lparr>max_epochs := Some 1\<rparr>)) None"
  let ?r = "([], ?w) :: run"
  let ?e = "UserException 0"
  let ?inner = "train_impl 3 failing_unit ?cbs noop_hook
                  (fst ?r, (snd ?r)\<lparr>entry_point := EntryPoint_TRAIN\<rparr>)"
  let ?outer = "train 3 failing_unit ?cs noop_hook ?r"
  let ?r1 = "outcome_run (the ?inner)"
  let ?r3 = "(fst ?r1 @ [Unit_hook (on_exception ?e), Callback_hook 0 (on_exception ?e),
                         Callback_hook 2 (on_exception ?e)], snd ?r1)"
  have a: "map_option raised ?inner = Some (Some ?e)" by code_simp
  have ex: "is_Exception ?e" by simp
  have h: "hooks failing_unit (on_exception ?e) (snd ?r1) = Inr (snd ?r1)"
    by (simp add: example_defs)
  have c: "run_callback_fn ?cbs (on_exception ?e) (fst ?r1 @ [Unit_hook (on_exception ?e)], snd ?r1) =
      Inr ?r3"
    by (simp add: run_callback_fn_def callbacks_or_empty_def call_hook_def example_defs)
  have out: "?outer = Some (Inl (?e, ?r3))"
    using exception_goes_to_on_exception_then_caller[where inner="?inner" and outer="?outer"
        and fuel=3 and u=failing_unit and callbacks="?cs" and evl=noop_hook and r="?r"
        and e="?e" and ?r1.0="?r1" and cbs="?cbs" and ?w2.0="snd ?r1" and ?r3.0="?r3",
        THEN conjunct1] raised_Some_Inl[OF a] ex h c
    by blast
  have o1: "map_option raised ?outer = Some (Some ?e)"
    by (subst out) (simp add: raised_def)
  have o2: "fst (outcome_run (the ?outer)) =
       fst ?r1 @ [Unit_hook (on_exception ?e), Callback_hook 0 (on_exception ?e),
                  Callback_hook 2 (on_exception ?e)]"
    by (subst out) simp
  have o3: "map_option (fst \<circ> outcome_run) ?outer =
     Some [Unit_hook on_train_start, Callback_hook 0 on_train_start, Callback_hook 2 on_train_start,
           Unit_hook on_train_epoch_start, Callback_hook 0 on_train_epoch_start,
           Callback_hook 2 on_train_epoch_start,
           Callback_hook 0 on_train_step_start, Callback_hook 2 on_train_step_start, Train_step,
           Unit_hook (on_exception ?e), Callback_hook 0 (on_exception ?e),
           Callback_hook 2 (on_exception ?e)]" by code_simp
  have b1: "map_option raised
     (train 3 bad_handler_unit (Some [example_callback]) noop_hook ?r) =
     Some (Some (RuntimeError ''handler failed''))" by code_simp
  have b2: "map_option (fst \<circ> outcome_run)
     (train 3 bad_handler_unit (Some [example_callback]) noop_hook ?r) =
     Some [Unit_hook on_train_start, Callback_hook 0 on_train_start,
           Unit_hook on_train_epoch_start, Callback_hook 0 on_train_epoch_start,
           Callback_hook 0 on_train_step_start, Train_step,
           Unit_hook (on_exception ?e)]" by code_simp
  have k0: "\<not> is_Exception KeyboardInterrupt" by simp
  have k1: "map_option raised
     (train 3 interrupted_unit (Some [example_callback]) noop_hook ?r) = Some (Some KeyboardInterrupt)"
    by code_simp
  have k2: "map_option (fst \<circ> outcome_run)
     (train 3 interrupted_unit (Some [example_callback]) noop_hook ?r) =
     Some [Unit_hook on_train_start, Callback_hook 0 on_train_start,
           Unit_hook on_train_epoch_start, Callback_hook 0 on_train_epoch_start,
           Callback_hook 0 on_train_step_start, Train_step]" by code_simp
  let ?b = "train_step_body failing_unit [example_callback] noop_hook None [1, 2] ([], ?w)"
  have s1: "isl (fst ?b)" by code_simp
  have s2: "fst (projl (fst ?b)) = ?e" by code_simp
  have s0: "\<not> (should_stop (snd ([] :: event list, ?w)) \<or>
       is_epoch_done (train_progress (snd ([] :: event list, ?w)))
         (max_steps_per_epoch (the (train_state (snd ([] :: event list, ?w)))))
         (max_steps (the (train_state (snd ([] :: event list, ?w))))))"
    by (simp add: example_world_def example_phase_def is_epoch_done_def)
  have s3: "?b = (Inl (?e, snd (projl (fst ?b))), snd ?b)"
    by (rule pair_Inl[OF s1 s2])
  have s4: "train_step_loop (Suc 0) failing_unit [example_callback] noop_hook None [1, 2] ([], ?w) =
     Some (Inl (?e, snd (projl (fst ?b))))"
    using exception_goes_to_on_exception_then_caller[where u=failing_unit
        and cbs="[example_callback]" and evl=noop_hook and k=None and data_iter="[1, 2]"
        and ?r0.0="([], ?w)" and ?e0.0="?e" and ?r0'.0="snd (projl (fst ?b))" and rest="snd ?b"
        and n=0, THEN conjunct2, THEN conjunct1] s3 s0
    by simp
  let ?U = "raising_hook_unit on_train_start (UserException 7)"
  let ?sm = "set_module_training_mode (tracked_modules ?U) True
               (?w\<lparr>entry_point := EntryPoint_TRAIN, active_phase := ActivePhase_TRAIN\<rparr>)"
  have u1: "train_state (snd ([] :: event list, ?w)) = Some (example_phase [1, 2])"
    by (simp add: example_world_def)
  have u2: "set_module_training_mode (tracked_modules ?U) True
      ((snd ([] :: event list, ?w))\<lparr>entry_point := EntryPoint_TRAIN, active_phase := ActivePhase_TRAIN\<rparr>) =
      (fst ?sm, snd ?sm)" by simp
  have u3: "hooks ?U on_train_start (snd ?sm) = Inl (UserException 7, snd ?sm)"
    by (simp add: raising_hook_unit_def)
  have u4: "train 3 ?U (Some [example_callback]) noop_hook ([], ?w) =
     Some (handle_exception ?U (callbacks_or_empty (Some [example_callback])) (UserException 7)
             ([] @ [Unit_hook on_train_start], snd ?sm))"
    using exception_goes_to_on_exception_then_caller[where u="?U" and r="([], ?w)"
        and ts="example_phase [1, 2]" and prior="fst ?sm" and ?w1.0="snd ?sm"
        and e="UserException 7" and w'="snd ?sm" and fuel=3 and callbacks="Some [example_callback]"
        and evl=noop_hook, THEN conjunct2, THEN conjunct2, THEN conjunct2, THEN conjunct2, THEN conjunct2, THEN conjunct2, THEN conjunct2, THEN conjunct2, THEN conjunct2, THEN conjunct2, THEN conjunct2, THEN conjunct2, THEN conjunct2, THEN conjunct2, THEN conjunct2, THEN conjunct2, THEN conjunct2] u1 u2 u3
    by simp
  have u5: "map_option raised (train 3 ?U (Some [example_callback]) noop_hook ([], ?w)) =
      Some (Some (UserException 7))" by code_simp
  have u6: "map_option (fst \<circ> outcome_run)
      (train 3 ?U (Some [example_callback]) noop_hook ([], ?w)) =
     Some [Unit_hook on_train_start, Unit_hook (on_exception (UserException 7)),
           Callback_hook 0 (on_exception (UserException 7))]" by code_simp
  let ?V = "raising_hook_unit on_train_end (UserException 7)"
  have v1: "map_option raised (train 3 ?V (Some [example_callback]) noop_hook ([], ?v)) =
      Some (Some (UserException 7))" by code_simp
  have v2: "map_option (fst \<circ> outcome_run)
      (train 3 ?V (Some [example_callback]) noop_hook ([], ?v)) =
     Some [Unit_hook on_train_start, Callback_hook 0 on_train_start,
           Unit_hook on_train_epoch_start, Callback_hook 0 on_train_epoch_start,
           Callback_hook 0 on_train_step_start, Train_step, Callback_hook 0 on_train_step_end,
           Unit_hook on_train_epoch_end, Callback_hook 0 on_train_epoch_end,
           Unit_hook on_train_end, Unit_hook (on_exception (UserException 7)),
           Callback_hook 0 (on_exception (UserException 7))]" by code_simp
  let ?rc = "raising_callback on_train_epoch_end (UserException 8)"
  have c1: "run_callback_fn [example_callback] on_train_epoch_end ([], ?w) =
      Inr ([Callback_hook 0 on_train_epoch_end], ?w)"
    by (simp add: run_callback_fn_def example_callback_def call_hook_def noop_hook_def)
  have c2: "?rc on_train_epoch_end = Some (\<lambda>w. Inl (UserException 8, w))"
    by (simp add: raising_callback_def)
  have c3: "run_callback_fn ([example_callback] @ ?rc # [example_callback])
     on_train_epoch_end ([], ?w) =
     Inl (UserException 8,
          ([Callback_hook 0 on_train_epoch_end] @
           [Callback_hook (length [example_callback]) on_train_epoch_end], ?w))"
    using exception_goes_to_on_exception_then_caller[where pre="[example_callback]"
        and name=on_train_epoch_end and r="([], ?w)"
        and ?r1.0="([Callback_hook 0 on_train_epoch_end], ?w)" and cb="?rc"
        and h="\<lambda>w. Inl (UserException 8, w)" and e="UserException 8" and w'="?w"
        and post="[example_callback]", THEN conjunct2, THEN conjunct2, THEN conjunct2, THEN conjunct2, THEN conjunct1] c1 c2
    by simp
  have c4: "map_option raised
     (train 3 example_unit (Some [example_callback, ?rc]) noop_hook ([], ?v)) =
     Some (Some (UserException 8))" by code_simp
  have c5: "map_option (fst \<circ> outcome_run)
     (train 3 example_unit (Some [example_callback, ?rc]) noop_hook ([], ?v)) =
     Some [Unit_hook on_train_start, Callback_hook 0 on_train_start,
           Unit_hook on_train_epoch_start, Callback_hook 0 on_train_epoch_start,
           Callback_hook 0 on_train_step_start, Train_step, Callback_hook 0 on_train_step_end,
           Unit_hook on_train_epoch_end, Callback_hook 0 on_train_epoch_end,
           Callback_hook 1 on_train_epoch_end,
           Unit_hook (on_exception (UserException 8)),
           Callback_hook 0 (on_exception (UserException 8))]" by code_simp
  have g1: "map_option raised
     (train_epoch 3 example_unit (Some [example_callback]) (\<lambda>w. Inl (UserException 9, w))
        ([], example_world (Some ((example_phase [1, 2])\<lparr>max_epochs := Some 1\<rparr>))
               (Some (eval_phase_every 1)))) =
     Some (Some (UserException 9))" by code_simp
  have g2: "map_option (fst \<circ> outcome_run)
     (train_epoch 3 example_unit (Some [example_callback]) (\<lambda>w. Inl (UserException 9, w))
        ([], example_world (Some ((example_phase [1, 2])\<lparr>max_epochs := Some 1\<rparr>))
               (Some (eval_phase_every 1)))) =
     Some [Unit_hook on_train_epoch_start, Callback_hook 0 on_train_epoch_start,
           Callback_hook 0 on_train_step_start, Train_step, Callback_hook 0 on_train_step_end,
           Evaluate, Unit_hook (on_exception (UserException 9)),
           Callback_hook 0 (on_exception (UserException 9))]" by code_simp
  show ?thesis
    by (intro conjI) (rule a ex o1 o2 o3 b1 b2 k0 k1 k2 s1 s2 s4 u4 u5 u6 v1 v2 c3 c4 c5 g1 g2)+
qed

text \<open>
  C2 as stated fails for \<open>StopIteration\<close>: raised by \<open>train_step\<close> during \<open>train_epoch\<close>, it
  is taken for the end of the dataloader. No \<open>on_exception\<close> is called, nothing is raised
  to the caller, and the epoch is closed as an empty one.
\<close>

theorem stop_iteration_from_step_is_swallowed:
  "train_step stop_iteration_unit = Batch_step (\<lambda>w b. Inl (StopIteration, w)) \<and>
   map_option raised
     (train_epoch 3 stop_iteration_unit (Some [example_callback]) noop_hook
        ([], example_world (Some ((example_phase [1, 2])\<lparr>max_epochs := Some 1\<rparr>)) None)) =
     Some None \<and>
   map_option (fst \<circ> outcome_run)
     (train_epoch 3 stop_iteration_unit (Some [example_callback]) noop_hook
        ([], example_world (Some ((example_phase [1, 2])\<lparr>max_epochs := Some 1\<rparr>)) None)) =
     Some [Unit_hook on_train_epoch_start, Callback_hook 0 on_train_epoch_start,
           Callback_hook 0 on_train_step_start, Train_step, Warning_no_steps,
           Unit_hook on_train_epoch_end, Callback_hook 0 on_train_epoch_end]"
  by (simp add: run_defs example_defs numeral_eq_Suc)

end
